(* ===== verification/Prelude.thy ===== *)
theory Prelude
  imports Main "HOL-Library.Word" "HOL-Library.Signed_Division"
begin

text \<open>
  Shared vocabulary of the development: the machine integer types of the firmware, the casts
  between them, big-endian bytes, and the lemma collections the component theories extend.

  Conventions. An unsigned integer whose wrap-around the code relies on (\<open>uint32_t\<close> clock
  readings, sequence counters, bytes) is a word. A signed integer is an \<open>int\<close>: C++ gives
  signed overflow no meaning, so the model computes the exact value and the component theories
  prove that it stays in range where that matters. A cast to a signed type is written out
  with \<open>i32\<close> (from an unsigned word) or \<open>to_i32\<close> (from a wider signed value).
  C++ integer division truncates towards zero: \<open>sdiv\<close>; a right shift of a signed value is
  arithmetic: \<open>drop_bit\<close>.
\<close>

unbundle bit_operations_syntax

type_synonym u8 = "8 word"
type_synonym u16 = "16 word"
type_synonym u32 = "32 word"
type_synonym u64 = "64 word"

named_theorems mach_simps "unfold casts and machine arithmetic"
named_theorems step_defs "the definitions of the operations of the components"

definition i32 :: "u32 \<Rightarrow> int" where
  "i32 w = sint w"

definition to_i32 :: "int \<Rightarrow> int" where
  "to_i32 k = signed_take_bit 31 k"

definition to_u32 :: "int \<Rightarrow> u32" where
  "to_u32 k = word_of_int k"

declare i32_def [mach_simps] to_i32_def [mach_simps] to_u32_def [mach_simps]

subsection \<open>Casts\<close>

lemma to_i32_id: "- 2147483648 \<le> k \<Longrightarrow> k < 2147483648 \<Longrightarrow> to_i32 k = k"
  by (simp add: to_i32_def signed_take_bit_int_eq_self)

lemma to_i32_range: "- 2147483648 \<le> to_i32 k \<and> to_i32 k < 2147483648"
  using signed_take_bit_int_greater_eq_minus_exp [of 31 k]
    signed_take_bit_int_less_exp [of 31 k]
  by (simp add: to_i32_def)

lemma i32_to_u32: "i32 (to_u32 k) = to_i32 k"
  by (simp add: i32_def to_u32_def to_i32_def sint_sbintrunc')

lemma i32_range: "- 2147483648 \<le> i32 w \<and> i32 w < 2147483648"
  using sint_ge [of w] sint_lt [of w] by (simp add: i32_def)

lemma i32_eq_0_iff: "i32 w = 0 \<longleftrightarrow> w = 0"
  by (simp add: i32_def signed_eq_0_iff)

lemma i32_uminus: "i32 w \<noteq> - 2147483648 \<Longrightarrow> i32 (- w) = - i32 w"
proof -
  assume "i32 w \<noteq> - 2147483648"
  moreover have "i32 (- w) = to_i32 (- i32 w)"
    by (simp add: i32_def to_i32_def sint_word_ariths(4) [where 'a = 32, simplified])
  ultimately show ?thesis
    using i32_range [of w] by (simp add: to_i32_id)
qed

text \<open>
  The idiom of the whole firmware: two readings of one wrapping 32-bit clock are subtracted as
  unsigned values and the difference is cast to a signed type. It is the exact difference of
  the unwrapped instants whenever they are less than \<open>2^31\<close> apart.
\<close>

lemma clock_diff: "i32 (to_u32 a - to_u32 b) = to_i32 (a - b)"
proof -
  have "to_u32 a - to_u32 b = to_u32 (a - b)"
    by (simp add: to_u32_def)
  then show ?thesis by (simp add: i32_to_u32)
qed

lemma clock_diff_exact:
  "- 2147483648 \<le> a - b \<Longrightarrow> a - b < 2147483648 \<Longrightarrow> i32 (to_u32 a - to_u32 b) = a - b"
  by (simp add: clock_diff to_i32_id)

lemma uint_to_u32: "uint (to_u32 k) = k mod 4294967296"
  by (simp add: to_u32_def uint_word_of_int)

lemma clock_elapsed_exact:
  "0 \<le> a - b \<Longrightarrow> a - b < 4294967296 \<Longrightarrow> uint (to_u32 a - to_u32 b) = a - b"
proof -
  assume "0 \<le> a - b" and "a - b < 4294967296"
  moreover have "to_u32 a - to_u32 b = to_u32 (a - b)" by (simp add: to_u32_def)
  ultimately show ?thesis by (simp add: uint_to_u32)
qed

subsection \<open>Widening casts\<close>

lemma unat_widen_8_16 [simp]: "unat (ucast (w :: u8) :: u16) = unat w"
  by transfer (simp add: take_bit_eq_mod)

lemma unat_widen_8_32 [simp]: "unat (ucast (w :: u8) :: u32) = unat w"
  by transfer (simp add: take_bit_eq_mod)

lemma unat_widen_16_32 [simp]: "unat (ucast (w :: u16) :: u32) = unat w"
  by transfer (simp add: take_bit_eq_mod)

lemma unat_u8 [simp]: "unat (w :: u8) < 256"
  using unsigned_less [of w, where 'a = nat] by simp

lemma unat_u16 [simp]: "unat (w :: u16) < 65536"
  using unsigned_less [of w, where 'a = nat] by simp

lemma unat_u32 [simp]: "unat (w :: u32) < 4294967296"
  using unsigned_less [of w, where 'a = nat] by simp

lemma unat_not_u16: "unat (NOT w :: u16) = 65535 - unat w"
proof -
  have "NOT w = 65535 - w" by (simp add: not_eq_complement)
  then show ?thesis by (simp add: unat_sub word_le_nat_alt less_Suc_eq_le [symmetric])
qed

end
