(* ===== verification/Deadman.thy ===== *)
theory Deadman
  imports Prelude
begin

text \<open>
  \<open>components/ntp_server/deadman.h\<close>: the timer that reverts an unattended register write, and
  the guard on the interrupt level read back from the chip.
\<close>

record deadman_timer =
  dm_armed :: bool
  dm_deadline_ms :: u32

definition deadman_init :: deadman_timer where
  "deadman_init = \<lparr>dm_armed = False, dm_deadline_ms = 0\<rparr>"

definition dm_arm :: "u32 \<Rightarrow> u32 \<Rightarrow> deadman_timer \<Rightarrow> deadman_timer" where
  "dm_arm now_ms duration_ms d = d\<lparr>dm_armed := True, dm_deadline_ms := now_ms + duration_ms\<rparr>"

definition dm_disarm :: "deadman_timer \<Rightarrow> deadman_timer" where
  "dm_disarm d = d\<lparr>dm_armed := False\<rparr>"

definition dm_expired :: "deadman_timer \<Rightarrow> u32 \<Rightarrow> bool" where
  "dm_expired d now_ms \<longleftrightarrow> (if \<not> dm_armed d then False else i32 (now_ms - dm_deadline_ms d) \<ge> 0)"

definition dm_remaining_ms :: "deadman_timer \<Rightarrow> u32 \<Rightarrow> u32" where
  "dm_remaining_ms d now_ms =
     (if \<not> dm_armed d then 0
      else let rem = i32 (dm_deadline_ms d - now_ms) in if rem > 0 then to_u32 rem else 0)"

definition int_level_still_short :: "bool \<Rightarrow> u16 \<Rightarrow> bool" where
  "int_level_still_short read_ok readback \<longleftrightarrow> read_ok \<and> readback = 0x0FFF"

lemma to_u32_add: "to_u32 a + to_u32 b = to_u32 (a + b)"
  by (simp add: to_u32_def)

text \<open>
  The dead-man timer fires on time and stays fired, across the wrap of the millisecond
  clock. Armed at instant \<open>a\<close> for \<open>d < 2^31\<close> ms, at every later instant up to \<open>2^31\<close> ms after
  the deadline it reports expiry exactly from \<open>a + d\<close> on and counts down the exact remainder
  before that; disarming it silences it.
\<close>

theorem deadman_exact:
  assumes "0 \<le> d" "d < 2147483648" "a \<le> t" "t - (a + d) < 2147483648"
  shows "(let tm = dm_arm (to_u32 a) (to_u32 d) tm0 in
     (dm_expired tm (to_u32 t) \<longleftrightarrow> a + d \<le> t) \<and>
     uint (dm_remaining_ms tm (to_u32 t)) = max 0 (a + d - t) \<and>
     \<not> dm_expired (dm_disarm tm) (to_u32 t) \<and> dm_remaining_ms (dm_disarm tm) (to_u32 t) = 0)"
proof -
  have late: "i32 (to_u32 t - to_u32 (a + d)) = t - (a + d)"
    using assms by (intro clock_diff_exact) simp_all
  have early: "i32 (to_u32 (a + d) - to_u32 t) > 0 \<longleftrightarrow> a + d - t > 0"
    "a + d - t > 0 \<Longrightarrow> i32 (to_u32 (a + d) - to_u32 t) = a + d - t"
  proof -
    show eq: "i32 (to_u32 (a + d) - to_u32 t) = a + d - t" if "a + d - t > 0"
      using that assms by (intro clock_diff_exact) simp_all
    show "i32 (to_u32 (a + d) - to_u32 t) > 0 \<longleftrightarrow> a + d - t > 0"
      using eq clock_diff_exact [of "a + d" t] assms by (cases "a + d - t > 0") auto
  qed
  show ?thesis
    using assms late early
    by (auto simp: Let_def dm_arm_def dm_disarm_def dm_expired_def dm_remaining_ms_def to_u32_add
        uint_to_u32)
qed

theorem deadman_exact_witness:
  "(let tm = dm_arm (to_u32 4294967000) (to_u32 1000) deadman_init in
     \<not> dm_expired tm (to_u32 4294967999) \<and> dm_expired tm (to_u32 4294968000))"
  using deadman_exact [of 1000 4294967000 4294967999 deadman_init]
    deadman_exact [of 1000 4294967000 4294968000 deadman_init]
  by (simp add: Let_def)

text \<open>
  The two views of one armed timer agree except at one instant: exactly \<open>2^31\<close> ms from the
  deadline the remainder is 0 and the timer is not expired.
\<close>

lemma deadman_views_agree:
  assumes "dm_armed d"
  shows "dm_remaining_ms d now = 0 \<longleftrightarrow>
    dm_expired d now \<or> now - dm_deadline_ms d = 0x80000000"
proof -
  let ?w = "now - dm_deadline_ms d"
  have neg: "dm_deadline_ms d - now = - ?w" by simp
  have min: "i32 ?w = - 2147483648 \<longleftrightarrow> ?w = 0x80000000"
  proof
    assume "i32 ?w = - 2147483648"
    then have "sint ?w = sint (0x80000000 :: u32)" by (simp add: i32_def)
    then show "?w = 0x80000000" by (rule signed_word_eqI)
  qed (simp add: i32_def)
  have rem: "dm_remaining_ms d now = 0 \<longleftrightarrow> i32 (- ?w) \<le> 0"
  proof -
    have "to_u32 k \<noteq> 0" if "0 < k" "k < 2147483648" for k
    proof
      assume "to_u32 k = 0"
      with uint_to_u32 [of k] that show False by simp
    qed
    with i32_range [of "- ?w"] assms show ?thesis
      unfolding dm_remaining_ms_def neg Let_def by (auto simp: not_le)
  qed
  show ?thesis
  proof (cases "i32 ?w = - 2147483648")
    case True
    with min have "?w = 0x80000000" by simp
    then show ?thesis using rem by (simp add: i32_def)
  next
    case False
    with min have "?w \<noteq> 0x80000000" by simp
    moreover have "i32 (- ?w) = - i32 ?w" using False by (rule i32_uminus)
    ultimately show ?thesis using rem assms by (simp add: dm_expired_def)
  qed
qed

end
