(* ===== verification/RxAdmission.thy ===== *)
theory RxAdmission
  imports Prelude
begin

text \<open>
  \<open>components/ntp_server/rx_admission.h\<close>: how old the interrupt edge of a request is when the
  driver reads the frame, and whether a request with such an edge is served or refused.
\<close>

definition RX_STALL_EDGE_MAX_AGE_US :: int where "RX_STALL_EDGE_MAX_AGE_US = 2000000"
definition RX_STALL_MAX_US :: int where "RX_STALL_MAX_US = 1000"
definition RX_EDGE_LEAD_STRICT_US :: int where "RX_EDGE_LEAD_STRICT_US = 200"
definition RX_QUEUED_BEHIND_MIN_BYTES :: int where "RX_QUEUED_BEHIND_MIN_BYTES = 60"
definition RX_FRESH_BURST_MIN_GAP_US :: int where "RX_FRESH_BURST_MIN_GAP_US = 800"

lemmas rx_consts = RX_STALL_EDGE_MAX_AGE_US_def RX_STALL_MAX_US_def RX_EDGE_LEAD_STRICT_US_def
  RX_QUEUED_BEHIND_MIN_BYTES_def RX_FRESH_BURST_MIN_GAP_US_def

record rx_edge_eval =
  rx_edge_usable :: bool
  rx_lead_us :: int

definition evaluate_rx_edge :: "u32 \<Rightarrow> u32 \<Rightarrow> u32 \<Rightarrow> rx_edge_eval" where
  "evaluate_rx_edge edge_seq edge_us burst_start_us =
     (if edge_seq = 0 \<or> burst_start_us = 0 then \<lparr>rx_edge_usable = False, rx_lead_us = 0\<rparr>
      else let lead = i32 (burst_start_us - edge_us);
               usable = (lead > 0 \<and> lead < RX_STALL_EDGE_MAX_AGE_US) in
        \<lparr>rx_edge_usable = usable, rx_lead_us = lead\<rparr>)"

datatype rx_verdict = ACCEPT | OLD_EDGE | NO_EDGE

definition queued_behind_bytes :: "int \<Rightarrow> int \<Rightarrow> int" where
  "queued_behind_bytes rx_rsr frame_len =
     (if rx_rsr < 0 \<or> frame_len < 0 then - 1 else rx_rsr - (frame_len + 2))"

definition rx_admission ::
  "bool \<Rightarrow> bool \<Rightarrow> int \<Rightarrow> bool \<Rightarrow> bool \<Rightarrow> int \<Rightarrow> int \<Rightarrow> rx_verdict" where
  "rx_admission capture_armed edge_usable lead_us strict short_wait_active queued_bytes rx_gap_us =
     (let threshold = (if strict then RX_EDGE_LEAD_STRICT_US else RX_STALL_MAX_US) in
      if edge_usable \<and> lead_us \<ge> threshold then OLD_EDGE
      else if \<not> strict \<or> \<not> capture_armed \<or> edge_usable then ACCEPT
      else if \<not> short_wait_active then NO_EDGE
      else if queued_bytes < 0 \<or> queued_bytes \<ge> RX_QUEUED_BEHIND_MIN_BYTES then NO_EDGE
      else if rx_gap_us < RX_FRESH_BURST_MIN_GAP_US then NO_EDGE
      else ACCEPT)"

lemma rx_admission_accept_strict:
  "rx_admission armed usable lead True short q gap = ACCEPT \<longleftrightarrow>
    (if usable then lead < 200
     else \<not> armed \<or> short \<and> 0 \<le> q \<and> q < 60 \<and> 800 \<le> gap)"
  by (simp add: rx_admission_def Let_def rx_consts)

lemma rx_admission_accept_legacy:
  "rx_admission armed usable lead False short q gap = ACCEPT \<longleftrightarrow> (if usable then lead < 1000 else True)"
  by (simp add: rx_admission_def Let_def rx_consts)

lemma rx_admission_old_edge:
  "rx_admission armed usable lead strict short q gap = OLD_EDGE \<longleftrightarrow>
    usable \<and> (if strict then 200 else 1000) \<le> lead"
  by (simp add: rx_admission_def Let_def rx_consts)

text \<open>
  The regimes refine each other. Whatever the strict rule serves the legacy rule serves too,
  and whatever it serves without the short interrupt wait it serves with it. The converse gap is
  exactly the fresh-burst case: with the wait active and strict on, a request that the plain
  strict rule would refuse is served only if it has no usable edge, fewer than 60 known bytes
  queued behind it and a known read gap of at least 800 us.
\<close>

theorem admission_regimes_nested:
  "rx_admission armed usable lead True short q gap = ACCEPT \<Longrightarrow>
   rx_admission armed usable lead False short q gap = ACCEPT \<and>
   rx_admission armed usable lead True True q gap = ACCEPT \<and>
   (rx_admission armed usable lead True False q gap = ACCEPT \<or>
    rx_admission armed usable lead True False q gap = NO_EDGE \<and>
      armed \<and> \<not> usable \<and> short \<and> 0 \<le> q \<and> q < 60 \<and> 800 \<le> gap)"
  unfolding rx_admission_accept_strict rx_admission_accept_legacy
  by (auto simp: rx_admission_def rx_consts split: if_splits)

theorem admission_regimes_nested_witness:
  "rx_admission True False 0 True True 12 900 = ACCEPT \<and>
   rx_admission True False 0 False True 12 900 = ACCEPT \<and>
   rx_admission True False 0 True False 12 900 = NO_EDGE"
  using admission_regimes_nested [of True False 0 True 12 900]
  by (simp add: rx_admission_def rx_consts)

lemma evaluate_rx_edge_exact:
  assumes "seq \<noteq> 0" "to_u32 burst \<noteq> 0" "\<bar>burst - edge\<bar> < 2147483648"
  shows "evaluate_rx_edge seq (to_u32 edge) (to_u32 burst) =
    \<lparr>rx_edge_usable = (0 < burst - edge \<and> burst - edge < 2000000), rx_lead_us = burst - edge\<rparr>"
  using assms by (simp add: evaluate_rx_edge_def Let_def clock_diff_exact rx_consts)

text \<open>
  From the clock to the verdict, across the wrap of the microsecond counter. With an edge
  captured, a measured burst start and the two instants less than \<open>2^31\<close> us apart, strict
  admission without the short wait serves a request exactly when the read burst started after
  its interrupt edge and by less than 200 us: an edge in the future, simultaneous or older
  than two seconds counts as no edge and is refused.
\<close>

theorem strict_admission_exact:
  assumes "seq \<noteq> 0" "to_u32 burst \<noteq> 0" "\<bar>burst - edge\<bar> < 2147483648"
  shows "(let e = evaluate_rx_edge seq (to_u32 edge) (to_u32 burst) in
     rx_admission True (rx_edge_usable e) (rx_lead_us e) True False q gap =
      (if 0 < burst - edge \<and> burst - edge < 200 then ACCEPT
       else if 200 \<le> burst - edge \<and> burst - edge < 2000000 then OLD_EDGE else NO_EDGE))"
  using evaluate_rx_edge_exact [OF assms]
  by (simp add: Let_def rx_admission_def rx_consts)

theorem strict_admission_exact_witness:
  "(let e = evaluate_rx_edge 7 (to_u32 4294967290) (to_u32 4294967310) in
     rx_admission True (rx_edge_usable e) (rx_lead_us e) True False 0 0 = ACCEPT)"
  using strict_admission_exact [of 7 4294967310 4294967290 0 0]
  by (simp add: to_u32_def)

lemma queued_behind_bytes_known:
  "0 \<le> rx_rsr \<Longrightarrow> 0 \<le> frame_len \<Longrightarrow>
   queued_behind_bytes rx_rsr frame_len = rx_rsr - frame_len - 2"
  by (simp add: queued_behind_bytes_def)

end
