(* ===== verification/Ring.thy ===== *)
theory Ring
  imports Prelude
begin

text \<open>
  The contract of the firmware's overwriting rings: a fixed array and the index of the next slot
  to write. The hook ring, the diagnostics ring and the table of ARP clients all follow it; the
  locale shows once that such a ring holds exactly the last \<open>size\<close> items pushed.
\<close>

definition oldest_first :: "nat \<Rightarrow> 'a list \<Rightarrow> 'a list" where
  "oldest_first i xs = drop i xs @ take i xs"

lemma set_oldest_first [simp]: "set (oldest_first i xs) = set xs"
  by (metis oldest_first_def append_take_drop_id set_append Un_commute)

lemma length_oldest_first [simp]: "length (oldest_first i xs) = length xs"
  by (simp add: oldest_first_def)

lemma oldest_first_push:
  assumes "i < length xs"
  shows "oldest_first (Suc i mod length xs) (xs[i := x]) = tl (oldest_first i xs) @ [x]"
proof -
  have tl: "tl (oldest_first i xs) = drop (Suc i) xs @ take i xs"
    using assms by (simp add: oldest_first_def tl_append drop_Suc tl_drop split: list.split)
      (metis Cons_nth_drop_Suc list.sel(3) list.distinct(1) drop_Suc tl_drop)
  show ?thesis
  proof (cases "Suc i < length xs")
    case True
    with assms show ?thesis
      by (simp add: tl, simp add: oldest_first_def take_Suc_conv_app_nth)
  next
    case False
    with assms have "Suc i = length xs" by simp
    then have "oldest_first (Suc i mod length xs) (xs[i := x]) = take (Suc i) (xs[i := x])"
      by (simp add: oldest_first_def)
    also have "\<dots> = take i xs @ [x]" using assms by (simp add: take_Suc_conv_app_nth)
    finally show ?thesis using \<open>Suc i = length xs\<close> by (simp add: tl)
  qed
qed

locale overwriting_ring =
  fixes push :: "'a \<Rightarrow> 'r \<Rightarrow> 'r"
    and slots :: "'r \<Rightarrow> 'a list"
    and pos :: "'r \<Rightarrow> nat"
    and ok :: "'r \<Rightarrow> bool"
    and fits :: "'a \<Rightarrow> bool"
    and size :: nat
  assumes ok_size: "ok r \<Longrightarrow> length (slots r) = size"
    and ok_pos: "ok r \<Longrightarrow> pos r < size"
    and push_ok: "ok r \<Longrightarrow> fits x \<Longrightarrow> ok (push x r)"
    and push_slots: "ok r \<Longrightarrow> fits x \<Longrightarrow> slots (push x r) = (slots r)[pos r := x]"
    and push_pos: "ok r \<Longrightarrow> fits x \<Longrightarrow> pos (push x r) = Suc (pos r) mod size"
begin

definition contents :: "'r \<Rightarrow> 'a list" where
  "contents r = oldest_first (pos r) (slots r)"

lemma contents_push: "ok r \<Longrightarrow> fits x \<Longrightarrow> contents (push x r) = tl (contents r) @ [x]"
  using oldest_first_push [of "pos r" "slots r" x]
  by (simp add: contents_def push_slots push_pos ok_size ok_pos)

lemma length_contents: "ok r \<Longrightarrow> length (contents r) = size"
  by (simp add: contents_def ok_size)

lemma fold_ok: "ok r \<Longrightarrow> \<forall>x \<in> set xs. fits x \<Longrightarrow> ok (fold push xs r)"
  by (induction xs arbitrary: r) (simp_all add: push_ok)

lemma contents_fold:
  "ok r \<Longrightarrow> \<forall>x \<in> set xs. fits x \<Longrightarrow>
   contents (fold push xs r) = drop (length xs) (contents r @ xs)"
proof (induction xs arbitrary: r)
  case Nil
  then show ?case by simp
next
  case (Cons x xs)
  then have "0 < length (contents r)" using ok_pos [of r] by (simp add: length_contents)
  then obtain y ys where "contents r = y # ys" by (cases "contents r") auto
  with Cons show ?case by (simp add: push_ok contents_push del: drop_append)
qed

lemma set_slots_fold:
  "ok r \<Longrightarrow> \<forall>x \<in> set xs. fits x \<Longrightarrow>
   set (slots (fold push xs r)) = set (drop (length xs) (contents r @ xs))"
  using contents_fold [of r xs] unfolding contents_def by (metis set_oldest_first)

end

end
