(* ===== verification/ArpWait.thy ===== *)
theory ArpWait
  imports Ring
begin

text \<open>
  \<open>components/ntp_server/arp_wait.h\<close> and the ARP priming of \<open>ntp_server.cpp\<close>
  (\<open>note_arp_client_\<close>, \<open>refresh_arp_entries_\<close>). The ARP cache and the clock are lwIP's and the
  chip's: the wait takes the answers of its successive lookups and clock readings as sequences.
  The loop of the wait runs on fuel; the properties show how much is enough.
\<close>

subsection \<open>The next hop\<close>

definition next_hop_ipv4 :: "u32 \<Rightarrow> u32 \<Rightarrow> u32 \<Rightarrow> u32 \<Rightarrow> u32" where
  "next_hop_ipv4 client our_ip netmask gateway =
     (if (client XOR our_ip) AND netmask = 0 then client else gateway)"

subsection \<open>The bounded wait\<close>

record arp_wait_result =
  aw_resolved :: bool
  aw_missed :: bool
  aw_waited_us :: int

text \<open>
  \<open>lookup k\<close> is the answer of the k-th lookup, \<open>now k\<close> the k-th clock reading. The result comes
  with the number of queries sent and of 1 ms sleeps taken; \<open>None\<close> is running out of fuel.
\<close>

fun arp_wait_loop ::
  "nat \<Rightarrow> (nat \<Rightarrow> bool) \<Rightarrow> (nat \<Rightarrow> int) \<Rightarrow> int \<Rightarrow> nat \<Rightarrow> (arp_wait_result \<times> nat) option" where
  "arp_wait_loop 0 lookup now max_wait_us k = None"
| "arp_wait_loop (Suc fuel) lookup now max_wait_us k =
    (let elapsed = to_i32 (now (Suc k) - now 0) in
     if lookup (Suc k) then Some (\<lparr>aw_resolved = True, aw_missed = True, aw_waited_us = elapsed\<rparr>, Suc k)
     else if elapsed \<ge> max_wait_us
     then Some (\<lparr>aw_resolved = False, aw_missed = True, aw_waited_us = elapsed\<rparr>, Suc k)
     else arp_wait_loop fuel lookup now max_wait_us (Suc k))"

definition wait_for_arp ::
  "nat \<Rightarrow> (nat \<Rightarrow> bool) \<Rightarrow> (nat \<Rightarrow> int) \<Rightarrow> int \<Rightarrow> (arp_wait_result \<times> nat \<times> nat) option" where
  "wait_for_arp fuel lookup now max_wait_us =
     (if lookup 0 then Some (\<lparr>aw_resolved = True, aw_missed = False, aw_waited_us = 0\<rparr>, 0, 0)
      else map_option (\<lambda>(r, sleeps). (r, 1, sleeps)) (arp_wait_loop fuel lookup now max_wait_us 0))"

text \<open>What the code relies on: every sleep moves the clock forward, by at most \<open>d\<close>.\<close>

definition clock_advances :: "int \<Rightarrow> (nat \<Rightarrow> int) \<Rightarrow> bool" where
  "clock_advances d now \<longleftrightarrow> (\<forall>k. 1 \<le> now (Suc k) - now k \<and> now (Suc k) - now k \<le> d)"

lemma clock_advances_bounds:
  assumes "clock_advances d now"
  shows "int k \<le> now k - now 0 \<and> now k - now 0 \<le> int k * d"
proof (induction k)
  case (Suc k)
  have "1 \<le> now (Suc k) - now k \<and> now (Suc k) - now k \<le> d"
    using assms by (simp add: clock_advances_def)
  with Suc show ?case by (simp add: algebra_simps)
qed simp

definition wait_outcome :: "(nat \<Rightarrow> bool) \<Rightarrow> (nat \<Rightarrow> int) \<Rightarrow> int \<Rightarrow> int \<Rightarrow> nat \<Rightarrow> arp_wait_result \<Rightarrow> nat \<Rightarrow> bool" where
  "wait_outcome lookup now max_wait_us d k r n \<longleftrightarrow>
     k < n \<and> aw_missed r \<and> aw_waited_us r = now n - now 0 \<and> aw_waited_us r < max_wait_us + d \<and>
     (aw_resolved r \<longleftrightarrow> lookup n) \<and> (\<forall>j. k < j \<and> j < n \<longrightarrow> \<not> lookup j) \<and>
     (\<not> aw_resolved r \<longrightarrow> max_wait_us \<le> aw_waited_us r)"

lemma arp_wait_loop_ends:
  assumes "clock_advances d now" "0 < max_wait_us" "max_wait_us + d \<le> 2147483648"
    and "now k - now 0 < max_wait_us" "max_wait_us - (now k - now 0) \<le> int fuel"
  shows "\<exists>r n. arp_wait_loop fuel lookup now max_wait_us k = Some (r, n) \<and>
    wait_outcome lookup now max_wait_us d k r n"
  using assms(4,5)
proof (induction fuel arbitrary: k)
  case 0
  then show ?case by simp
next
  case (Suc fuel)
  have s: "1 \<le> now (Suc k) - now k" "now (Suc k) - now k \<le> d"
    using assms(1) by (simp_all add: clock_advances_def)
  have "0 \<le> now (Suc k) - now 0"
    using clock_advances_bounds [OF assms(1), of "Suc k"] by simp
  moreover have lt: "now (Suc k) - now 0 < max_wait_us + d" using s Suc.prems(1) by linarith
  ultimately have e: "to_i32 (now (Suc k) - now 0) = now (Suc k) - now 0"
    using assms(3) by (intro to_i32_id) linarith+
  show ?case
  proof (cases "lookup (Suc k) \<or> now (Suc k) - now 0 \<ge> max_wait_us")
    case True
    then show ?thesis
      using lt by (auto simp: e Let_def wait_outcome_def less_Suc_eq)
  next
    case False
    then have "now (Suc k) - now 0 < max_wait_us"
      "max_wait_us - (now (Suc k) - now 0) \<le> int fuel"
      using Suc.prems(2) s(1) by simp_all
    from Suc.IH [OF this] obtain r n where
      "arp_wait_loop fuel lookup now max_wait_us (Suc k) = Some (r, n)"
      "wait_outcome lookup now max_wait_us d (Suc k) r n" by blast
    with False show ?thesis
      by (auto simp: e Let_def wait_outcome_def) (metis Suc_lessI not_less_eq)+
  qed
qed

lemma wait_for_arp_terminates_aux:
  assumes "clock_advances d now" "0 < max_wait_us" "max_wait_us + d \<le> 2147483648"
    and "nat max_wait_us \<le> fuel"
  shows "\<exists>r q n. wait_for_arp fuel lookup now max_wait_us = Some (r, q, n) \<and>
    q = (if lookup 0 then 0 else 1) \<and> (aw_missed r \<longleftrightarrow> \<not> lookup 0) \<and>
    (aw_resolved r \<longleftrightarrow> lookup n) \<and> (\<forall>j < n. \<not> lookup j) \<and>
    aw_waited_us r = now n - now 0 \<and> aw_waited_us r < max_wait_us + d \<and>
    (\<not> aw_resolved r \<longrightarrow> max_wait_us \<le> aw_waited_us r)"
proof (cases "lookup 0")
  case True
  have "0 \<le> d" using assms(1) by (auto simp: clock_advances_def)
  with True assms(2) show ?thesis by (simp add: wait_for_arp_def)
next
  case False
  have "max_wait_us - (now 0 - now 0) \<le> int fuel" using assms(2,4) by simp
  with assms arp_wait_loop_ends [OF assms(1-3), of 0 fuel lookup]
  obtain r n where "arp_wait_loop fuel lookup now max_wait_us 0 = Some (r, n)"
    "wait_outcome lookup now max_wait_us d 0 r n" by auto
  with False show ?thesis
    by (auto simp: wait_for_arp_def wait_outcome_def) (metis not_gr_zero)+
qed

text \<open>
  C34: The wait for an ARP entry always ends, and keeps its promises. If every 1 ms sleep moves the
  clock forward by at least 1 us and at most \<open>d\<close>, the call returns, for any answers of the
  cache: it queries at most once, and not at all when the entry is there; it reports the first
  lookup that succeeds; it waits less than \<open>max_wait_us + d\<close> and gives up only after
  \<open>max_wait_us\<close>.
\<close>

theorem wait_for_arp_terminates:
  assumes "clock_advances d now" "0 < max_wait_us" "max_wait_us + d \<le> 2147483648"
    and "nat max_wait_us \<le> fuel"
  shows "\<exists>r q n. wait_for_arp fuel lookup now max_wait_us = Some (r, q, n) \<and>
    q = (if lookup 0 then 0 else 1) \<and> (aw_missed r \<longleftrightarrow> \<not> lookup 0) \<and>
    (aw_resolved r \<longleftrightarrow> lookup n) \<and> (\<forall>j < n. \<not> lookup j) \<and>
    aw_waited_us r = now n - now 0 \<and> aw_waited_us r < max_wait_us + d \<and>
    (\<not> aw_resolved r \<longrightarrow> max_wait_us \<le> aw_waited_us r)"
  by (rule wait_for_arp_terminates_aux [OF assms])

theorem wait_for_arp_terminates_witness:
  "\<exists>r q n. wait_for_arp 20000 (\<lambda>k. k = 3) (\<lambda>k. 7 + 1000 * int k) 20000 = Some (r, q, n) \<and> q = 1 \<and>
     aw_waited_us r < 21000"
  using wait_for_arp_terminates [of 1000 "\<lambda>k. 7 + 1000 * int k" 20000 20000 "\<lambda>k. k = 3"]
  by (simp add: clock_advances_def algebra_simps) blast

subsection \<open>Keeping the clients' entries warm\<close>

definition ARP_CLIENT_SLOTS :: nat where "ARP_CLIENT_SLOTS = 8"
definition ARP_REFRESH_INTERVAL_MS :: u32 where "ARP_REFRESH_INTERVAL_MS = 60000"

record arp_clients =
  ac_slots :: "u32 list"
  ac_next :: nat
  ac_last_refresh_ms :: u32
  ac_primes :: u32
  ac_primes_pending :: bool

definition arp_clients_init :: arp_clients where
  "arp_clients_init = \<lparr>ac_slots = replicate ARP_CLIENT_SLOTS 0, ac_next = 0,
     ac_last_refresh_ms = 0, ac_primes = 0, ac_primes_pending = False\<rparr>"

definition arp_store :: "u32 \<Rightarrow> arp_clients \<Rightarrow> arp_clients" where
  "arp_store addr s = s\<lparr>ac_slots := (ac_slots s)[ac_next s := addr],
     ac_next := (ac_next s + 1) mod ARP_CLIENT_SLOTS\<rparr>"

definition note_arp_client :: "u32 \<Rightarrow> arp_clients \<Rightarrow> arp_clients" where
  "note_arp_client addr s =
     (if addr = 0 then s else if addr \<in> set (ac_slots s) then s else arp_store addr s)"

definition arp_ok :: "arp_clients \<Rightarrow> bool" where
  "arp_ok s \<longleftrightarrow> length (ac_slots s) = ARP_CLIENT_SLOTS \<and> ac_next s < ARP_CLIENT_SLOTS"

interpretation arp: overwriting_ring arp_store ac_slots ac_next arp_ok "\<lambda>_. True" ARP_CLIENT_SLOTS
  by unfold_locales (auto simp: arp_ok_def arp_store_def ARP_CLIENT_SLOTS_def)

text \<open>The network configuration of the interface: own address, netmask, gateway.\<close>

record netif =
  if_ip :: u32
  if_netmask :: u32
  if_gateway :: u32

text \<open>\<open>cached hop\<close> is whether lwIP has an entry; the result lists the queries sent.\<close>

definition prime_slot :: "netif \<Rightarrow> (u32 \<Rightarrow> bool) \<Rightarrow> u32 list \<Rightarrow> u32 \<Rightarrow> u32 list" where
  "prime_slot nif cached queries addr =
     (if addr = 0 then queries
      else let hop = next_hop_ipv4 addr (if_ip nif) (if_netmask nif) (if_gateway nif) in
        if hop = 0 then queries else if cached hop then queries else queries @ [hop])"

definition refresh_arp_entries ::
  "u32 \<Rightarrow> netif option \<Rightarrow> (u32 \<Rightarrow> bool) \<Rightarrow> arp_clients \<Rightarrow> arp_clients \<times> u32 list" where
  "refresh_arp_entries now nif cached s =
     (if ac_last_refresh_ms s \<noteq> 0 \<and> now - ac_last_refresh_ms s < ARP_REFRESH_INTERVAL_MS then (s, [])
      else let s = s\<lparr>ac_last_refresh_ms := now\<rparr> in
        case nif of None \<Rightarrow> (s, [])
        | Some i \<Rightarrow>
            (let queries = foldl (prime_slot i cached) [] (ac_slots s) in
             if queries \<noteq> [] then
               (s\<lparr>ac_primes := ac_primes s + of_nat (length queries), ac_primes_pending := True\<rparr>, queries)
             else (s, [])))"

lemma prime_slots:
  "set (foldl (prime_slot i cached) qs as) = set qs \<union>
    {h. h \<noteq> 0 \<and> \<not> cached h \<and> (\<exists>a \<in> set as. a \<noteq> 0 \<and> h = next_hop_ipv4 a (if_ip i) (if_netmask i) (if_gateway i))}"
  by (induction as arbitrary: qs) (auto simp: prime_slot_def Let_def)

definition clients_ok :: "arp_clients \<Rightarrow> bool" where
  "clients_ok s \<longleftrightarrow> arp_ok s \<and> distinct (filter (\<lambda>a. a \<noteq> 0) (ac_slots s))"

lemma distinct_filter_update:
  "distinct (filter P xs) \<Longrightarrow> x \<notin> set xs \<Longrightarrow> i < length xs \<Longrightarrow> distinct (filter P (xs[i := x]))"
proof -
  assume a: "distinct (filter P xs)" "x \<notin> set xs" "i < length xs"
  have "xs = take i xs @ xs ! i # drop (Suc i) xs" using a(3) by (rule id_take_nth_drop)
  then have "distinct (filter P (take i xs @ xs ! i # drop (Suc i) xs))" using a(1) by simp
  moreover have "x \<notin> set (take i xs)" "x \<notin> set (drop (Suc i) xs)"
    using a(2) by (auto dest: in_set_takeD in_set_dropD)
  ultimately show ?thesis
    using a(3) by (auto simp: upd_conv_take_nth_drop split: if_splits)
qed

lemma note_arp_client_ok: "clients_ok s \<Longrightarrow> clients_ok (note_arp_client addr s)"
  by (auto simp: clients_ok_def note_arp_client_def arp.push_ok arp_ok_def ARP_CLIENT_SLOTS_def arp_store_def
      intro!: distinct_filter_update)

lemma notes_ok: "clients_ok s \<Longrightarrow> clients_ok (fold note_arp_client as s)"
  by (induction as arbitrary: s) (simp_all add: note_arp_client_ok)

text \<open>
  The priming never broadcasts for an address it cannot resolve. Whatever clients were served,
  the table holds no client twice and always the one served last; a refresh asks only for cold
  entries, and every address it asks for is a tracked client on our own subnet or the
  configured gateway, never 0.
\<close>

theorem arp_priming_sound:
  assumes "a \<noteq> 0" "s = fold note_arp_client (as @ [a]) arp_clients_init"
  shows "a \<in> set (ac_slots s) \<and> distinct (filter (\<lambda>x. x \<noteq> 0) (ac_slots s)) \<and>
    (\<forall>h \<in> set (snd (refresh_arp_entries now (Some i) cached s)).
       h \<noteq> 0 \<and> \<not> cached h \<and>
       (h \<in> set (ac_slots s) \<and> (h XOR if_ip i) AND if_netmask i = 0 \<or> h = if_gateway i))"
proof -
  have "clients_ok arp_clients_init"
    by (simp add: clients_ok_def arp_ok_def arp_clients_init_def ARP_CLIENT_SLOTS_def)
  then have c: "clients_ok (fold note_arp_client as arp_clients_init)" by (rule notes_ok)
  then have "a \<in> set (ac_slots s)"
    using assms by (auto simp: note_arp_client_def arp_store_def clients_ok_def arp_ok_def
        intro: set_update_memI)
  moreover have "clients_ok s" using c assms(2) by (simp add: note_arp_client_ok)
  moreover have "h \<noteq> 0 \<and> \<not> cached h \<and>
       (h \<in> set (ac_slots s) \<and> (h XOR if_ip i) AND if_netmask i = 0 \<or> h = if_gateway i)"
    if "h \<in> set (snd (refresh_arp_entries now (Some i) cached s))" for h
    using that prime_slots [of i cached "[]" "ac_slots s"]
    by (auto simp: refresh_arp_entries_def Let_def next_hop_ipv4_def split: if_splits)
  ultimately show ?thesis by (simp add: clients_ok_def)
qed

theorem arp_priming_sound_witness:
  "0x0A000005 \<in> set (ac_slots (fold note_arp_client [0x0A000007, 0x0A000005] arp_clients_init))"
  using arp_priming_sound [of "0x0A000005" "fold note_arp_client [0x0A000007, 0x0A000005] arp_clients_init" "[0x0A000007]"]
  by simp

end
