(* ===== verification/Bytes.thy ===== *)
theory Bytes
  imports Prelude "HOL-Library.Monad_Syntax"
begin

text \<open>
  Bytes on the wire: big-endian 16-bit and 32-bit fields, and reads of a byte buffer that make
  an out-of-bounds access visible. A buffer is the list of its valid bytes; \<open>rd\<close> is \<open>None\<close>
  exactly where the C++ would read past them.
\<close>

definition rd :: "u8 list \<Rightarrow> nat \<Rightarrow> u8 option" where
  "rd b i = (if i < length b then Some (b ! i) else None)"

definition be16 :: "u8 \<Rightarrow> u8 \<Rightarrow> u16" where
  "be16 hi lo = push_bit 8 (ucast hi) OR ucast lo"

definition rd16 :: "u8 list \<Rightarrow> nat \<Rightarrow> u16 option" where
  "rd16 b i = do { hi \<leftarrow> rd b i; lo \<leftarrow> rd b (i + 1); Some (be16 hi lo) }"

definition hi8 :: "u16 \<Rightarrow> u8" where
  "hi8 w = ucast (drop_bit 8 w)"

definition lo8 :: "u16 \<Rightarrow> u8" where
  "lo8 w = ucast w"

definition be32 :: "u32 \<Rightarrow> u8 list" where
  "be32 w = [ucast (drop_bit 24 w), ucast (drop_bit 16 w), ucast (drop_bit 8 w), ucast w]"

definition of_be32 :: "u8 list \<Rightarrow> u32" where
  "of_be32 b = push_bit 24 (ucast (b ! 0)) OR push_bit 16 (ucast (b ! 1)) OR
     push_bit 8 (ucast (b ! 2)) OR ucast (b ! 3)"

lemma rd_Some_iff: "rd b i = Some x \<longleftrightarrow> i < length b \<and> b ! i = x"
  by (auto simp: rd_def)

lemma rd_in [simp]: "i < length b \<Longrightarrow> rd b i = Some (b ! i)"
  by (simp add: rd_def)

lemma rd16_in [simp]: "i + 1 < length b \<Longrightarrow> rd16 b i = Some (be16 (b ! i) (b ! (i + 1)))"
  by (simp add: rd16_def)

lemma be16_unat: "unat (be16 hi lo) = unat hi * 256 + unat lo"
proof -
  have "be16 hi lo = push_bit 8 (ucast hi) + ucast lo"
    unfolding be16_def
    by (rule disjunctive_add [symmetric]) (auto simp: bit_simps not_le dest: bit_imp_le_length)
  moreover have "unat hi * 256 + unat lo < 65536"
    using unat_u8 [of hi] unat_u8 [of lo] by linarith
  ultimately show ?thesis
    by (simp add: unat_word_ariths push_bit_eq_mult mult.commute)
qed

lemma be16_hi_lo [simp]: "be16 (hi8 w) (lo8 w) = w"
  by (rule bit_word_eqI) (auto simp: be16_def hi8_def lo8_def bit_simps)

lemma hi8_be16 [simp]: "hi8 (be16 a b) = a"
  by (rule bit_word_eqI) (auto simp: be16_def hi8_def bit_simps dest: bit_imp_le_length)

lemma lo8_be16 [simp]: "lo8 (be16 a b) = b"
  by (rule bit_word_eqI) (auto simp: be16_def lo8_def bit_simps dest: bit_imp_le_length)

lemma length_be32 [simp]: "length (be32 w) = 4"
  by (simp add: be32_def)

lemma of_be32_be32 [simp]: "of_be32 (be32 w) = w"
proof (rule bit_word_eqI)
  fix n assume "n < LENGTH(32)"
  then consider "n < 8" | "8 \<le> n" "n < 16" | "16 \<le> n" "n < 24" | "24 \<le> n" "n < 32"
    by fastforce
  then show "bit (of_be32 (be32 w)) n = bit w n"
    by cases (auto simp: of_be32_def be32_def bit_simps)
qed

lemma be32_inject [simp]: "be32 v = be32 w \<longleftrightarrow> v = w"
  by (metis of_be32_be32)

text \<open>The bytes of a buffer from an offset, as \<open>memcpy\<close> reads them.\<close>

definition rdn :: "u8 list \<Rightarrow> nat \<Rightarrow> nat \<Rightarrow> u8 list option" where
  "rdn b i n = (if i + n \<le> length b then Some (take n (drop i b)) else None)"

text \<open>\<open>memcpy\<close> into a buffer at an offset.\<close>

definition put :: "u8 list \<Rightarrow> nat \<Rightarrow> u8 list \<Rightarrow> u8 list" where
  "put b i xs = take i b @ xs @ drop (i + length xs) b"

lemma rdn_in [simp]: "i + n \<le> length b \<Longrightarrow> rdn b i n = Some (take n (drop i b))"
  by (simp add: rdn_def)

lemma length_put [simp]: "i + length xs \<le> length b \<Longrightarrow> length (put b i xs) = length b"
  by (simp add: put_def)

lemma put_same: "i + length xs \<le> length b \<Longrightarrow> take (length xs) (drop i (put b i xs)) = xs"
  by (simp add: put_def)

lemma put_nth:
  "i + length xs \<le> length b \<Longrightarrow> j < length b \<Longrightarrow>
   put b i xs ! j = (if i \<le> j \<and> j < i + length xs then xs ! (j - i) else b ! j)"
  by (auto simp: put_def nth_append min_def)

end
