(* ===== verification/Seqlock.thy ===== *)
theory Seqlock
  imports Prelude
begin

text \<open>
  The sequence lock that protects multi-word data shared between two tasks: the slots of the
  hook ring and of the diagnostics ring, the PPS anchor. One writer makes the sequence number odd,
  stores the data piece by piece and makes the number even again; a reader that sees the same
  even number before and after copying has copied a consistent snapshot.

  A writer is the list of its atomic stores, given the sequence number it loaded and the
  payload. The locale states what the stores of one write do; its lemmas hold for every
  interleaving of the reader with a writer that performs any sequence of writes.
\<close>

definition apply_all :: "('s \<Rightarrow> 's) list \<Rightarrow> 's \<Rightarrow> 's" where
  "apply_all fs s = foldl (\<lambda>s f. f s) s fs"

lemma apply_all_Nil [simp]: "apply_all [] s = s"
  by (simp add: apply_all_def)

lemma apply_all_Cons [simp]: "apply_all (f # fs) s = apply_all fs (f s)"
  by (simp add: apply_all_def)

lemma apply_all_append [simp]: "apply_all (fs @ gs) s = apply_all gs (apply_all fs s)"
  by (simp add: apply_all_def)

lemma apply_all_take_Suc:
  "j < length fs \<Longrightarrow> apply_all (take (Suc j) fs) s = (fs ! j) (apply_all (take j fs) s)"
  by (simp add: take_Suc_conv_app_nth)

locale seqlock =
  fixes seq_of :: "'s \<Rightarrow> u32"
    and stores :: "u32 \<Rightarrow> 'p \<Rightarrow> ('s \<Rightarrow> 's) list"
    and view :: "'s \<Rightarrow> 'p"
    and cells :: nat
    and ok :: "'s \<Rightarrow> bool"
    and wf :: "'p \<Rightarrow> bool"
  assumes stores_length: "length (stores q p) = Suc (Suc cells)"
    and store_begin: "seq_of ((stores (seq_of s) p ! 0) s) = seq_of s + 1"
    and store_cell: "0 < j \<Longrightarrow> j < Suc cells \<Longrightarrow> seq_of ((stores q p ! j) s) = seq_of s"
    and store_end: "seq_of s = q + 1 \<Longrightarrow> seq_of ((stores q p ! Suc cells) s) = q + 2"
    and stored: "ok s \<Longrightarrow> wf p \<Longrightarrow> view (apply_all (stores q p) s) = p"
    and stores_ok: "ok s \<Longrightarrow> wf p \<Longrightarrow> ok (apply_all (stores q p) s)"
begin

fun writer :: "'s \<Rightarrow> 'p list \<Rightarrow> ('s \<Rightarrow> 's) list" where
  "writer s [] = []"
| "writer s (p # ps) = stores (seq_of s) p @ writer (apply_all (stores (seq_of s) p) s) ps"

text \<open>The shared memory after the writer's first \<open>t\<close> stores.\<close>

definition at_step :: "'s \<Rightarrow> 'p list \<Rightarrow> nat \<Rightarrow> 's" where
  "at_step s ps t = apply_all (take t (writer s ps)) s"

abbreviation period :: nat where "period \<equiv> Suc (Suc cells)"

lemma seq_within:
  assumes "j \<le> Suc cells"
  shows "seq_of (apply_all (take j (stores (seq_of s) p)) s) = seq_of s + (if j = 0 then 0 else 1)"
  using assms
proof (induction j)
  case (Suc j)
  then have j: "j < length (stores (seq_of s) p)" by (simp add: stores_length)
  show ?case
  proof (cases "j = 0")
    case True
    with j show ?thesis by (simp add: apply_all_take_Suc store_begin)
  next
    case False
    with Suc j show ?thesis by (simp add: apply_all_take_Suc store_cell)
  qed
qed simp

lemma seq_after: "seq_of (apply_all (stores (seq_of s) p) s) = seq_of s + 2"
proof -
  let ?fs = "stores (seq_of s) p"
  have "apply_all ?fs s = (?fs ! Suc cells) (apply_all (take (Suc cells) ?fs) s)"
    using apply_all_take_Suc [of "Suc cells" ?fs s] stores_length by simp
  then show ?thesis using seq_within [of "Suc cells" s p] by (simp add: store_end)
qed

lemma length_writer: "length (writer s ps) = length ps * period"
  by (induction ps arbitrary: s) (simp_all add: stores_length)

lemma at_step_Cons:
  "at_step s (p # ps) t =
    (if t < period then apply_all (take t (stores (seq_of s) p)) s
     else at_step (apply_all (stores (seq_of s) p) s) ps (t - period))"
  by (simp add: at_step_def stores_length)

text \<open>The sequence number counts the stores: even exactly between writes.\<close>

lemma seq_at_step:
  "t \<le> length ps * period \<Longrightarrow>
   seq_of (at_step s ps t) =
     seq_of s + of_nat (2 * (t div period) + (if t mod period = 0 then 0 else 1))"
proof (induction ps arbitrary: s t)
  case Nil
  then show ?case by (simp add: at_step_def)
next
  case (Cons p ps)
  show ?case
  proof (cases "t < period")
    case True
    then show ?thesis using seq_within [of t s p] by (simp add: at_step_Cons)
  next
    case False
    then have "t div period = Suc ((t - period) div period)" "t mod period = (t - period) mod period"
      by (simp_all add: le_div_geq le_mod_geq)
    moreover from False Cons.prems have "t - period \<le> length ps * period" by simp
    ultimately show ?thesis
      using False Cons.IH [of "t - period"]
      by (simp add: at_step_Cons seq_after algebra_simps)
  qed
qed

lemma view_between:
  "k < length ps \<Longrightarrow> ok s \<Longrightarrow> (\<forall>p \<in> set ps. wf p) \<Longrightarrow>
   view (at_step s ps (Suc k * period)) = ps ! k"
proof (induction ps arbitrary: s k)
  case (Cons p ps)
  show ?case
  proof (cases k)
    case 0
    with Cons.prems show ?thesis
      using stored by (simp add: at_step_Cons at_step_def stores_length)
  next
    case (Suc i)
    with Cons.prems have "view (at_step (apply_all (stores (seq_of s) p) s) ps (Suc i * period)) = ps ! i"
      by (intro Cons.IH) (simp_all add: stores_ok)
    with Suc show ?thesis by (simp add: at_step_Cons)
  qed
qed simp

text \<open>
  An accepted read: the same even number at two points of the writer's execution, fewer than
  \<open>2^31\<close> writes apart, means that the writer made no store in between. Every copy taken in
  the interval is the same state, the one the last completed write left.
\<close>

lemma even_seq:
  assumes "t \<le> length ps * period" "even (seq_of s)"
    "even (seq_of (at_step s ps t))"
  shows "t mod period = 0"
proof (rule ccontr)
  assume "t mod period \<noteq> 0"
  then have "seq_of (at_step s ps t) = seq_of s + (2 * of_nat (t div period) + 1)"
    using seq_at_step [OF assms(1)] by simp
  moreover have "odd (seq_of s + (2 * of_nat (t div period) + 1))"
    using assms(2) by simp
  ultimately show False using assms(3) by simp
qed

theorem accepted_read_is_quiet:
  assumes "t \<le> u" "u \<le> length ps * period" "even (seq_of s)"
    and "even (seq_of (at_step s ps t))"
    and "seq_of (at_step s ps t) = seq_of (at_step s ps u)"
    and "u div period - t div period < 2147483648"
  shows "t = u" "t mod period = 0"
proof -
  from assms(1,2) have t: "t \<le> length ps * period" by simp
  show m: "t mod period = 0" by (rule even_seq [OF t assms(3,4)])
  have n: "u mod period = 0" using even_seq [OF assms(2,3)] assms(4,5) by simp
  have "(of_nat (2 * (t div period)) :: u32) = of_nat (2 * (u div period))"
    using assms(5) unfolding seq_at_step [OF t] seq_at_step [OF assms(2)] m n
    by (simp only: add_left_cancel refl if_True add_0_right)
  then have "2 * (u div period) mod 4294967296 = 2 * (t div period) mod 4294967296"
    by (simp only: word_of_nat_eq_iff take_bit_eq_mod) simp
  moreover have "2 * (t div period) \<le> 2 * (u div period)"
    using div_le_mono [OF assms(1), of period] by (simp only: mult_le_mono2)
  ultimately have "4294967296 dvd 2 * (u div period) - 2 * (t div period)"
    by (simp only: mod_eq_dvd_iff_nat)
  moreover have "2 * (u div period) - 2 * (t div period) < 4294967296" using assms(6) by linarith
  ultimately have "u div period \<le> t div period"
    by (metis dvd_imp_le not_le less_imp_le_nat zero_less_diff nat_mult_less_cancel1 zero_less_numeral)
  with div_le_mono [OF assms(1), of period] have "u div period = t div period" by simp
  with m n show "t = u" by (metis div_mult_mod_eq)
qed

theorem accepted_read_is_a_write:
  assumes "t \<le> u" "u \<le> length ps * period" "even (seq_of s)" "ok s" "\<forall>p \<in> set ps. wf p"
    and "even (seq_of (at_step s ps t))"
    and "seq_of (at_step s ps t) = seq_of (at_step s ps u)"
    and "u div period - t div period < 2147483648"
    and "t \<le> m" "m \<le> u"
  shows "view (at_step s ps m) = (case t div period of 0 \<Rightarrow> view s | Suc k \<Rightarrow> ps ! k)"
proof -
  note q = accepted_read_is_quiet [OF assms(1-3,6-8)]
  with assms(9,10) have m: "m = t div period * period" by (metis le_antisym div_mult_mod_eq add_0_right)
  show ?thesis
  proof (cases "t div period")
    case 0
    with m show ?thesis by (simp add: at_step_def)
  next
    case (Suc k)
    have "Suc k * period \<le> length ps * period" using assms(2,9,10) q m Suc by simp
    then have "k < length ps" by (simp only: mult_le_cancel2 Suc_le_eq)
    then show ?thesis using Suc view_between [OF _ assms(4,5)] m by simp
  qed
qed

end

end
