(* ===== verification/HookRing.thy ===== *)
theory HookRing
  imports Bytes Ring Seqlock
begin

text \<open>
  \<open>components/ntp_server/hook_ring.h\<close> with the \<open>HookInfo\<close> of \<open>ntp_server.h\<close>: the ring through
  which the driver's task hands the receive time of every NTP request to the serving task. A
  slot is written by a list of atomic stores (the key byte by byte, the 64-bit time in two
  halves, one store per remaining field); the lookup judges what it read of every slot, so the
  same definition covers the quiescent ring and every interleaving with the writer.
\<close>

subsection \<open>Data\<close>

record hook_info =
  hi_t :: int
  hi_int_lead_us :: int
  hi_rx_gap_us :: int
  hi_edge_usable :: bool
  hi_lead_us :: int
  hi_capture_armed :: bool
  hi_rx_rsr :: int
  hi_frame_len :: int
  hi_t2_from_edge :: bool
  hi_t2_from_frame_start :: bool
  hi_t2_chip_latency :: bool

definition hook_info_init :: hook_info where
  "hook_info_init = \<lparr>hi_t = 0, hi_int_lead_us = - 1, hi_rx_gap_us = - 1, hi_edge_usable = False,
     hi_lead_us = 0, hi_capture_armed = False, hi_rx_rsr = - 1, hi_frame_len = - 1,
     hi_t2_from_edge = False, hi_t2_from_frame_start = False, hi_t2_chip_latency = False\<rparr>"

record hook_entry =
  he_seq :: u32
  he_key :: "u8 list"
  he_info :: hook_info

record hook_ring =
  hr_ring :: "hook_entry list"
  hr_next :: nat

definition HOOK_SIZE :: nat where "HOOK_SIZE = 8"
definition KEY_SIZE :: nat where "KEY_SIZE = 14"
definition MAX_AGE_US :: int where "MAX_AGE_US = 1000000"

definition hook_entry_init :: hook_entry where
  "hook_entry_init = \<lparr>he_seq = 0, he_key = replicate KEY_SIZE 0, he_info = hook_info_init\<rparr>"

definition hook_ring_init :: hook_ring where
  "hook_ring_init = \<lparr>hr_ring = replicate HOOK_SIZE hook_entry_init, hr_next = 0\<rparr>"

text \<open>\<open>memcpy\<close> of an integer copies its bytes in memory order, little-endian on this chip.\<close>

definition mem32 :: "u32 \<Rightarrow> u8 list" where
  "mem32 w = [ucast w, ucast (drop_bit 8 w), ucast (drop_bit 16 w), ucast (drop_bit 24 w)]"

definition mem16 :: "u16 \<Rightarrow> u8 list" where
  "mem16 w = [ucast w, ucast (drop_bit 8 w)]"

definition build_key :: "u8 list \<Rightarrow> u32 \<Rightarrow> u16 \<Rightarrow> u8 list" where
  "build_key tx src_ip src_port = take 8 tx @ mem32 src_ip @ mem16 src_port"

lemma length_build_key: "length tx = 8 \<Longrightarrow> length (build_key tx ip port) = KEY_SIZE"
  by (simp add: build_key_def mem32_def mem16_def KEY_SIZE_def)

lemma mem32_be32: "mem32 w = rev (be32 w)"
  by (simp add: mem32_def be32_def)

lemma mem16_inject: "mem16 v = mem16 w \<longleftrightarrow> v = w"
proof
  assume "mem16 v = mem16 w"
  then have "be16 (hi8 v) (lo8 v) = be16 (hi8 w) (lo8 w)"
    by (simp add: mem16_def hi8_def lo8_def)
  then show "v = w" by simp
qed simp

lemma build_key_inject:
  assumes "length tx = 8" "length tx' = 8"
  shows "build_key tx ip port = build_key tx' ip' port' \<longleftrightarrow> tx = tx' \<and> ip = ip' \<and> port = port'"
  using assms by (auto simp: build_key_def mem32_be32 mem16_inject append_eq_append_conv)

subsection \<open>Writing a slot\<close>

definition store_t_low :: "int \<Rightarrow> hook_entry \<Rightarrow> hook_entry" where
  "store_t_low t e = e\<lparr>he_info := (he_info e)\<lparr>hi_t :=
     4294967296 * (hi_t (he_info e) div 4294967296) + t mod 4294967296\<rparr>\<rparr>"

definition store_t_high :: "int \<Rightarrow> hook_entry \<Rightarrow> hook_entry" where
  "store_t_high t e = e\<lparr>he_info := (he_info e)\<lparr>hi_t :=
     4294967296 * (t div 4294967296) + hi_t (he_info e) mod 4294967296\<rparr>\<rparr>"

definition info_stores :: "hook_info \<Rightarrow> (hook_entry \<Rightarrow> hook_entry) list" where
  "info_stores i =
    [store_t_low (hi_t i), store_t_high (hi_t i),
     \<lambda>e. e\<lparr>he_info := (he_info e)\<lparr>hi_int_lead_us := hi_int_lead_us i\<rparr>\<rparr>,
     \<lambda>e. e\<lparr>he_info := (he_info e)\<lparr>hi_rx_gap_us := hi_rx_gap_us i\<rparr>\<rparr>,
     \<lambda>e. e\<lparr>he_info := (he_info e)\<lparr>hi_edge_usable := hi_edge_usable i\<rparr>\<rparr>,
     \<lambda>e. e\<lparr>he_info := (he_info e)\<lparr>hi_lead_us := hi_lead_us i\<rparr>\<rparr>,
     \<lambda>e. e\<lparr>he_info := (he_info e)\<lparr>hi_capture_armed := hi_capture_armed i\<rparr>\<rparr>,
     \<lambda>e. e\<lparr>he_info := (he_info e)\<lparr>hi_rx_rsr := hi_rx_rsr i\<rparr>\<rparr>,
     \<lambda>e. e\<lparr>he_info := (he_info e)\<lparr>hi_frame_len := hi_frame_len i\<rparr>\<rparr>,
     \<lambda>e. e\<lparr>he_info := (he_info e)\<lparr>hi_t2_from_edge := hi_t2_from_edge i\<rparr>\<rparr>,
     \<lambda>e. e\<lparr>he_info := (he_info e)\<lparr>hi_t2_from_frame_start := hi_t2_from_frame_start i\<rparr>\<rparr>,
     \<lambda>e. e\<lparr>he_info := (he_info e)\<lparr>hi_t2_chip_latency := hi_t2_chip_latency i\<rparr>\<rparr>]"

definition key_stores :: "u8 list \<Rightarrow> (hook_entry \<Rightarrow> hook_entry) list" where
  "key_stores k = map (\<lambda>j e. e\<lparr>he_key := (he_key e)[j := k ! j]\<rparr>) [0..<KEY_SIZE]"

text \<open>The stores of one \<open>record\<close>, with the sequence number it loaded first.\<close>

definition slot_stores :: "u32 \<Rightarrow> u8 list \<times> hook_info \<Rightarrow> (hook_entry \<Rightarrow> hook_entry) list" where
  "slot_stores seq p = (\<lambda>e. e\<lparr>he_seq := seq + 1\<rparr>) # key_stores (fst p) @ info_stores (snd p) @
     [\<lambda>e. e\<lparr>he_seq := seq + 2\<rparr>]"

definition hr_write :: "u8 list \<times> hook_info \<Rightarrow> hook_ring \<Rightarrow> hook_ring" where
  "hr_write p r = (let slot = hr_ring r ! hr_next r in
     r\<lparr>hr_ring := (hr_ring r)[hr_next r := apply_all (slot_stores (he_seq slot) p) slot],
       hr_next := (hr_next r + 1) mod HOOK_SIZE\<rparr>)"

definition hr_record :: "u8 list \<Rightarrow> u32 \<Rightarrow> u16 \<Rightarrow> hook_info \<Rightarrow> hook_ring \<Rightarrow> hook_ring" where
  "hr_record tx src_ip src_port info r = hr_write (build_key tx src_ip src_port, info) r"

subsection \<open>Reading\<close>

text \<open>What a lookup read of one slot: the sequence number, the copies, the number again.\<close>

record slot_read =
  sr_s1 :: u32
  sr_key :: "u8 list"
  sr_info :: hook_info
  sr_s2 :: u32

definition lookup_step :: "u8 list \<Rightarrow> int \<Rightarrow> hook_info option \<Rightarrow> slot_read \<Rightarrow> hook_info option" where
  "lookup_step key now_us best s =
     (if sr_s1 s AND 1 \<noteq> 0 then best
      else if sr_s1 s \<noteq> sr_s2 s then best
      else if sr_key s \<noteq> key then best
      else if now_us - hi_t (sr_info s) > MAX_AGE_US then best
      else case best of
          None \<Rightarrow> Some (sr_info s)
        | Some b \<Rightarrow> if hi_t (sr_info s) > hi_t b then Some (sr_info s) else best)"

definition lookup_reads :: "u8 list \<Rightarrow> int \<Rightarrow> slot_read list \<Rightarrow> hook_info option" where
  "lookup_reads key now_us rs = foldl (lookup_step key now_us) None rs"

text \<open>A slot read while nothing writes it.\<close>

definition quiet_read :: "hook_entry \<Rightarrow> slot_read" where
  "quiet_read e = \<lparr>sr_s1 = he_seq e, sr_key = he_key e, sr_info = he_info e, sr_s2 = he_seq e\<rparr>"

definition hr_lookup :: "u8 list \<Rightarrow> u32 \<Rightarrow> u16 \<Rightarrow> int \<Rightarrow> hook_ring \<Rightarrow> hook_info option" where
  "hr_lookup tx src_ip src_port now_us r =
     lookup_reads (build_key tx src_ip src_port) now_us (map quiet_read (hr_ring r))"

text \<open>A read the lookup may answer with, and the answer as the newest of them.\<close>

definition read_matches :: "u8 list \<Rightarrow> int \<Rightarrow> slot_read \<Rightarrow> bool" where
  "read_matches key now_us s \<longleftrightarrow> even (sr_s1 s) \<and> sr_s1 s = sr_s2 s \<and> sr_key s = key \<and>
     now_us - hi_t (sr_info s) \<le> MAX_AGE_US"

lemma and_1_odd: "(w :: u32) AND 1 \<noteq> 0 \<longleftrightarrow> odd w"
  by (simp add: and_one_eq even_iff_mod_2_eq_zero)

lemma lookup_step_match:
  "lookup_step key now best s =
    (if \<not> read_matches key now s then best
     else case best of None \<Rightarrow> Some (sr_info s)
        | Some b \<Rightarrow> if hi_t (sr_info s) > hi_t b then Some (sr_info s) else best)"
  by (auto simp: lookup_step_def read_matches_def and_1_odd not_less split: option.splits)

definition newest :: "hook_info set \<Rightarrow> hook_info option \<Rightarrow> bool" where
  "newest I r = (case r of None \<Rightarrow> I = {} | Some i \<Rightarrow> i \<in> I \<and> (\<forall>j \<in> I. hi_t j \<le> hi_t i))"

lemma lookup_reads_newest:
  "newest (sr_info ` {s \<in> set rs. read_matches key now s}) (lookup_reads key now rs)"
proof (induction rs rule: rev_induct)
  case Nil
  then show ?case by (simp add: newest_def lookup_reads_def)
next
  case (snoc s rs)
  have step: "lookup_reads key now (rs @ [s]) = lookup_step key now (lookup_reads key now rs) s"
    by (simp add: lookup_reads_def)
  show ?case
  proof (cases "read_matches key now s")
    case False
    then have "{x \<in> set (rs @ [s]). read_matches key now x} = {x \<in> set rs. read_matches key now x}"
      by auto
    with False snoc show ?thesis by (simp only: step lookup_step_match if_True simp_thms)
  next
    case True
    then have eq: "sr_info ` {x \<in> set (rs @ [s]). read_matches key now x} =
        insert (sr_info s) (sr_info ` {x \<in> set rs. read_matches key now x})" by auto
    show ?thesis
      using snoc True unfolding step eq lookup_step_match
      by (cases "lookup_reads key now rs") (force simp: newest_def)+
  qed
qed

subsection \<open>A slot is a sequence lock\<close>

lemma key_stores_upto:
  "n \<le> length (he_key e) \<Longrightarrow> n \<le> length k \<Longrightarrow>
   apply_all (map (\<lambda>j e. e\<lparr>he_key := (he_key e)[j := k ! j]\<rparr>) [0..<n]) e =
     e\<lparr>he_key := take n k @ drop n (he_key e)\<rparr>"
proof (induction n)
  case (Suc n)
  then have "(take n k @ drop n (he_key e))[n := k ! n] = take (Suc n) k @ drop (Suc n) (he_key e)"
    by (simp add: list_update_append take_Suc_conv_app_nth Cons_nth_drop_Suc [symmetric])
  with Suc show ?case by simp
qed simp

lemma key_stores_all:
  "length (he_key e) = KEY_SIZE \<Longrightarrow> length k = KEY_SIZE \<Longrightarrow>
   apply_all (key_stores k) e = e\<lparr>he_key := k\<rparr>"
  by (simp add: key_stores_def key_stores_upto)

lemma info_stores_all: "apply_all (info_stores i) e = e\<lparr>he_info := i\<rparr>"
  by (simp add: info_stores_def store_t_low_def store_t_high_def)

lemma slot_stores_all:
  "length (he_key e) = KEY_SIZE \<Longrightarrow> length (fst p) = KEY_SIZE \<Longrightarrow>
   apply_all (slot_stores q p) e = \<lparr>he_seq = q + 2, he_key = fst p, he_info = snd p\<rparr>"
  by (simp add: slot_stores_def key_stores_all info_stores_all)

definition SLOT_CELLS :: nat where "SLOT_CELLS = 26"

lemma slot_cell_keeps_seq:
  "f \<in> set (key_stores k @ info_stores i) \<Longrightarrow> he_seq (f e) = he_seq e"
  by (auto simp: key_stores_def info_stores_def store_t_low_def store_t_high_def)

lemma length_cells: "length (key_stores k @ info_stores i) = SLOT_CELLS"
  by (simp add: key_stores_def info_stores_def KEY_SIZE_def SLOT_CELLS_def)

lemma slot_stores_nth:
  "0 < j \<Longrightarrow> j < Suc SLOT_CELLS \<Longrightarrow>
   slot_stores q p ! j = (key_stores (fst p) @ info_stores (snd p)) ! (j - 1)"
  "slot_stores q p ! Suc SLOT_CELLS = (\<lambda>e. e\<lparr>he_seq := q + 2\<rparr>)"
proof -
  note l = length_cells [of "fst p" "snd p"]
  show "slot_stores q p ! j = (key_stores (fst p) @ info_stores (snd p)) ! (j - 1)"
    if "0 < j" "j < Suc SLOT_CELLS"
    using that l by (cases j) (simp_all add: slot_stores_def nth_append del: append_assoc flip: append_assoc)
  show "slot_stores q p ! Suc SLOT_CELLS = (\<lambda>e. e\<lparr>he_seq := q + 2\<rparr>)"
    using l unfolding slot_stores_def by (simp add: nth_append del: append_assoc flip: append_assoc)
qed

interpretation hook_slot: seqlock he_seq slot_stores "\<lambda>e. (he_key e, he_info e)" SLOT_CELLS
  "\<lambda>e. length (he_key e) = KEY_SIZE" "\<lambda>p. length (fst p) = KEY_SIZE"
proof
  fix q :: u32 and p :: "u8 list \<times> hook_info" and s :: hook_entry and j :: nat
  show "length (slot_stores q p) = Suc (Suc SLOT_CELLS)"
    using length_cells [of "fst p" "snd p"] by (simp add: slot_stores_def)
  show "he_seq ((slot_stores (he_seq s) p ! 0) s) = he_seq s + 1"
    by (simp add: slot_stores_def)
  show "he_seq ((slot_stores q p ! j) s) = he_seq s" if "0 < j" "j < Suc SLOT_CELLS"
    using that length_cells [of "fst p" "snd p"]
    by (simp only: slot_stores_nth)
      (intro slot_cell_keeps_seq [of _ "fst p" "snd p"] nth_mem, simp)
  show "he_seq ((slot_stores q p ! Suc SLOT_CELLS) s) = q + 2"
    by (simp add: slot_stores_nth)
qed (simp_all add: slot_stores_all)

definition slot_after :: "hook_entry \<Rightarrow> (u8 list \<times> hook_info) list \<Rightarrow> nat \<Rightarrow> hook_entry" where
  "slot_after e ps n = hook_slot.at_step e ps n"

text \<open>
  A slot read against a writer that stores the records \<open>ps\<close> one after the other: the numbers loaded
  after \<open>st_before\<close> and \<open>st_after\<close> of its stores, cell number k of key and info copied after
  \<open>st_cells ! k\<close> of them.
\<close>

record slot_times =
  st_before :: nat
  st_cells :: "nat list"
  st_after :: nat

definition copy_cell :: "nat \<Rightarrow> hook_entry \<Rightarrow> hook_entry \<Rightarrow> hook_entry" where
  "copy_cell k slot buf = ((key_stores (he_key slot) @ info_stores (he_info slot)) ! k) buf"

definition raced_read :: "hook_entry \<Rightarrow> (u8 list \<times> hook_info) list \<Rightarrow> slot_times \<Rightarrow> slot_read" where
  "raced_read e ps a =
     (let buf = fold (\<lambda>(k, m). copy_cell k (slot_after e ps m)) (zip [0..<SLOT_CELLS] (st_cells a)) hook_entry_init in
      \<lparr>sr_s1 = he_seq (slot_after e ps (st_before a)), sr_key = he_key buf, sr_info = he_info buf,
       sr_s2 = he_seq (slot_after e ps (st_after a))\<rparr>)"

definition race_in_order :: "hook_entry \<times> (u8 list \<times> hook_info) list \<times> slot_times \<Rightarrow> bool" where
  "race_in_order race = (case race of (e, ps, a) \<Rightarrow>
     even (he_seq e) \<and> length (he_key e) = KEY_SIZE \<and> (\<forall>p \<in> set ps. length (fst p) = KEY_SIZE) \<and>
     st_before a \<le> st_after a \<and> st_after a \<le> length ps * 28 \<and> length (st_cells a) = SLOT_CELLS \<and>
     (\<forall>m \<in> set (st_cells a). st_before a \<le> m \<and> m \<le> st_after a) \<and>
     st_after a div 28 - st_before a div 28 < 2147483648)"

text \<open>The last record completed before the read began, or what the slot held at first.\<close>

definition record_before :: "hook_entry \<times> (u8 list \<times> hook_info) list \<times> slot_times \<Rightarrow> u8 list \<times> hook_info" where
  "record_before race = (case race of (e, ps, a) \<Rightarrow>
     (case st_before a div 28 of 0 \<Rightarrow> (he_key e, he_info e) | Suc k \<Rightarrow> ps ! k))"

lemma copy_same_source:
  "\<forall>m \<in> set ms. (he_key (src m), he_info (src m)) = p \<Longrightarrow> length ms = n \<Longrightarrow> n \<le> SLOT_CELLS \<Longrightarrow>
   fold (\<lambda>(k, m). copy_cell k (src m)) (zip [0..<n] ms) buf =
     apply_all (take n (key_stores (fst p) @ info_stores (snd p))) buf"
proof (induction ms arbitrary: n rule: rev_induct)
  case (snoc m ms)
  then obtain k where k: "n = Suc k" "length ms = k" by auto
  have "k < length (key_stores (fst p) @ info_stores (snd p))" using k snoc.prems(3) length_cells by auto
  with snoc k show ?case
    by (auto simp: apply_all_take_Suc copy_cell_def simp del: take_append)
qed simp

lemma raced_read_accepted:
  assumes "race_in_order (e, ps, a)" and acc: "even (sr_s1 (raced_read e ps a))"
    "sr_s1 (raced_read e ps a) = sr_s2 (raced_read e ps a)"
  shows "(sr_key (raced_read e ps a), sr_info (raced_read e ps a)) = record_before (e, ps, a)"
proof -
  note o = assms(1) [unfolded race_in_order_def prod.case]
  let ?p = "record_before (e, ps, a)"
  have src: "\<forall>m \<in> set (st_cells a). (he_key (slot_after e ps m), he_info (slot_after e ps m)) = ?p"
    using o acc unfolding slot_after_def record_before_def prod.case raced_read_def Let_def slot_read.simps
    by (intro ballI hook_slot.accepted_read_is_a_write [of "st_before a" "st_after a" ps e, simplified SLOT_CELLS_def, simplified])
      (simp_all add: SLOT_CELLS_def)
  have len: "length (fst ?p) = KEY_SIZE"
  proof (cases "st_before a div 28")
    case (Suc k)
    have "st_before a \<le> length ps * 28" using o by linarith
    then have "k < length ps" using Suc div_le_mono [of "st_before a" "length ps * 28" 28] by simp
    then show ?thesis using Suc o by (simp add: record_before_def)
  qed (use o in \<open>simp add: record_before_def\<close>)
  have init: "length (he_key hook_entry_init) = KEY_SIZE" by (simp add: hook_entry_init_def)
  show ?thesis
    using o copy_same_source [OF src, of SLOT_CELLS hook_entry_init] length_cells [of "fst ?p" "snd ?p"]
    by (simp add: raced_read_def Let_def apply_all_append key_stores_all [OF init len] info_stores_all)
qed

text \<open>
  C15: A lookup never answers with half of a record. Let the driver's task write any records to the
  slots, one atomic store after another, while the serving task goes through them, loading a slot's
  number, copying key and info cell by cell, in any order, and loading the number again. An answer is
  the info of one single record with the key that was asked for, no older than a second: the last
  one that was complete in its slot when the lookup came to it. Fewer than \<open>2^31\<close> records may
  pass through a slot while it is copied.
\<close>

theorem hook_read_not_torn:
  assumes "\<forall>race \<in> set races. race_in_order race"
    and "lookup_reads key now_us (map (\<lambda>(e, ps, a). raced_read e ps a) races) = Some i"
  shows "now_us - hi_t i \<le> 1000000 \<and> (\<exists>race \<in> set races. record_before race = (key, i))"
proof -
  let ?rs = "map (\<lambda>(e, ps, a). raced_read e ps a) races"
  have "i \<in> sr_info ` {s \<in> set ?rs. read_matches key now_us s}"
    using lookup_reads_newest [of ?rs key now_us] assms(2) by (simp only: newest_def option.case)
  then obtain s where s: "s \<in> set ?rs" "read_matches key now_us s" "i = sr_info s" by blast
  from s(1) obtain e ps a where r: "(e, ps, a) \<in> set races" "s = raced_read e ps a" by auto
  note m = s(2) [unfolded read_matches_def MAX_AGE_US_def]
  have "record_before (e, ps, a) = (key, i)"
    using raced_read_accepted [of e ps a] assms(1) r m s(3) by auto
  with r(1) m s(3) show ?thesis by blast
qed

text \<open>The lookup meets the writer half way in one slot and finds the other one at rest.\<close>

theorem hook_read_not_torn_witness:
  "let p = (replicate 14 1, hook_info_init\<lparr>hi_t := 7\<rparr>);
       races = [(hook_entry_init, [p], \<lparr>st_before = 9, st_cells = replicate 26 9, st_after = 9\<rparr>),
         (hook_entry_init, [p], \<lparr>st_before = 28, st_cells = replicate 26 28, st_after = 28\<rparr>)];
       r = lookup_reads (replicate 14 1) 20 (map (\<lambda>(e, ps, a). raced_read e ps a) races) in
   r = Some (hook_info_init\<lparr>hi_t := 7\<rparr>) \<and> (\<exists>race \<in> set races. record_before race = (replicate 14 1, the r))"
proof -
  define p where "p = (replicate 14 (1 :: u8), hook_info_init\<lparr>hi_t := 7\<rparr>)"
  define races where "races = [(hook_entry_init, [p], \<lparr>st_before = 9, st_cells = replicate 26 9, st_after = 9\<rparr>),
         (hook_entry_init, [p], \<lparr>st_before = 28, st_cells = replicate 26 28, st_after = 28\<rparr>)]"
  have o: "\<forall>race \<in> set races. race_in_order race"
    by (simp add: races_def race_in_order_def p_def hook_entry_init_def KEY_SIZE_def SLOT_CELLS_def)
  have half: "sr_s1 (raced_read hook_entry_init [p] \<lparr>st_before = 9, st_cells = replicate 26 9, st_after = 9\<rparr>) = 1"
    unfolding raced_read_def slot_after_def slot_read.simps Let_def slot_times.simps
    by (subst hook_slot.seq_at_step) (simp_all add: SLOT_CELLS_def hook_entry_init_def)
  let ?whole = "raced_read hook_entry_init [p] \<lparr>st_before = 28, st_cells = replicate 26 28, st_after = 28\<rparr>"
  have seq: "he_seq (slot_after hook_entry_init [p] 28) = 2"
    unfolding slot_after_def by (subst hook_slot.seq_at_step) (simp_all add: SLOT_CELLS_def hook_entry_init_def)
  then have s: "sr_s1 ?whole = 2" "sr_s2 ?whole = 2" by (simp_all add: raced_read_def Let_def)
  with raced_read_accepted [of hook_entry_init "[p]" "\<lparr>st_before = 28, st_cells = replicate 26 28, st_after = 28\<rparr>"] o
  have "(sr_key ?whole, sr_info ?whole) = p" by (simp add: races_def record_before_def)
  then have "sr_key ?whole = fst p" "sr_info ?whole = snd p" by (metis fst_conv, metis snd_conv)
  with half s have "lookup_reads (replicate 14 1) 20 (map (\<lambda>(e, ps, a). raced_read e ps a) races) = Some (snd p)"
    by (simp add: races_def lookup_reads_def lookup_step_match read_matches_def MAX_AGE_US_def p_def)
  with hook_read_not_torn [OF o this] show ?thesis by (simp add: p_def races_def Let_def)
qed

subsection \<open>The ring holds the last eight records\<close>

definition hr_ok :: "hook_ring \<Rightarrow> bool" where
  "hr_ok r \<longleftrightarrow> length (hr_ring r) = HOOK_SIZE \<and> hr_next r < HOOK_SIZE \<and>
     (\<forall>e \<in> set (hr_ring r). length (he_key e) = KEY_SIZE \<and> even (he_seq e))"

definition hr_slots :: "hook_ring \<Rightarrow> (u8 list \<times> hook_info) list" where
  "hr_slots r = map (\<lambda>e. (he_key e, he_info e)) (hr_ring r)"

lemma hr_write_slot:
  assumes "hr_ok r" "length (fst p) = KEY_SIZE"
  shows "hr_write p r = r\<lparr>hr_ring := (hr_ring r)[hr_next r :=
      \<lparr>he_seq = he_seq (hr_ring r ! hr_next r) + 2, he_key = fst p, he_info = snd p\<rparr>],
    hr_next := Suc (hr_next r) mod HOOK_SIZE\<rparr>"
proof -
  have "length (he_key (hr_ring r ! hr_next r)) = KEY_SIZE"
    using assms(1) by (simp add: hr_ok_def)
  with assms(2) show ?thesis by (simp add: hr_write_def Let_def slot_stores_all)
qed

lemma hr_write_ok: "hr_ok r \<Longrightarrow> length (fst p) = KEY_SIZE \<Longrightarrow> hr_ok (hr_write p r)"
  unfolding hr_write_slot
  by (auto simp: hr_ok_def HOOK_SIZE_def dest!: set_update_subset_insert [THEN subsetD])

interpretation hook: overwriting_ring hr_write hr_slots hr_next hr_ok "\<lambda>p. length (fst p) = KEY_SIZE"
  HOOK_SIZE
proof
  fix r :: hook_ring and p :: "u8 list \<times> hook_info"
  assume r: "hr_ok r"
  then show "length (hr_slots r) = HOOK_SIZE" "hr_next r < HOOK_SIZE"
    by (simp_all add: hr_ok_def hr_slots_def)
  assume p: "length (fst p) = KEY_SIZE"
  show "hr_ok (hr_write p r)" using r p by (rule hr_write_ok)
  show "hr_slots (hr_write p r) = (hr_slots r)[hr_next r := p]"
    "hr_next (hr_write p r) = Suc (hr_next r) mod HOOK_SIZE"
    using r p by (simp_all add: hr_write_slot hr_slots_def map_update)
qed

lemma hr_ok_init: "hr_ok hook_ring_init"
  by (simp add: hr_ok_def hook_ring_init_def hook_entry_init_def HOOK_SIZE_def)

text \<open>A request as the driver's hook records it.\<close>

record hook_request =
  rq_tx :: "u8 list"
  rq_ip :: u32
  rq_port :: u16
  rq_info :: hook_info

definition rq_key :: "hook_request \<Rightarrow> u8 list" where
  "rq_key q = build_key (rq_tx q) (rq_ip q) (rq_port q)"

definition record_request :: "hook_request \<Rightarrow> hook_ring \<Rightarrow> hook_ring" where
  "record_request q = hr_record (rq_tx q) (rq_ip q) (rq_port q) (rq_info q)"

lemma record_request_write: "record_request q = hr_write (rq_key q, rq_info q)"
  by (rule ext) (simp add: record_request_def hr_record_def rq_key_def)

lemma fold_record_request:
  "fold record_request qs r = fold hr_write (map (\<lambda>q. (rq_key q, rq_info q)) qs) r"
  by (induction qs arbitrary: r) (simp_all add: record_request_write)

text \<open>The requests a lookup can answer from: the last eight.\<close>

definition last_requests :: "hook_request list \<Rightarrow> hook_request set" where
  "last_requests qs = set (drop (length qs - HOOK_SIZE) qs)"

lemma hook_contents_fold:
  assumes "\<forall>q \<in> set qs. length (rq_tx q) = 8"
  shows "set (hr_slots (fold record_request qs hook_ring_init)) =
    (\<lambda>q. (rq_key q, rq_info q)) ` last_requests qs \<union>
    (if length qs < HOOK_SIZE then {(replicate KEY_SIZE 0, hook_info_init)} else {})"
proof -
  let ?ps = "map (\<lambda>q. (rq_key q, rq_info q)) qs"
  have "hook.contents hook_ring_init = replicate HOOK_SIZE (replicate KEY_SIZE 0, hook_info_init)"
    by (simp add: hook.contents_def oldest_first_def hook_ring_init_def hr_slots_def hook_entry_init_def)
  moreover have "\<forall>p \<in> set ?ps. length (fst p) = KEY_SIZE"
    using assms by (simp add: rq_key_def length_build_key)
  ultimately have "set (hr_slots (fold record_request qs hook_ring_init)) =
      set (drop (length ?ps) (replicate HOOK_SIZE (replicate KEY_SIZE 0, hook_info_init) @ ?ps))"
    using hook.set_slots_fold [OF hr_ok_init, of ?ps] by (simp only: fold_record_request)
  then show ?thesis
    by (auto simp: last_requests_def drop_map)
qed

lemma fold_record_ok:
  "\<forall>q \<in> set qs. length (rq_tx q) = 8 \<Longrightarrow> hr_ok (fold record_request qs hook_ring_init)"
  unfolding fold_record_request
  by (rule hook.fold_ok [OF hr_ok_init]) (simp add: rq_key_def length_build_key)

lemma quiet_matches:
  assumes "hr_ok r"
  shows "sr_info ` {s \<in> set (map quiet_read (hr_ring r)). read_matches key now s} =
    {i. (key, i) \<in> set (hr_slots r) \<and> now - hi_t i \<le> MAX_AGE_US}"
  using assms
  by (force simp: hr_ok_def hr_slots_def read_matches_def quiet_read_def image_iff)

text \<open>A request recorded under a key no slot holds is the answer to its own lookup.\<close>

lemma hr_lookup_own:
  assumes "hr_ok r" "length tx = 8" "build_key tx ip port \<notin> fst ` set (hr_slots r)"
    "now - hi_t info \<le> MAX_AGE_US"
  shows "hr_lookup tx ip port now (hr_record tx ip port info r) = Some info"
proof -
  let ?k = "build_key tx ip port"
  let ?r = "hr_record tx ip port info r"
  have l: "length (fst (?k, info)) = KEY_SIZE" using assms(2) by (simp add: length_build_key)
  have ok: "hr_ok ?r" unfolding hr_record_def using assms(1) l by (rule hr_write_ok)
  have next_in: "hr_next r < length (hr_slots r)" using assms(1) by (simp add: hr_ok_def hr_slots_def)
  have slots: "hr_slots ?r = (hr_slots r)[hr_next r := (?k, info)]"
    unfolding hr_record_def using assms(1) l by (rule hook.push_slots)
  have fresh: "(?k, i) \<notin> set (hr_slots r)" for i using assms(3) by (metis fst_conv image_eqI)
  have "(?k, info) \<in> set (hr_slots ?r)" unfolding slots using next_in by (rule set_update_memI)
  moreover have "set (hr_slots ?r) \<subseteq> insert (?k, info) (set (hr_slots r))"
    unfolding slots by (rule set_update_subset_insert)
  ultimately have "(?k, i) \<in> set (hr_slots ?r) \<longleftrightarrow> i = info" for i using fresh by blast
  then have "{i. (?k, i) \<in> set (hr_slots ?r) \<and> now - hi_t i \<le> MAX_AGE_US} = {info}"
    using assms(4) by auto
  then have "newest {info} (hr_lookup tx ip port now ?r)"
    using lookup_reads_newest quiet_matches [OF ok] unfolding hr_lookup_def by metis
  then show ?thesis by (simp add: newest_def split: option.splits)
qed

text \<open>
  C28: The lookup answers with the right request. After any sequence of recorded requests, a
  lookup for a client's transmit timestamp, address and port answers exactly when one of the
  last eight requests carries all three and is at most one second old, and then with the
  newest of those: never another client's record, never an overwritten or stale one. The key of
  all zeros is excluded, which a slot nobody wrote yet holds.
\<close>

theorem lookup_finds_newest_request:
  assumes "\<forall>q \<in> set qs. length (rq_tx q) = 8" "length tx = 8"
    and "build_key tx ip port \<noteq> replicate KEY_SIZE 0"
  shows "newest {rq_info q | q. q \<in> last_requests qs \<and> rq_tx q = tx \<and> rq_ip q = ip \<and>
      rq_port q = port \<and> now - hi_t (rq_info q) \<le> 1000000}
    (hr_lookup tx ip port now (fold record_request qs hook_ring_init))"
proof -
  let ?r = "fold record_request qs hook_ring_init"
  have key: "rq_key q = build_key tx ip port \<longleftrightarrow> rq_tx q = tx \<and> rq_ip q = ip \<and> rq_port q = port"
    if "q \<in> last_requests qs" for q
    using that assms(1,2) build_key_inject [of "rq_tx q" tx]
    by (auto simp: rq_key_def last_requests_def dest: in_set_dropD)
  have slots: "(build_key tx ip port, i) \<in> set (hr_slots ?r) \<longleftrightarrow>
      (\<exists>q \<in> last_requests qs. rq_key q = build_key tx ip port \<and> rq_info q = i)" for i
    unfolding hook_contents_fold [OF assms(1)] using assms(3)
    by (simp add: image_iff) (metis (no_types, lifting))
  have "{i. (build_key tx ip port, i) \<in> set (hr_slots ?r) \<and> now - hi_t i \<le> MAX_AGE_US} =
      {rq_info q | q. q \<in> last_requests qs \<and> rq_tx q = tx \<and> rq_ip q = ip \<and>
        rq_port q = port \<and> now - hi_t (rq_info q) \<le> 1000000}"
    unfolding slots MAX_AGE_US_def using key by blast
  moreover have "newest {i. (build_key tx ip port, i) \<in> set (hr_slots ?r) \<and>
      now - hi_t i \<le> MAX_AGE_US} (hr_lookup tx ip port now ?r)"
    using lookup_reads_newest quiet_matches [OF fold_record_ok [OF assms(1)]]
    unfolding hr_lookup_def by metis
  ultimately show ?thesis by simp
qed

theorem lookup_finds_newest_request_witness:
  "newest {rq_info q | q. q \<in> last_requests [\<lparr>rq_tx = replicate 8 1, rq_ip = 5, rq_port = 6,
         rq_info = hook_info_init\<lparr>hi_t := 10\<rparr>\<rparr>] \<and>
      rq_tx q = replicate 8 1 \<and> rq_ip q = 5 \<and> rq_port q = 6 \<and> 20 - hi_t (rq_info q) \<le> 1000000}
    (hr_lookup (replicate 8 1) 5 6 20 (fold record_request
      [\<lparr>rq_tx = replicate 8 1, rq_ip = 5, rq_port = 6, rq_info = hook_info_init\<lparr>hi_t := 10\<rparr>\<rparr>] hook_ring_init))"
  by (rule lookup_finds_newest_request)
    (simp_all add: build_key_def mem32_def mem16_def KEY_SIZE_def numeral_eq_Suc)

end
