(* ===== verification/PpsAnchor.thy ===== *)
theory PpsAnchor
  imports Seqlock
begin

text \<open>
  The PPS anchor: \<open>PpsAnchor\<close>, \<open>publish_pps_anchor_\<close> and \<open>get_pps_anchor\<close> of
  \<open>components/gps_pps_time/gps_pps_time.h\<close>, and \<open>NTPServer::anchor_epoch_us_\<close> of
  \<open>components/ntp_server/ntp_server.cpp\<close>, which extrapolates UTC from it. The anchor is the only
  data the serving task and the main loop share without a lock.
\<close>

record pps_anchor =
  pa_epoch :: int
  pa_micros :: u32
  pa_drift_ppb :: int

record anchor_cell =
  ac_seq :: u32
  ac_anchor :: pps_anchor

definition no_anchor :: pps_anchor where
  "no_anchor = \<lparr>pa_epoch = 0, pa_micros = 0, pa_drift_ppb = 0\<rparr>"

definition anchor_cell_init :: anchor_cell where
  "anchor_cell_init = \<lparr>ac_seq = 0, ac_anchor = no_anchor\<rparr>"

definition bump_seq :: "anchor_cell \<Rightarrow> anchor_cell" where
  "bump_seq c = c\<lparr>ac_seq := ac_seq c + 1\<rparr>"

text \<open>The 64-bit epoch is stored in two halves.\<close>

definition store_epoch_low :: "int \<Rightarrow> anchor_cell \<Rightarrow> anchor_cell" where
  "store_epoch_low t c = c\<lparr>ac_anchor := (ac_anchor c)\<lparr>pa_epoch :=
     4294967296 * (pa_epoch (ac_anchor c) div 4294967296) + t mod 4294967296\<rparr>\<rparr>"

definition store_epoch_high :: "int \<Rightarrow> anchor_cell \<Rightarrow> anchor_cell" where
  "store_epoch_high t c = c\<lparr>ac_anchor := (ac_anchor c)\<lparr>pa_epoch :=
     4294967296 * (t div 4294967296) + pa_epoch (ac_anchor c) mod 4294967296\<rparr>\<rparr>"

definition anchor_stores :: "u32 \<Rightarrow> pps_anchor \<Rightarrow> (anchor_cell \<Rightarrow> anchor_cell) list" where
  "anchor_stores _ a =
    [bump_seq, store_epoch_low (pa_epoch a), store_epoch_high (pa_epoch a),
     \<lambda>c. c\<lparr>ac_anchor := (ac_anchor c)\<lparr>pa_micros := pa_micros a\<rparr>\<rparr>,
     \<lambda>c. c\<lparr>ac_anchor := (ac_anchor c)\<lparr>pa_drift_ppb := pa_drift_ppb a\<rparr>\<rparr>,
     bump_seq]"

definition publish_pps_anchor :: "int \<Rightarrow> u32 \<Rightarrow> int \<Rightarrow> anchor_cell \<Rightarrow> anchor_cell" where
  "publish_pps_anchor epoch micros drift_ppb c =
     apply_all (anchor_stores (ac_seq c)
       \<lparr>pa_epoch = epoch, pa_micros = micros, pa_drift_ppb = drift_ppb\<rparr>) c"

lemma anchor_stores_all: "apply_all (anchor_stores q a) c = \<lparr>ac_seq = ac_seq c + 2, ac_anchor = a\<rparr>"
  by (simp add: anchor_stores_def bump_seq_def store_epoch_low_def store_epoch_high_def)

lemma publish_pps_anchor_eq:
  "publish_pps_anchor epoch micros drift c =
    \<lparr>ac_seq = ac_seq c + 2,
     ac_anchor = \<lparr>pa_epoch = epoch, pa_micros = micros, pa_drift_ppb = drift\<rparr>\<rparr>"
  by (simp add: publish_pps_anchor_def anchor_stores_all)

interpretation anchor: seqlock ac_seq anchor_stores ac_anchor 4 "\<lambda>_. True" "\<lambda>_. True"
proof
  fix q :: u32 and p :: pps_anchor and s :: anchor_cell and j :: nat
  assume "0 < j" "j < Suc 4"
  then have "j \<in> {1, 2, 3, 4}" by auto
  then show "ac_seq ((anchor_stores q p ! j) s) = ac_seq s"
    by (auto simp: anchor_stores_def store_epoch_low_def store_epoch_high_def)
qed (simp_all add: anchor_stores_all, simp_all add: anchor_stores_def bump_seq_def)

subsection \<open>Reading\<close>

text \<open>One attempt: the number before, the copy, the number after.\<close>

record anchor_read =
  ar_before :: u32
  ar_copy :: pps_anchor
  ar_after :: u32

fun anchor_attempts :: "anchor_read list \<Rightarrow> pps_anchor option" where
  "anchor_attempts [] = None"
| "anchor_attempts (r # rs) =
    (if ar_before r AND 1 \<noteq> 0 then anchor_attempts rs
     else if ar_after r = ar_before r then
       (if pa_epoch (ar_copy r) \<noteq> 0 then Some (ar_copy r) else None)
     else anchor_attempts rs)"

definition get_pps_anchor :: "anchor_read list \<Rightarrow> pps_anchor option" where
  "get_pps_anchor reads = anchor_attempts (take 4 reads)"

text \<open>The read while nothing publishes.\<close>

definition get_pps_anchor_now :: "anchor_cell \<Rightarrow> pps_anchor option" where
  "get_pps_anchor_now c = get_pps_anchor
     (replicate 4 \<lparr>ar_before = ac_seq c, ar_copy = ac_anchor c, ar_after = ac_seq c\<rparr>)"

lemma get_pps_anchor_now_eq:
  "even (ac_seq c) \<Longrightarrow> get_pps_anchor_now c =
    (if pa_epoch (ac_anchor c) \<noteq> 0 then Some (ac_anchor c) else None)"
  by (simp add: get_pps_anchor_now_def get_pps_anchor_def numeral_eq_Suc and_one_eq
      even_iff_mod_2_eq_zero)

lemma anchor_attempts_Some:
  "anchor_attempts rs = Some a \<Longrightarrow>
   \<exists>r \<in> set rs. ar_copy r = a \<and> even (ar_before r) \<and> ar_after r = ar_before r \<and> pa_epoch a \<noteq> 0"
  by (induction rs) (auto simp: and_one_eq even_iff_mod_2_eq_zero split: if_splits)

text \<open>
  An attempt against a writer: the numbers read after \<open>t\<close> and \<open>u\<close> stores of its execution, every
  field copied after some number of stores in between.
\<close>

definition attempt_against ::
  "anchor_cell \<Rightarrow> pps_anchor list \<Rightarrow> nat \<times> nat \<times> nat \<times> nat \<times> nat \<times> nat \<Rightarrow> anchor_read" where
  "attempt_against c as ts = (case ts of (t, m0, m1, m2, m3, u) \<Rightarrow>
     let field = (\<lambda>m. ac_anchor (anchor.at_step c as m)) in
     \<lparr>ar_before = ac_seq (anchor.at_step c as t),
      ar_copy = \<lparr>pa_epoch = 4294967296 * (pa_epoch (field m1) div 4294967296) +
          pa_epoch (field m0) mod 4294967296,
        pa_micros = pa_micros (field m2), pa_drift_ppb = pa_drift_ppb (field m3)\<rparr>,
      ar_after = ac_seq (anchor.at_step c as u)\<rparr>)"

definition ordered_attempt :: "nat \<Rightarrow> nat \<times> nat \<times> nat \<times> nat \<times> nat \<times> nat \<Rightarrow> bool" where
  "ordered_attempt n ts \<longleftrightarrow> (case ts of (t, m0, m1, m2, m3, u) \<Rightarrow>
     t \<le> m0 \<and> m0 \<le> m1 \<and> m1 \<le> m2 \<and> m2 \<le> m3 \<and> m3 \<le> u \<and> u \<le> n \<and> u div 6 - t div 6 < 2147483648)"

lemma accepted_attempt:
  assumes "ordered_attempt (length as * 6) ts" "even (ac_seq c)"
    and "even (ar_before (attempt_against c as ts))"
    and "ar_after (attempt_against c as ts) = ar_before (attempt_against c as ts)"
  shows "ar_copy (attempt_against c as ts) \<in> insert (ac_anchor c) (set as)"
proof -
  obtain t m0 m1 m2 m3 u where ts: "ts = (t, m0, m1, m2, m3, u)" by (cases ts)
  from assms(1) have o: "t \<le> m0" "m0 \<le> m1" "m1 \<le> m2" "m2 \<le> m3" "m3 \<le> u" "u \<le> length as * 6"
    "u div 6 - t div 6 < 2147483648" by (auto simp: ordered_attempt_def ts)
  have acc: "even (ac_seq (anchor.at_step c as t))"
    "ac_seq (anchor.at_step c as t) = ac_seq (anchor.at_step c as u)"
    using assms(3,4) by (simp_all add: attempt_against_def ts Let_def)
  have six: "Suc (Suc 4) = (6 :: nat)" by simp
  have "t \<le> u" using o by linarith
  have q: "ac_anchor (anchor.at_step c as m) =
      (case t div 6 of 0 \<Rightarrow> ac_anchor c | Suc k \<Rightarrow> as ! k)" if "t \<le> m" "m \<le> u" for m
    by (rule anchor.accepted_read_is_a_write [unfolded six, OF \<open>t \<le> u\<close> o(6) assms(2) _ _ acc o(7) that])
      simp_all
  define a where "a = (case t div 6 of 0 \<Rightarrow> ac_anchor c | Suc k \<Rightarrow> as ! k)"
  have "ar_copy (attempt_against c as ts) = a"
    using q [of m0] q [of m1] q [of m2] q [of m3] o
    by (simp add: attempt_against_def ts Let_def a_def [symmetric])
  moreover have "a \<in> insert (ac_anchor c) (set as)"
  proof (cases "t div 6")
    case (Suc k)
    have "Suc k * 6 \<le> t" using Suc div_times_less_eq_dividend [of t 6] by simp
    then have "k < length as" using o(1-6) by simp
    with Suc show ?thesis by (simp add: a_def)
  qed (simp add: a_def)
  ultimately show ?thesis by simp
qed

text \<open>
  C14: A served timestamp never mixes two anchors. Whatever anchors the main loop publishes and
  however its stores interleave with the up to four attempts of the serving task, an anchor the
  reader accepts is one that was published as a whole (or was there before) and is not the
  invalidation marker.
\<close>

theorem anchor_read_not_torn:
  assumes "even (ac_seq c)" "\<forall>ts \<in> set tss. ordered_attempt (length as * 6) ts"
    and "get_pps_anchor (map (attempt_against c as) tss) = Some a"
  shows "a \<in> insert (ac_anchor c) (set as) \<and> pa_epoch a \<noteq> 0"
proof -
  from anchor_attempts_Some [OF assms(3) [unfolded get_pps_anchor_def]]
  obtain ts where "ts \<in> set tss" "ar_copy (attempt_against c as ts) = a"
    "even (ar_before (attempt_against c as ts))"
    "ar_after (attempt_against c as ts) = ar_before (attempt_against c as ts)" "pa_epoch a \<noteq> 0"
    by (auto dest!: in_set_takeD)
  with accepted_attempt [of as ts c] assms(1,2) show ?thesis by auto
qed

theorem anchor_read_not_torn_witness:
  "let a = \<lparr>pa_epoch = 1800000000, pa_micros = 5, pa_drift_ppb = 300\<rparr> in
   get_pps_anchor (map (attempt_against anchor_cell_init [a]) [(2, 3, 4, 5, 5, 6), (6, 6, 6, 6, 6, 6)]) =
     Some a \<and> pa_epoch a \<noteq> 0"
proof -
  define a where "a = \<lparr>pa_epoch = 1800000000, pa_micros = 5, pa_drift_ppb = 300\<rparr>"
  have r: "get_pps_anchor (map (attempt_against anchor_cell_init [a])
      [(2, 3, 4, 5, 5, 6), (6, 6, 6, 6, 6, 6)]) = Some a"
    by (simp add: get_pps_anchor_def attempt_against_def anchor.at_step_def anchor_stores_def
        apply_all_def anchor_cell_init_def no_anchor_def store_epoch_low_def store_epoch_high_def
        bump_seq_def a_def numeral_eq_Suc)
  have "a \<in> insert (ac_anchor anchor_cell_init) (set [a]) \<and> pa_epoch a \<noteq> 0"
    by (rule anchor_read_not_torn [OF _ _ r]) (simp_all add: anchor_cell_init_def ordered_attempt_def)
  with r show ?thesis by (simp add: Let_def a_def [symmetric])
qed

end
