(* ===== verification/Ewma.thy ===== *)
theory Ewma
  imports Prelude
begin

text \<open>
  The contract of the firmware's integer smoothing filters. Four places keep a running estimate
  with one integer operation per sample: the send-delay estimator and the patch-delay estimator
  (arithmetic shift by 3), the drift mean and the crystal-rate mean (truncating division).
  Integer rounding gives each of them a dead band around the sample, of its own shape: the shift
  rounds down and the division towards zero. The locale states what the users of a filter rely
  on; every component that has a filter interprets it on its own update.
\<close>

locale ewma =
  fixes learn :: "int \<Rightarrow> int \<Rightarrow> int"
    and accepts :: "int \<Rightarrow> bool"
    and below :: int
    and above :: int
  assumes ignored: "\<not> accepts x \<Longrightarrow> learn e x = e"
    and hull_lower: "accepts x \<Longrightarrow> min e x \<le> learn e x"
    and hull_upper: "accepts x \<Longrightarrow> learn e x \<le> max e x"
    and rises: "accepts x \<Longrightarrow> below \<le> x - e \<Longrightarrow> e < learn e x"
    and falls: "accepts x \<Longrightarrow> above \<le> e - x \<Longrightarrow> learn e x < e"
    and rests: "accepts x \<Longrightarrow> x - e < below \<Longrightarrow> e - x < above \<Longrightarrow> learn e x = e"
    and band_pos: "0 < below" "0 < above"
begin

definition settled :: "int \<Rightarrow> int \<Rightarrow> bool" where
  "settled x e \<longleftrightarrow> x - e < below \<and> e - x < above"

lemma learn_settled: "settled x e \<Longrightarrow> learn e x = e"
  by (cases "accepts x") (auto simp: settled_def rests ignored)

lemma learn_all_hull:
  assumes "lo \<le> e" "e \<le> hi"
    and "\<And>x. x \<in> set xs \<Longrightarrow> accepts x \<Longrightarrow> lo \<le> x \<and> x \<le> hi"
  shows "lo \<le> foldl learn e xs \<and> foldl learn e xs \<le> hi"
  using assms
proof (induction xs arbitrary: e)
  case Nil
  then show ?case by simp
next
  case (Cons x xs)
  have "lo \<le> learn e x \<and> learn e x \<le> hi"
  proof (cases "accepts x")
    case True
    with Cons.prems(3) [of x] have "lo \<le> x" "x \<le> hi" by auto
    with Cons.prems(1,2) hull_lower [OF True, of e] hull_upper [OF True, of e]
    show ?thesis by linarith
  next
    case False
    with Cons.prems show ?thesis by (simp add: ignored)
  qed
  with Cons show ?case by simp
qed

lemma learn_closer:
  assumes "accepts x" "\<not> settled x e"
  shows "\<bar>x - learn e x\<bar> < \<bar>x - e\<bar>"
proof (cases "below \<le> x - e")
  case True
  with rises [OF assms(1) True] hull_upper [OF assms(1), of e] band_pos
  show ?thesis by auto
next
  case False
  with assms(2) have "above \<le> e - x" by (simp add: settled_def)
  with falls [OF assms(1) this] hull_lower [OF assms(1), of e] band_pos
  show ?thesis by auto
qed

lemma learn_repeat_settled: "settled x e \<Longrightarrow> foldl learn e (replicate n x) = e"
  by (induction n) (simp_all add: learn_settled)

text \<open>A constant input brings the estimate into the dead band, and it stays there.\<close>

lemma converges:
  assumes "accepts x" "nat \<bar>x - e\<bar> \<le> n"
  shows "settled x (foldl learn e (replicate n x))"
  using assms(2)
proof (induction n arbitrary: e)
  case 0
  then show ?case using band_pos by (simp add: settled_def)
next
  case (Suc n)
  show ?case
  proof (cases "settled x e")
    case True
    then show ?thesis
      by (simp add: learn_settled learn_repeat_settled)
  next
    case False
    from learn_closer [OF assms(1) False] Suc.prems
    have "nat \<bar>x - learn e x\<bar> \<le> n" by linarith
    then show ?thesis by (simp add: Suc.IH)
  qed
qed

end

subsection \<open>The two integer filters\<close>

text \<open>The arithmetic shift rounds down: the estimate rests up to 7 below the sample.\<close>

definition shift_step :: "int \<Rightarrow> int \<Rightarrow> int" where
  "shift_step e x = e + drop_bit 3 (x - e)"

text \<open>The truncating division rests within \<open>n - 1\<close> of the sample on either side.\<close>

definition div_step :: "int \<Rightarrow> int \<Rightarrow> int \<Rightarrow> int" where
  "div_step n e x = e + (x - e) sdiv n"

lemma drop_bit_3: "drop_bit 3 (k :: int) = k div 8"
  by (simp add: drop_bit_eq_div)

lemma shift_step_hull: "min e x \<le> shift_step e x \<and> shift_step e x \<le> max e x"
  unfolding shift_step_def drop_bit_3 by (cases "e \<le> x"; auto simp: min_def max_def)

lemma shift_step_rises: "8 \<le> x - e \<Longrightarrow> e < shift_step e x"
  unfolding shift_step_def drop_bit_3 by linarith

lemma shift_step_falls: "1 \<le> e - x \<Longrightarrow> shift_step e x < e"
  unfolding shift_step_def drop_bit_3 by linarith

lemma shift_step_rests: "x - e < 8 \<Longrightarrow> e - x < 1 \<Longrightarrow> shift_step e x = e"
  unfolding shift_step_def drop_bit_3 by simp

lemma sdiv_pos: "0 < n \<Longrightarrow> (k :: int) sdiv n = (if 0 \<le> k then k div n else - (- k div n))"
  by (auto simp: signed_divide_int_def sgn_if)

lemma div_step_hull: "0 < n \<Longrightarrow> min e x \<le> div_step n e x \<and> div_step n e x \<le> max e x"
proof (cases "e \<le> x")
  case True
  assume "0 < n"
  with True have "0 \<le> (x - e) div n" "(x - e) div n \<le> x - e"
    by (auto simp: pos_imp_zdiv_nonneg_iff int_div_less_self
        intro: order_trans [OF zdiv_mono2 [of _ 1]])
  with True \<open>0 < n\<close> show ?thesis by (simp add: div_step_def sdiv_pos)
next
  case False
  assume "0 < n"
  with False have "0 \<le> (e - x) div n" "(e - x) div n \<le> e - x"
    by (auto simp: pos_imp_zdiv_nonneg_iff intro: order_trans [OF zdiv_mono2 [of _ 1]])
  with False \<open>0 < n\<close> show ?thesis by (simp add: div_step_def sdiv_pos)
qed

lemma div_step_rises: "0 < n \<Longrightarrow> n \<le> x - e \<Longrightarrow> e < div_step n e x"
  using pos_imp_zdiv_pos_iff [of n "x - e"] by (simp add: div_step_def sdiv_pos)

lemma div_step_falls: "0 < n \<Longrightarrow> n \<le> e - x \<Longrightarrow> div_step n e x < e"
  using pos_imp_zdiv_pos_iff [of n "e - x"] by (simp add: div_step_def sdiv_pos)

lemma div_step_rests: "0 < n \<Longrightarrow> x - e < n \<Longrightarrow> e - x < n \<Longrightarrow> div_step n e x = e"
  by (simp add: div_step_def sdiv_pos div_pos_pos_trivial)

end
