(* ===== verification/NtpTime.thy ===== *)
theory NtpTime
  imports Bytes PpsAnchor Ewma
begin

text \<open>
  The time arithmetic of \<open>components/ntp_server/ntp_server.cpp\<close>: Unix microseconds to NTP
  timestamps, UTC from the PPS anchor or from the system clock, the advertised precision, and
  the wire encoding. Clock readings (\<open>esp_timer_get_time\<close>, \<open>gettimeofday\<close>) and the anchor read
  from the time source are arguments, in the order the code takes them.
\<close>

record ntp_timestamp =
  ts_seconds :: u32
  ts_fraction :: u32

record timeval =
  tv_sec :: int
  tv_usec :: int

definition NTP_UNIX_OFFSET :: u32 where "NTP_UNIX_OFFSET = 2208988800"

definition encode_ntp_timestamp :: "ntp_timestamp \<Rightarrow> u8 list" where
  "encode_ntp_timestamp ts =
     [ucast (drop_bit 24 (ts_seconds ts) AND 0xFF), ucast (drop_bit 16 (ts_seconds ts) AND 0xFF),
      ucast (drop_bit 8 (ts_seconds ts) AND 0xFF), ucast (ts_seconds ts AND 0xFF),
      ucast (drop_bit 24 (ts_fraction ts) AND 0xFF), ucast (drop_bit 16 (ts_fraction ts) AND 0xFF),
      ucast (drop_bit 8 (ts_fraction ts) AND 0xFF), ucast (ts_fraction ts AND 0xFF)]"

definition micros_epoch_to_ntp_timestamp :: "int \<Rightarrow> ntp_timestamp" where
  "micros_epoch_to_ntp_timestamp unix_us =
     (let sec = unix_us sdiv 1000000; usec = unix_us smod 1000000;
          (sec, usec) = (if usec < 0 then (sec - 1, usec + 1000000) else (sec, usec)) in
      \<lparr>ts_seconds = to_u32 sec + NTP_UNIX_OFFSET,
       ts_fraction = to_u32 (push_bit 32 usec div 1000000)\<rparr>)"

lemma and_0xFF: "ucast (w AND 0xFF :: u32) = (ucast w :: u8)"
proof -
  have "w AND 0xFF = take_bit 8 w" by (simp add: take_bit_eq_mask mask_numeral)
  then show ?thesis by (simp only:) (rule bit_word_eqI, simp add: bit_simps)
qed

lemma encode_be32: "encode_ntp_timestamp ts = be32 (ts_seconds ts) @ be32 (ts_fraction ts)"
  by (simp add: encode_ntp_timestamp_def be32_def and_0xFF)

lemma length_encode [simp]: "length (encode_ntp_timestamp ts) = 8"
  by (simp add: encode_be32)

definition decode_ntp_timestamp :: "u8 list \<Rightarrow> ntp_timestamp" where
  "decode_ntp_timestamp b = \<lparr>ts_seconds = of_be32 (take 4 b), ts_fraction = of_be32 (drop 4 b)\<rparr>"

lemma decode_encode [simp]: "decode_ntp_timestamp (encode_ntp_timestamp ts) = ts"
  by (simp add: decode_ntp_timestamp_def encode_be32)

lemma decode_be32: "decode_ntp_timestamp (be32 u @ be32 v) = \<lparr>ts_seconds = u, ts_fraction = v\<rparr>"
  by (simp add: decode_ntp_timestamp_def)

lemma int_div_bounds:
  assumes "0 < n"
  shows "x div n * n \<le> x" "x < (x div n + 1) * (n :: int)"
proof -
  have m: "0 \<le> x mod n" "x mod n < n" using assms by simp_all
  have x: "x = x div n * n + x mod n" by simp
  show "x div n * n \<le> x" using m x by linarith
  show "x < (x div n + 1) * n" unfolding distrib_right mult_1 using m x by linarith
qed

text \<open>Truncating division, corrected for a negative remainder, is floor division.\<close>

lemma floor_of_truncation:
  "(let sec = k sdiv 1000000; usec = k smod 1000000 in
    if usec < 0 then (sec - 1, usec + 1000000) else (sec, usec)) = (k div 1000000, k mod (1000000 :: int))"
proof (cases "0 \<le> k")
  case True
  then show ?thesis
    by (simp add: Let_def signed_divide_int_def signed_modulo_int_def sgn_if not_less)
next
  case False
  define q where "q = - k div 1000000"
  define r where "r = - k mod 1000000"
  have k: "k = 1000000 * (- q) - r" and r: "0 \<le> r" "r < 1000000"
    by (simp_all add: q_def r_def minus_mod_eq_mult_div [symmetric])
  have sd: "k sdiv 1000000 = - q" "k smod 1000000 = - r"
    using False by (simp_all add: signed_divide_int_def signed_modulo_int_def sgn_if q_def r_def)
  show ?thesis
  proof (cases "r = 0")
    case True
    then show ?thesis unfolding sd Let_def by (simp add: k)
  next
    case False
    have "k div 1000000 = - q - 1" "k mod 1000000 = 1000000 - r"
      using k r False by (auto intro!: int_div_pos_eq [where r = "1000000 - r"] int_mod_pos_eq [where q = "- q - 1"])
    then show ?thesis unfolding sd Let_def using False r by simp
  qed
qed

lemma timestamp_floor:
  "micros_epoch_to_ntp_timestamp us =
    \<lparr>ts_seconds = to_u32 (us div 1000000 + 2208988800),
     ts_fraction = to_u32 (us mod 1000000 * 4294967296 div 1000000)\<rparr>"
proof -
  have "micros_epoch_to_ntp_timestamp us =
      (case (us div 1000000, us mod 1000000) of (sec, usec) \<Rightarrow>
        \<lparr>ts_seconds = to_u32 sec + NTP_UNIX_OFFSET,
         ts_fraction = to_u32 (push_bit 32 usec div 1000000)\<rparr>)"
    unfolding micros_epoch_to_ntp_timestamp_def floor_of_truncation [symmetric] by (simp add: Let_def)
  then show ?thesis
    by (simp add: push_bit_eq_mult to_u32_def NTP_UNIX_OFFSET_def)
qed

lemma fraction_range:
  assumes "0 \<le> u" "u < (1000000 :: int)"
  shows "0 \<le> u * 4294967296 div 1000000 \<and> u * 4294967296 div 1000000 < 4294967296"
  using assms by linarith

text \<open>
  C35: The conversion is exact to the resolution of the format, for every Unix time of either sign.
  The seconds are the floor of the time plus the 1900 offset modulo the era of \<open>2^32\<close> s, the
  fraction is less than one unit of \<open>2^-32\<close> s below the true one, and rounding it up gives the
  microseconds back; the wire bytes decode to the same timestamp.
\<close>

theorem timestamp_exact:
  "let ts = micros_epoch_to_ntp_timestamp us; f = uint (ts_fraction ts) in
   uint (ts_seconds ts) = (us div 1000000 + 2208988800) mod 4294967296 \<and>
   f * 1000000 \<le> us mod 1000000 * 4294967296 \<and> us mod 1000000 * 4294967296 < (f + 1) * 1000000 \<and>
   (f * 1000000 + 4294967295) div 4294967296 = us mod 1000000 \<and>
   decode_ntp_timestamp (encode_ntp_timestamp ts) = ts"
proof -
  define u where "u = us mod 1000000"
  have u: "0 \<le> u" "u < 1000000" by (simp_all add: u_def)
  define f where "f = u * 4294967296 div 1000000"
  have f: "0 \<le> f" "f < 4294967296" using fraction_range [OF u] by (simp_all add: f_def)
  have lo: "f * 1000000 \<le> u * 4294967296" and hi: "u * 4294967296 < (f + 1) * 1000000"
    unfolding f_def using int_div_bounds [of 1000000 "u * 4294967296"] by simp_all
  have "(f * 1000000 + 4294967295) div 4294967296 = u"
    using lo hi by (intro int_div_pos_eq [where r = "f * 1000000 + 4294967295 - u * 4294967296"]) auto
  with f lo hi show ?thesis
    by (simp add: timestamp_floor Let_def uint_to_u32 u_def [symmetric] f_def [symmetric])
qed

subsection \<open>UTC from the anchor\<close>

definition ANCHOR_MAX_SPAN_US :: u32 where "ANCHOR_MAX_SPAN_US = 2000000"

definition anchor_epoch_us :: "pps_anchor option \<Rightarrow> int \<Rightarrow> int option" where
  "anchor_epoch_us anchor at_us = (case anchor of None \<Rightarrow> None
    | Some a \<Rightarrow>
       (let elapsed = to_u32 at_us - pa_micros a in
        if elapsed > ANCHOR_MAX_SPAN_US then None
        else let corrected = (if pa_drift_ppb a > - 100000 \<and> pa_drift_ppb a < 100000
               then uint elapsed - (uint elapsed * pa_drift_ppb a) sdiv 1000000000
               else uint elapsed) in
          Some (pa_epoch a * 1000000 + corrected)))"

text \<open>The drift correction of an elapsed reading.\<close>

definition undrift :: "int \<Rightarrow> int \<Rightarrow> int" where
  "undrift e d = (if d > - 100000 \<and> d < 100000 then e - (e * d) sdiv 1000000000 else e)"

lemma sdiv_bounds:
  "\<bar>(k sdiv 1000000000) * 1000000000 - (k :: int)\<bar> < 1000000000"
  by (simp add: sdiv_pos) linarith

lemma undrift_bounds:
  assumes "0 \<le> e" "e \<le> 2000000"
  shows "\<bar>undrift e d - e\<bar> \<le> 200"
proof (cases "d > - 100000 \<and> d < 100000")
  case True
  have "\<bar>e * d\<bar> \<le> 2000000 * 100000"
    unfolding abs_mult using assms True by (intro mult_mono) auto
  with sdiv_bounds [of "e * d"] True show ?thesis by (simp add: undrift_def)
qed (auto simp: undrift_def)

lemma undrift_mono:
  assumes "0 \<le> e" "e \<le> e'"
  shows "undrift e d \<le> undrift e' d"
proof (cases "d > - 100000 \<and> d < 100000")
  case True
  show ?thesis
  proof (cases "0 \<le> d")
    case pos: True
    have "(e' - e) * d \<le> (e' - e) * 1000000000" using assms True by (intro mult_left_mono) auto
    then have "e' * d \<le> e * d + (e' - e) * 1000000000" by (simp add: algebra_simps)
    then have "e' * d div 1000000000 \<le> (e * d + (e' - e) * 1000000000) div 1000000000"
      by (rule zdiv_mono1) simp
    also have "\<dots> = e * d div 1000000000 + (e' - e)" by (simp add: add.commute)
    finally show ?thesis using assms True pos by (simp add: undrift_def sdiv_pos)
  next
    case False
    have "e * (- d) \<le> e' * (- d)" using assms False by (intro mult_right_mono) auto
    then have "e * (- d) div 1000000000 \<le> e' * (- d) div 1000000000" by (rule zdiv_mono1) simp
    moreover have s: "(x * d) sdiv 1000000000 = - (x * (- d) div 1000000000)" if "0 \<le> x" for x
      using that False by (cases "x = 0") (auto simp: sdiv_pos zero_le_mult_iff)
    ultimately show ?thesis using True assms by (simp add: undrift_def s)
  qed
qed (use assms in \<open>auto simp: undrift_def\<close>)

lemma anchor_epoch_us_eq:
  "anchor_epoch_us (Some a) at =
    (if uint (to_u32 at - pa_micros a) \<le> 2000000
     then Some (pa_epoch a * 1000000 + undrift (uint (to_u32 at - pa_micros a)) (pa_drift_ppb a))
     else None)"
  by (simp add: anchor_epoch_us_def Let_def undrift_def ANCHOR_MAX_SPAN_US_def word_less_alt not_less)

text \<open>
  The anchor as the code publishes it: the micros field is the low half of the edge's instant.
\<close>

lemma anchor_at_instant:
  assumes "pa_micros a = to_u32 edge" "0 \<le> at - edge" "at - edge < 4294967296"
  shows "anchor_epoch_us (Some a) at =
    (if at - edge \<le> 2000000
     then Some (pa_epoch a * 1000000 + undrift (at - edge) (pa_drift_ppb a)) else None)"
  using assms by (simp add: anchor_epoch_us_eq clock_elapsed_exact)

text \<open>
  Between two edges the served time is continuous and monotone. For an anchor whose micros
  field is the low half of the 64-bit instant of its edge, and any two instants in the two
  seconds after it, wherever the 32-bit counter wraps: the edge itself maps to its whole
  second, a later instant never maps to an earlier time, and the drift correction moves no
  instant by more than 200 us.
\<close>

theorem anchor_time_monotone:
  assumes "pa_micros a = to_u32 edge" "edge \<le> s" "s \<le> t" "t \<le> edge + 2000000"
  shows "\<exists>x y. anchor_epoch_us (Some a) s = Some x \<and> anchor_epoch_us (Some a) t = Some y \<and> x \<le> y \<and>
    anchor_epoch_us (Some a) edge = Some (pa_epoch a * 1000000) \<and>
    \<bar>y - (pa_epoch a * 1000000 + (t - edge))\<bar> \<le> 200"
proof -
  have "undrift 0 (pa_drift_ppb a) = 0" by (simp add: undrift_def sdiv_pos)
  moreover have "undrift (s - edge) (pa_drift_ppb a) \<le> undrift (t - edge) (pa_drift_ppb a)"
    using assms by (intro undrift_mono) simp_all
  moreover have "\<bar>undrift (t - edge) (pa_drift_ppb a) - (t - edge)\<bar> \<le> 200"
    using assms by (intro undrift_bounds) simp_all
  ultimately show ?thesis
    using assms by (simp add: anchor_at_instant [OF assms(1)])
qed

theorem anchor_time_monotone_witness:
  "\<exists>x y. anchor_epoch_us (Some \<lparr>pa_epoch = 1800000000, pa_micros = to_u32 4294967000, pa_drift_ppb = 8500\<rparr>)
     4294967100 = Some x \<and>
   anchor_epoch_us (Some \<lparr>pa_epoch = 1800000000, pa_micros = to_u32 4294967000, pa_drift_ppb = 8500\<rparr>)
     4295967000 = Some y \<and> x \<le> y"
  using anchor_time_monotone [of "\<lparr>pa_epoch = 1800000000, pa_micros = to_u32 4294967000, pa_drift_ppb = 8500\<rparr>"
      4294967000 4294967100 4295967000] by auto

text \<open>
  The error of the drift correction: the counter is read to within \<open>m\<close> microseconds, and a little,
  of what a crystal at the anchor's rate would have counted.
\<close>

lemma anchor_time_near:
  assumes "pa_micros a = to_u32 edge" "0 \<le> t - edge" "t - edge \<le> 2000000"
    and "\<bar>pa_drift_ppb a\<bar> < 100000" "0 \<le> tau" "0 \<le> m" "m \<le> 100"
    and "\<bar>(t - edge) * 1000000000 - tau * (1000000000 + pa_drift_ppb a)\<bar> \<le> m * 1000000000 + 2000000"
  shows "\<exists>x. anchor_epoch_us (Some a) t = Some x \<and> \<bar>x - (pa_epoch a * 1000000 + tau)\<bar> \<le> m + 1 \<and>
    x = pa_epoch a * 1000000 + undrift (t - edge) (pa_drift_ppb a)"
proof -
  define e where "e = t - edge"
  define d where "d = pa_drift_ppb a"
  define G :: int where "G = 1000000000"
  define r where "r = e * G - tau * (G + d)"
  have d: "\<bar>d\<bar> < 100000" and r: "\<bar>r\<bar> \<le> m * G + 2000000" and e: "0 \<le> e" "e \<le> 2000000"
    using assms by (simp_all add: d_def r_def e_def G_def)
  have tau: "tau \<le> 2000400"
  proof (rule ccontr)
    assume "\<not> tau \<le> 2000400"
    then have "2000401 * (G - 100000) \<le> tau * (G + d)"
      using d by (intro mult_mono) (auto simp: G_def)
    with r e assms(7) show False by (simp add: r_def G_def)
  qed
  have main: "(e * G - e * d) * G = tau * (G * G) - tau * (d * d) + r * (G - d)"
    by (simp add: r_def algebra_simps)
  have "\<bar>d\<bar> * \<bar>d\<bar> \<le> 100000 * 100000" using d by (intro mult_mono) auto
  then have dd: "d * d \<le> 100000 * 100000" by simp
  have "tau * (d * d) \<le> 2000400 * (100000 * 100000)"
    by (rule mult_mono [OF tau dd]) (use assms(5) in simp_all)
  moreover have "0 \<le> tau * (d * d)" using assms(5) by simp
  moreover have "\<bar>r * (G - d)\<bar> \<le> (m * G + 2000000) * (G + 100000)"
    unfolding abs_mult using r d assms(6) by (intro mult_mono) (auto simp: G_def)
  moreover have "(e * G - e * d - tau * G) * G = r * (G - d) - tau * (d * d)"
    using main by (simp add: algebra_simps)
  ultimately have "\<bar>(e * G - e * d - tau * G) * G\<bar> \<le> (m * G + 2000000) * (G + 100000) + 2000400 * (100000 * 100000)"
    by linarith
  also have "\<dots> \<le> (m * G + 100000000) * G" using assms(6,7) by (simp add: G_def algebra_simps)
  finally have near: "\<bar>e * G - e * d - tau * G\<bar> \<le> m * G + 100000000"
    unfolding abs_mult by (simp add: G_def)
  have "\<bar>undrift e d * G - (e * G - e * d)\<bar> < G"
  proof -
    have "undrift e d = e - (e * d) sdiv 1000000000" using d by (auto simp: undrift_def)
    then show ?thesis using sdiv_bounds [of "e * d"] by (simp add: G_def algebra_simps abs_minus_commute)
  qed
  with near have "\<bar>undrift e d * G - tau * G\<bar> < (m + 1) * G + 100000000"
    unfolding G_def by (simp add: algebra_simps abs_if split: if_splits)
  then have "undrift e d - tau < m + 2" "tau - undrift e d < m + 2"
    unfolding G_def abs_less_iff by (simp_all add: algebra_simps)
  then have "\<bar>undrift e d - tau\<bar> \<le> m + 1" by linarith
  then show ?thesis
    using assms(1-3) by (simp add: anchor_at_instant [OF assms(1)] e_def d_def)
qed

subsection \<open>Timestamps from either clock\<close>

text \<open>
  \<open>hook_to_ntp_timestamp_\<close>: a past or future instant of \<open>esp_timer\<close>. \<open>anchor\<close> is what
  \<open>get_pps_anchor\<close> returned (none without a time source), \<open>tv\<close> and \<open>now_us\<close> are the two clocks
  read back to back in the fallback.
\<close>

definition hook_to_ntp_timestamp ::
  "bool \<Rightarrow> pps_anchor option \<Rightarrow> timeval \<Rightarrow> int \<Rightarrow> int \<Rightarrow> ntp_timestamp" where
  "hook_to_ntp_timestamp use_anchor anchor tv now_us hook_us =
     (case (if use_anchor then anchor_epoch_us anchor hook_us else None) of
        Some anchored_us \<Rightarrow> micros_epoch_to_ntp_timestamp anchored_us
      | None \<Rightarrow>
         (let elapsed_since_hook_us = now_us - hook_us;
              system_us_at_hook = tv_sec tv * 1000000 + tv_usec tv - elapsed_since_hook_us in
          micros_epoch_to_ntp_timestamp system_us_at_hook))"

text \<open>The normalisation loops of \<open>get_ntp_timestamp_\<close>.\<close>

function carry_up :: "int \<Rightarrow> int \<Rightarrow> int \<times> int" where
  "carry_up sec usec = (if usec \<ge> 1000000 then carry_up (sec + 1) (usec - 1000000) else (sec, usec))"
  by pat_completeness auto
termination by (relation "measure (\<lambda>(sec, usec). nat usec)") auto

function carry_down :: "int \<Rightarrow> int \<Rightarrow> int \<times> int" where
  "carry_down sec usec = (if usec < 0 then carry_down (sec - 1) (usec + 1000000) else (sec, usec))"
  by pat_completeness auto
termination by (relation "measure (\<lambda>(sec, usec). nat (- usec))") auto

declare carry_up.simps [simp del] carry_down.simps [simp del]

definition get_ntp_timestamp ::
  "bool \<Rightarrow> pps_anchor option \<Rightarrow> int \<Rightarrow> int \<Rightarrow> timeval \<Rightarrow> int \<Rightarrow> ntp_timestamp \<times> int" where
  "get_ntp_timestamp use_anchor anchor offset_us clock_us tv clock2_us =
     (case (if use_anchor then anchor_epoch_us anchor clock_us else None) of
        Some anchored_us \<Rightarrow> (micros_epoch_to_ntp_timestamp (anchored_us + offset_us), clock_us)
      | None \<Rightarrow>
         (let (sec, usec) = carry_up (tv_sec tv) (tv_usec tv + offset_us);
              (sec, usec) = carry_down sec usec in
          (\<lparr>ts_seconds = to_u32 sec + NTP_UNIX_OFFSET,
            ts_fraction = to_u32 (push_bit 32 usec div 1000000)\<rparr>, clock2_us)))"

lemma shift_seconds:
  "(u + q * 1000000) div 1000000 = u div 1000000 + (q :: int)"
  "(u + q * 1000000) mod 1000000 = u mod 1000000"
  by simp_all

lemma carry_up_floor:
  "0 \<le> usec \<Longrightarrow> carry_up sec usec = (sec + usec div 1000000, usec mod 1000000)"
proof (induction sec usec rule: carry_up.induct)
  case (1 sec usec)
  show ?case
  proof (cases "usec \<ge> 1000000")
    case True
    have "(usec - 1000000) div 1000000 = usec div 1000000 - 1"
      "(usec - 1000000) mod 1000000 = usec mod 1000000"
      using shift_seconds [of usec "- 1"] by simp_all
    with True 1 show ?thesis by (simp add: carry_up.simps [of sec usec])
  next
    case False
    with 1 show ?thesis by (simp add: carry_up.simps)
  qed
qed

lemma carry_down_floor:
  "usec < 1000000 \<Longrightarrow> carry_down sec usec = (sec + usec div 1000000, usec mod 1000000)"
proof (induction sec usec rule: carry_down.induct)
  case (1 sec usec)
  show ?case
  proof (cases "usec < 0")
    case True
    have "(usec + 1000000) div 1000000 = usec div 1000000 + 1"
      "(usec + 1000000) mod 1000000 = usec mod 1000000" by simp_all
    with True 1 show ?thesis by (simp add: carry_down.simps [of sec usec])
  next
    case False
    with 1 show ?thesis by (simp add: carry_down.simps)
  qed
qed

lemma carry_both:
  "(case carry_up sec usec of (s, u) \<Rightarrow> carry_down s u) =
     (sec + usec div 1000000, usec mod 1000000)"
proof (cases "0 \<le> usec")
  case True
  have "usec mod 1000000 < 1000000" "usec mod 1000000 div 1000000 = 0" by simp_all
  with True show ?thesis by (simp add: carry_up_floor carry_down_floor)
next
  case False
  then show ?thesis by (simp add: carry_up.simps carry_down_floor)
qed

text \<open>
  One conversion serves both timestamp paths. Without a usable anchor the loops of
  \<open>get_ntp_timestamp_\<close> end for every clock reading and offset of either sign, and their result
  is the shared conversion of the system time plus the offset; so a request stamped by the
  receive hook and one stamped on return of the socket call agree on every common instant.
\<close>

theorem fallback_paths_agree:
  "anchor_epoch_us anchor clock_us = None \<or> \<not> use_anchor \<Longrightarrow>
   get_ntp_timestamp use_anchor anchor offset clock_us tv now_us =
     (micros_epoch_to_ntp_timestamp (tv_sec tv * 1000000 + tv_usec tv + offset), now_us) \<and>
   (anchor_epoch_us anchor (now_us + offset) = None \<or> \<not> use_anchor \<longrightarrow>
     hook_to_ntp_timestamp use_anchor anchor tv now_us (now_us + offset) =
       fst (get_ntp_timestamp use_anchor anchor offset clock_us tv now_us))"
proof -
  assume a: "anchor_epoch_us anchor clock_us = None \<or> \<not> use_anchor"
  define k where "k = tv_sec tv * 1000000 + tv_usec tv + offset"
  have k: "tv_sec tv + (tv_usec tv + offset) div 1000000 = k div 1000000"
    "(tv_usec tv + offset) mod 1000000 = k mod 1000000"
    using shift_seconds [of "tv_usec tv + offset" "tv_sec tv"] by (simp_all add: k_def algebra_simps)
  obtain s u where su: "carry_up (tv_sec tv) (tv_usec tv + offset) = (s, u)" by fastforce
  then have "carry_down s u = (k div 1000000, k mod 1000000)"
    using carry_both [of "tv_sec tv" "tv_usec tv + offset"] by (simp add: k)
  then have g: "get_ntp_timestamp use_anchor anchor offset clock_us tv now_us =
      (micros_epoch_to_ntp_timestamp k, now_us)"
    using a su by (auto simp: get_ntp_timestamp_def timestamp_floor push_bit_eq_mult to_u32_def
        NTP_UNIX_OFFSET_def split: option.splits)
  have "hook_to_ntp_timestamp use_anchor anchor tv now_us (now_us + offset) =
      micros_epoch_to_ntp_timestamp k"
    if "anchor_epoch_us anchor (now_us + offset) = None \<or> \<not> use_anchor"
    using that by (auto simp: hook_to_ntp_timestamp_def k_def Let_def algebra_simps)
  with g show ?thesis by (simp add: k_def)
qed

theorem fallback_paths_agree_witness:
  "get_ntp_timestamp True None (- 1500000) 77 \<lparr>tv_sec = 1800000000, tv_usec = 250000\<rparr> 80 =
     (micros_epoch_to_ntp_timestamp 1799999998750000, 80)"
  using fallback_paths_agree [of None 77 True "- 1500000" "\<lparr>tv_sec = 1800000000, tv_usec = 250000\<rparr>" 80]
  by (simp add: anchor_epoch_us_def)

subsection \<open>The advertised precision\<close>

text \<open>
  The smallest positive difference of 100 pairs of readings, 1 us when there was none, and the
  loop that turns it into a power of two. The code compares in single precision; \<open>2^p\<close> is exact
  there, and \<open>best / 10^6\<close> differs from every power of two it is compared with by at least one
  part in a million or is equal to it, so rounding does not change a comparison and the exact
  one below is the same.
\<close>

definition best_read_cost :: "int list \<Rightarrow> nat" where
  "best_read_cost ds = (let best = foldl (\<lambda>best d.
      if d > 0 \<and> to_u32 d < best then to_u32 d else best) (- 1 :: u32) (take 100 ds) in
     if best = - 1 then 1 else unat best)"

fun precision_loop :: "nat \<Rightarrow> nat \<Rightarrow> nat" where
  "precision_loop best 0 = 0"
| "precision_loop best (Suc k) = (if 1000000 < best * 2 ^ Suc k then precision_loop best k else Suc k)"

definition clock_precision :: "nat \<Rightarrow> int" where
  "clock_precision best_us = - int (precision_loop best_us 20)"

lemma precision_loop_spec:
  "precision_loop best n \<le> n \<and>
   (precision_loop best n = 0 \<or> best * 2 ^ precision_loop best n \<le> 1000000) \<and>
   (precision_loop best n < n \<longrightarrow> 1000000 < best * 2 ^ Suc (precision_loop best n))"
proof (induction n)
  case (Suc k)
  show ?case
  proof (cases "1000000 < best * 2 ^ Suc k")
    case True
    then have "precision_loop best (Suc k) = precision_loop best k" by simp
    moreover have "1000000 < best * 2 ^ Suc (precision_loop best k)"
      using Suc True le_neq_implies_less [of "precision_loop best k" k] by metis
    ultimately show ?thesis using Suc by (simp only: le_SucI simp_thms)
  next
    case False
    then show ?thesis by simp
  qed
qed simp

text \<open>
  The advertised precision is the tightest power of two in the range -20 to 0 that does not
  claim a better clock than was measured: either \<open>2^p\<close> seconds are at least the measured read
  cost or \<open>p\<close> is 0, and the next smaller power would be below it or \<open>p\<close> is -20.
\<close>

theorem precision_tight:
  "- 20 \<le> clock_precision best \<and> clock_precision best \<le> 0 \<and>
   (clock_precision best = 0 \<or> best * 2 ^ nat (- clock_precision best) \<le> 1000000) \<and>
   (clock_precision best = - 20 \<or> 1000000 < best * 2 ^ nat (1 - clock_precision best))"
  using precision_loop_spec [of best 20]
  by (auto simp: clock_precision_def nat_add_distrib)

end
