(* ===== verification/SendEstimator.thy ===== *)
theory SendEstimator
  imports Ewma
begin

text \<open>
  \<open>components/ntp_server/send_estimator.h\<close>: the prediction of how long after the reply is
  built the chip is told to transmit. A hardware-measured sample is ignored out of range, seeds
  an empty estimate, moves it by an eighth of a small innovation, or is rejected; a run of
  rejects that agree with each other and lasts long enough re-seeds it.
\<close>

definition US_MIN :: int where "US_MIN = 50"
definition US_MAX :: int where "US_MAX = 5000"
definition STEP_MAX_US :: int where "STEP_MAX_US = 100"
definition RESEED_AFTER :: nat where "RESEED_AFTER = 4"
definition RESEED_MIN_SPAN_US :: int where "RESEED_MIN_SPAN_US = 3000000"

lemmas send_consts = US_MIN_def US_MAX_def STEP_MAX_US_def RESEED_AFTER_def
  RESEED_MIN_SPAN_US_def

datatype learn_result = IGNORED | SEEDED | LEARNED | REJECTED | RESEEDED

record send_estimator =
  estimate_us :: int
  reject_run :: nat
  reject_min :: int
  reject_max :: int
  reject_first_us :: int

definition send_estimator_init :: send_estimator where
  "send_estimator_init =
     \<lparr>estimate_us = 0, reject_run = 0, reject_min = 0, reject_max = 0, reject_first_us = 0\<rparr>"

text \<open>The bookkeeping of one rejected sample: it starts a new run or extends the current one.\<close>

definition note_reject :: "send_estimator \<Rightarrow> int \<Rightarrow> int \<Rightarrow> send_estimator" where
  "note_reject e actual_us now_us =
     (if reject_run e = 0 \<or>
         max (reject_max e) actual_us - min (reject_min e) actual_us \<ge> STEP_MAX_US
      then e\<lparr>reject_min := actual_us, reject_max := actual_us, reject_first_us := now_us,
             reject_run := 1\<rparr>
      else e\<lparr>reject_min := min (reject_min e) actual_us,
             reject_max := max (reject_max e) actual_us,
             reject_run := (if reject_run e < 255 then reject_run e + 1 else reject_run e)\<rparr>)"

definition learn :: "send_estimator \<Rightarrow> int \<Rightarrow> int \<Rightarrow> send_estimator \<times> learn_result" where
  "learn e actual_us now_us =
     (if actual_us \<le> US_MIN \<or> actual_us \<ge> US_MAX then (e, IGNORED)
      else if estimate_us e = 0 then (e\<lparr>estimate_us := actual_us, reject_run := 0\<rparr>, SEEDED)
      else let innov = actual_us - estimate_us e in
        if innov > - STEP_MAX_US \<and> innov < STEP_MAX_US
        then (e\<lparr>estimate_us := estimate_us e + drop_bit 3 innov, reject_run := 0\<rparr>, LEARNED)
        else let e' = note_reject e actual_us now_us in
          if reject_run e' \<ge> RESEED_AFTER \<and> now_us - reject_first_us e' \<ge> RESEED_MIN_SPAN_US
          then (e'\<lparr>estimate_us := reject_min e' + (reject_max e' - reject_min e') sdiv 2,
                   reject_run := 0\<rparr>, RESEEDED)
          else (e', REJECTED))"

definition learn_fallback :: "send_estimator \<Rightarrow> int \<Rightarrow> send_estimator" where
  "learn_fallback e dur_us =
     (if dur_us > US_MIN \<and> dur_us < US_MAX
      then e\<lparr>estimate_us := estimate_us e + drop_bit 3 (dur_us - estimate_us e)\<rparr>
      else e)"

declare note_reject_def [step_defs] learn_def [step_defs] learn_fallback_def [step_defs]

text \<open>Feeding a sequence of (sample, time) pairs.\<close>

definition learn1 :: "send_estimator \<Rightarrow> int \<times> int \<Rightarrow> send_estimator" where
  "learn1 e s = fst (learn e (fst s) (snd s))"

definition learn_all :: "send_estimator \<Rightarrow> (int \<times> int) list \<Rightarrow> send_estimator" where
  "learn_all e ss = foldl learn1 e ss"

subsection \<open>The smoothing contract\<close>

definition in_range :: "int \<Rightarrow> bool" where
  "in_range x \<longleftrightarrow> US_MIN < x \<and> x < US_MAX"

definition fallback_estimate :: "int \<Rightarrow> int \<Rightarrow> int" where
  "fallback_estimate est dur_us =
     estimate_us (learn_fallback (send_estimator_init\<lparr>estimate_us := est\<rparr>) dur_us)"

lemma fallback_estimate_step:
  "fallback_estimate est x = (if in_range x then shift_step est x else est)"
  by (simp add: fallback_estimate_def learn_fallback_def in_range_def shift_step_def)

interpretation fallback: ewma fallback_estimate in_range 8 1
  by unfold_locales
    (use shift_step_hull in \<open>auto simp: fallback_estimate_step shift_step_rises
      shift_step_falls shift_step_rests\<close>)

text \<open>The hardware samples close to the estimate go through the same filter.\<close>

definition close_estimate :: "int \<Rightarrow> int \<Rightarrow> int" where
  "close_estimate est x =
     (if in_range x \<and> est \<noteq> 0 \<and> \<bar>x - est\<bar> < STEP_MAX_US
      then estimate_us (fst (learn (send_estimator_init\<lparr>estimate_us := est\<rparr>) x 0)) else est)"

lemma close_estimate_step:
  "close_estimate est x =
     (if in_range x \<and> est \<noteq> 0 \<and> \<bar>x - est\<bar> < STEP_MAX_US then shift_step est x else est)"
  by (auto simp: close_estimate_def learn_def in_range_def shift_step_def Let_def send_consts)

subsection \<open>Invariant\<close>

text \<open>
  What every history of samples keeps: the estimate is from 0 to below the range's end, and an open run of
  rejects has an in-range band narrower than the largest innovation. (A fallback sample taken
  before the first hardware sample may leave the estimate below the range.)
\<close>

definition run_ok :: "send_estimator \<Rightarrow> bool" where
  "run_ok e \<longleftrightarrow> reject_run e \<le> 255 \<and>
     0 \<le> reject_min e \<and> reject_min e < US_MAX \<and> 0 \<le> reject_max e \<and> reject_max e < US_MAX \<and>
     (0 < reject_run e \<longrightarrow> in_range (reject_min e) \<and> in_range (reject_max e) \<and>
        reject_min e \<le> reject_max e \<and> reject_max e - reject_min e < STEP_MAX_US)"

definition est_ok :: "send_estimator \<Rightarrow> bool" where
  "est_ok e \<longleftrightarrow> run_ok e \<and> 0 \<le> estimate_us e \<and> estimate_us e < US_MAX"

lemma run_ok_note_reject: "run_ok e \<Longrightarrow> in_range x \<Longrightarrow> run_ok (note_reject e x t)"
  by (auto simp: run_ok_def note_reject_def in_range_def send_consts)

lemma note_reject_run_pos: "0 < reject_run (note_reject e x t)"
  by (simp add: note_reject_def)

lemma note_reject_estimate [simp]: "estimate_us (note_reject e x t) = estimate_us e"
  by (simp add: note_reject_def)

lemma midpoint_between:
  fixes a b :: int
  shows "a \<le> b \<Longrightarrow> a \<le> a + (b - a) sdiv 2 \<and> a + (b - a) sdiv 2 \<le> b"
  by (simp add: sdiv_pos)

text \<open>One lemma for all branches of \<open>learn\<close>: its case rule.\<close>

lemma learn_cases:
  obtains
    (ignored) "\<not> in_range x" "learn e x t = (e, IGNORED)"
  | (seeded) "in_range x" "estimate_us e = 0"
      "learn e x t = (e\<lparr>estimate_us := x, reject_run := 0\<rparr>, SEEDED)"
  | (learned) "in_range x" "estimate_us e \<noteq> 0" "\<bar>x - estimate_us e\<bar> < STEP_MAX_US"
      "learn e x t = (e\<lparr>estimate_us := shift_step (estimate_us e) x, reject_run := 0\<rparr>, LEARNED)"
  | (rejected) "in_range x" "estimate_us e \<noteq> 0" "STEP_MAX_US \<le> \<bar>x - estimate_us e\<bar>"
      "reject_run (note_reject e x t) < RESEED_AFTER \<or>
       t - reject_first_us (note_reject e x t) < RESEED_MIN_SPAN_US"
      "learn e x t = (note_reject e x t, REJECTED)"
  | (reseeded) "in_range x" "estimate_us e \<noteq> 0" "STEP_MAX_US \<le> \<bar>x - estimate_us e\<bar>"
      "RESEED_AFTER \<le> reject_run (note_reject e x t)"
      "RESEED_MIN_SPAN_US \<le> t - reject_first_us (note_reject e x t)"
      "learn e x t = ((note_reject e x t)\<lparr>estimate_us := reject_min (note_reject e x t) +
         (reject_max (note_reject e x t) - reject_min (note_reject e x t)) sdiv 2,
         reject_run := 0\<rparr>, RESEEDED)"
proof -
  have inn: "(x - estimate_us e > - STEP_MAX_US \<and> x - estimate_us e < STEP_MAX_US) \<longleftrightarrow>
      \<bar>x - estimate_us e\<bar> < STEP_MAX_US" by (auto simp: send_consts)
  note eq = learn_def [of e x t, unfolded inn Let_def, folded shift_step_def]
  consider "\<not> in_range x" | "in_range x" "estimate_us e = 0"
    | "in_range x" "estimate_us e \<noteq> 0" "\<bar>x - estimate_us e\<bar> < STEP_MAX_US"
    | "in_range x" "estimate_us e \<noteq> 0" "STEP_MAX_US \<le> \<bar>x - estimate_us e\<bar>"
    by linarith
  then show thesis
  proof cases
    case 1
    then show thesis by (intro ignored) (auto simp: eq in_range_def)
  next
    case 2
    then show thesis by (intro seeded) (auto simp: eq in_range_def)
  next
    case 3
    then show thesis by (intro learned) (auto simp: eq in_range_def)
  next
    case 4
    show thesis
    proof (cases "RESEED_AFTER \<le> reject_run (note_reject e x t) \<and>
        RESEED_MIN_SPAN_US \<le> t - reject_first_us (note_reject e x t)")
      case True
      with 4 show thesis by (intro reseeded) (auto simp: eq in_range_def)
    next
      case False
      with 4 show thesis by (intro rejected) (auto simp: eq in_range_def)
    qed
  qed
qed

lemma learn_est_ok: "est_ok e \<Longrightarrow> est_ok (fst (learn e x t))"
proof -
  assume ok: "est_ok e"
  show ?thesis
  proof (cases rule: learn_cases [of x e t])
    case ignored
    with ok show ?thesis by simp
  next
    case seeded
    with ok show ?thesis by (simp add: est_ok_def run_ok_def in_range_def send_consts)
  next
    case learned
    with ok shift_step_hull [of "estimate_us e" x] show ?thesis
      by (auto simp: est_ok_def run_ok_def in_range_def send_consts)
  next
    case rejected
    with ok show ?thesis by (simp add: est_ok_def run_ok_note_reject)
  next
    case reseeded
    let ?n = "note_reject e x t"
    from ok reseeded(1) have n: "run_ok ?n" by (simp add: est_ok_def run_ok_note_reject)
    then have b: "in_range (reject_min ?n)" "in_range (reject_max ?n)"
      "reject_min ?n \<le> reject_max ?n"
      using note_reject_run_pos [of e x t] by (auto simp: run_ok_def)
    with midpoint_between [OF b(3)] reseeded(6) show ?thesis
      by (auto simp: est_ok_def run_ok_def in_range_def send_consts)
  qed
qed

lemma learn_fallback_est_ok: "est_ok e \<Longrightarrow> est_ok (learn_fallback e d)"
  using shift_step_hull [of "estimate_us e" d]
  by (auto simp: est_ok_def run_ok_def learn_fallback_def shift_step_def send_consts)

subsection \<open>The history behind an open run of rejects\<close>

text \<open>
  The server feeds both kinds of samples to one estimator: the time to the SEND command, taken at
  \<open>t\<close>, and the fallback duration. Of a history, the hardware samples in range are kept, each with
  its time and the estimate it met.
\<close>

definition feed :: "send_estimator \<Rightarrow> (int \<times> int) + int \<Rightarrow> send_estimator" where
  "feed e s = (case s of Inl (x, t) \<Rightarrow> fst (learn e x t) | Inr d \<Rightarrow> learn_fallback e d)"

lemma feed_simps [simp]:
  "feed e (Inl (x, t)) = fst (learn e x t)" "feed e (Inr d) = learn_fallback e d"
  by (simp_all add: feed_def)

fun hw_history :: "send_estimator \<Rightarrow> ((int \<times> int) + int) list \<Rightarrow> (int \<times> int \<times> int) list" where
  "hw_history e [] = []"
| "hw_history e (Inl (x, t) # ss) = (if in_range x then [(x, t, estimate_us e)] else []) @ hw_history (feed e (Inl (x, t))) ss"
| "hw_history e (Inr d # ss) = hw_history (feed e (Inr d)) ss"

lemma hw_history_snoc:
  "hw_history e (ss @ [s]) = hw_history e ss @ hw_history (foldl feed e ss) [s]"
  by (induction e ss rule: hw_history.induct) simp_all

text \<open>
  \<open>run_rep e ys\<close>: the fields of the open run summarise the rejected samples \<open>ys\<close>.
  \<open>hist_ok e h\<close>: the open run, if any, is a suffix of the in-range history \<open>h\<close>.
\<close>

definition run_rep :: "send_estimator \<Rightarrow> (int \<times> int \<times> int) list \<Rightarrow> bool" where
  "run_rep e ys \<longleftrightarrow> ys \<noteq> [] \<and> reject_run e = min 255 (length ys) \<and>
     reject_first_us e = fst (snd (hd ys)) \<and>
     reject_min e = Min (fst ` set ys) \<and> reject_max e = Max (fst ` set ys) \<and>
     (\<forall>(x, t, est) \<in> set ys. STEP_MAX_US \<le> \<bar>x - est\<bar>)"

definition hist_ok :: "send_estimator \<Rightarrow> (int \<times> int \<times> int) list \<Rightarrow> bool" where
  "hist_ok e h \<longleftrightarrow> run_ok e \<and>
     (0 < reject_run e \<longrightarrow> (\<exists>pre ys. h = pre @ ys \<and> run_rep e ys))"

lemma run_rep_new:
  "STEP_MAX_US \<le> \<bar>x - est\<bar> \<Longrightarrow>
   run_rep (e\<lparr>reject_min := x, reject_max := x, reject_first_us := t, reject_run := 1\<rparr>) [(x, t, est)]"
  by (simp add: run_rep_def)

lemma run_rep_extend:
  assumes "run_rep e ys" "STEP_MAX_US \<le> \<bar>x - est\<bar>"
  shows "run_rep (e\<lparr>reject_min := min (reject_min e) x, reject_max := max (reject_max e) x,
     reject_run := (if reject_run e < 255 then reject_run e + 1 else reject_run e)\<rparr>)
     (ys @ [(x, t, est)])"
  using assms by (auto simp: run_rep_def Min_insert2 max.commute min.commute)

lemma note_reject_hist:
  assumes "hist_ok e h" "in_range x" "STEP_MAX_US \<le> \<bar>x - est\<bar>"
  shows "\<exists>pre ys. h @ [(x, t, est)] = pre @ ys \<and> run_rep (note_reject e x t) ys"
proof (cases "reject_run e = 0 \<or>
    max (reject_max e) x - min (reject_min e) x \<ge> STEP_MAX_US")
  case True
  then show ?thesis
    using run_rep_new [OF assms(3), where e = e and t = t] by (auto simp: note_reject_def)
next
  case False
  with assms(1) obtain pre ys where "h = pre @ ys" "run_rep e ys"
    by (auto simp: hist_ok_def)
  with run_rep_extend [OF this(2) assms(3), of t] False
  have "h @ [(x, t, est)] = pre @ (ys @ [(x, t, est)]) \<and> run_rep (note_reject e x t) (ys @ [(x, t, est)])"
    by (simp add: note_reject_def split: if_splits)
  then show ?thesis by blast
qed

lemma hist_ok_learn:
  assumes "hist_ok e h"
  shows "hist_ok (fst (learn e x t)) (if in_range x then h @ [(x, t, estimate_us e)] else h)"
proof (cases rule: learn_cases [of x e t])
  case ignored
  with assms show ?thesis by simp
next
  case seeded
  with assms show ?thesis by (simp add: hist_ok_def run_ok_def)
next
  case learned
  with assms show ?thesis by (simp add: hist_ok_def run_ok_def)
next
  case rejected
  with assms have "run_ok (note_reject e x t)"
    by (simp add: hist_ok_def run_ok_note_reject)
  with note_reject_hist [OF assms rejected(1,3), of t] rejected(1,5) show ?thesis
    by (auto simp: hist_ok_def)
next
  case reseeded
  with assms have "run_ok (note_reject e x t)" by (simp add: hist_ok_def run_ok_note_reject)
  with reseeded show ?thesis by (simp add: hist_ok_def run_ok_def)
qed

lemma hist_ok_fallback: "hist_ok e h \<Longrightarrow> hist_ok (learn_fallback e d) h"
  by (simp add: hist_ok_def run_ok_def run_rep_def learn_fallback_def)

lemma hist_ok_feed: "hist_ok (foldl feed send_estimator_init ss) (hw_history send_estimator_init ss)"
proof (induction ss rule: rev_induct)
  case Nil
  then show ?case by (simp add: hist_ok_def run_ok_def send_estimator_init_def send_consts)
next
  case (snoc s ss)
  show ?case
  proof (cases s)
    case (Inl xt)
    then obtain x t where "s = Inl (x, t)" by (cases xt) simp
    then show ?thesis using hist_ok_learn [OF snoc.IH, of x t] by (simp add: hw_history_snoc split: if_splits)
  next
    case (Inr d)
    then show ?thesis using hist_ok_fallback [OF snoc.IH] by (simp add: hw_history_snoc)
  qed
qed

text \<open>
  C33: A re-seed needs evidence. Whatever the history of hardware samples and fallback durations
  since boot, if the next sample re-seeds the estimate then the last in-range hardware samples, this
  one included, form a run of at least four, every one of them at least 100 us away from the estimate
  it met, all within 100 us of each other, spanning at least three seconds; and the new estimate is
  the middle of their band. A burst of stalled sends within one second therefore cannot move the
  estimate. Fallback durations between them neither count nor end the run.
\<close>

theorem reseed_needs_persistent_run:
  assumes "learn (foldl feed send_estimator_init ss) x t = (e', RESEEDED)"
  shows "\<exists>pre ys. hw_history send_estimator_init (ss @ [Inl (x, t)]) = pre @ ys \<and> 4 \<le> length ys \<and>
     3000000 \<le> t - fst (snd (hd ys)) \<and>
     (\<forall>(y, _, est) \<in> set ys. 100 \<le> \<bar>y - est\<bar>) \<and>
     (\<forall>y \<in> set ys. \<forall>z \<in> set ys. \<bar>fst y - fst z\<bar> < 100) \<and>
     estimate_us e' = Min (fst ` set ys) + (Max (fst ` set ys) - Min (fst ` set ys)) sdiv 2"
proof -
  let ?e = "foldl feed send_estimator_init ss"
  let ?n = "note_reject ?e x t"
  note h = hist_ok_feed [of ss]
  from assms have r: "in_range x" "STEP_MAX_US \<le> \<bar>x - estimate_us ?e\<bar>"
    "RESEED_AFTER \<le> reject_run ?n" "RESEED_MIN_SPAN_US \<le> t - reject_first_us ?n"
    "estimate_us e' = reject_min ?n + (reject_max ?n - reject_min ?n) sdiv 2"
    by (cases rule: learn_cases [of x ?e t]; auto)+
  have "hw_history send_estimator_init (ss @ [Inl (x, t)]) = hw_history send_estimator_init ss @ [(x, t, estimate_us ?e)]"
    using r(1) by (simp add: hw_history_snoc)
  then obtain pre ys where ys: "hw_history send_estimator_init (ss @ [Inl (x, t)]) = pre @ ys" "run_rep ?n ys"
    using note_reject_hist [OF h r(1,2), of t] by auto
  have band: "reject_max ?n - reject_min ?n < STEP_MAX_US"
    using run_ok_note_reject [OF _ r(1), of ?e t] h note_reject_run_pos [of ?e x t]
    by (simp add: hist_ok_def run_ok_def)
  have near: "\<bar>fst y - fst z\<bar> < 100" if "y \<in> set ys" "z \<in> set ys" for y z
  proof -
    have b: "reject_min ?n \<le> fst v \<and> fst v \<le> reject_max ?n" if "v \<in> set ys" for v
      using ys(2) that by (auto simp: run_rep_def)
    from b [OF that(1)] b [OF that(2)] band show ?thesis by (auto simp: send_consts)
  qed
  from ys near r show ?thesis
    by (intro exI [of _ pre] exI [of _ ys]) (auto simp: run_rep_def send_consts)
qed

text \<open>Four samples of a new level with a fallback duration among them.\<close>

theorem reseed_needs_persistent_run_witness:
  "let ss = [Inl (300, 0), Inl (900, 1000000), Inr 310, Inl (910, 2000000), Inl (920, 3000000)] in
   estimate_us (fst (learn (foldl feed send_estimator_init ss) 930 4000000)) = 915 \<and>
   (\<exists>pre ys. hw_history send_estimator_init (ss @ [Inl (930, 4000000)]) = pre @ ys \<and> 4 \<le> length ys)"
proof -
  define ss :: "((int \<times> int) + int) list" where
    "ss = [Inl (300, 0), Inl (900, 1000000), Inr 310, Inl (910, 2000000), Inl (920, 3000000)]"
  have *: "learn (foldl feed send_estimator_init ss) 930 4000000 =
     (\<lparr>estimate_us = 915, reject_run = 0, reject_min = 900, reject_max = 930,
       reject_first_us = 1000000\<rparr>, RESEEDED)"
    by (simp add: ss_def learn_def learn_fallback_def note_reject_def send_estimator_init_def
        send_consts sdiv_pos drop_bit_3)
  show ?thesis using reseed_needs_persistent_run [OF *] unfolding Let_def ss_def [symmetric] by (auto simp: *)
qed

text \<open>
  No single sample moves the estimate far. Outside the two seeding branches one call changes
  it by at most 13 us, and a sample that is ignored or rejected, however large, not at all.
\<close>

theorem single_sample_bounded:
  "(snd (learn e x t) \<in> {IGNORED, REJECTED} \<longrightarrow> estimate_us (fst (learn e x t)) = estimate_us e) \<and>
   (snd (learn e x t) = LEARNED \<longrightarrow>
      \<bar>estimate_us (fst (learn e x t)) - estimate_us e\<bar> \<le> 13 \<and>
      estimate_us (fst (learn e x t)) = estimate_us e + drop_bit 3 (x - estimate_us e))"
proof (cases rule: learn_cases [of x e t])
  case learned
  then show ?thesis
    by (auto simp: shift_step_def drop_bit_3 send_consts)
qed auto

theorem single_sample_bounded_witness:
  "snd (learn (send_estimator_init\<lparr>estimate_us := 300\<rparr>) 399 0) = LEARNED \<and>
   estimate_us (fst (learn (send_estimator_init\<lparr>estimate_us := 300\<rparr>) 399 0)) = 312"
proof -
  have "snd (learn (send_estimator_init\<lparr>estimate_us := 300\<rparr>) 399 0) = LEARNED"
    by (simp add: learn_def send_consts send_estimator_init_def)
  moreover from this
  have "estimate_us (fst (learn (send_estimator_init\<lparr>estimate_us := 300\<rparr>) 399 0)) =
      300 + drop_bit 3 (399 - 300)"
    using single_sample_bounded [of "send_estimator_init\<lparr>estimate_us := 300\<rparr>" 399 0] by simp
  ultimately show ?thesis by simp
qed

subsection \<open>A real change of the send path is followed\<close>

lemma learn_at_level:
  assumes "estimate_us e = x" "in_range x"
  shows "learn e x t = (e\<lparr>reject_run := 0\<rparr>, LEARNED)"
  using assms by (auto simp: learn_def in_range_def send_consts)

lemma level_run:
  assumes "in_range x" "estimate_us e \<noteq> 0" "STEP_MAX_US \<le> \<bar>x - estimate_us e\<bar>"
    "reject_run e = 0" "ts \<noteq> []"
  shows "let f = learn_all e (map (\<lambda>t. (x, t)) ts) in estimate_us f = x \<or>
     (estimate_us f = estimate_us e \<and> reject_run f = min 255 (length ts) \<and>
      reject_min f = x \<and> reject_max f = x \<and> reject_first_us f = hd ts \<and>
      \<not> (RESEED_AFTER \<le> length ts \<and> RESEED_MIN_SPAN_US \<le> last ts - hd ts))"
  using assms(5)
proof (induction ts rule: rev_nonempty_induct)
  case (single t)
  show ?case using assms
    by (cases rule: learn_cases [of x e t])
      (auto simp: learn_all_def learn1_def note_reject_def send_consts Let_def)
next
  case (snoc t ts)
  let ?f = "learn_all e (map (\<lambda>t. (x, t)) ts)"
  have step: "learn_all e (map (\<lambda>t. (x, t)) (ts @ [t])) = fst (learn ?f x t)"
    by (simp add: learn_all_def learn1_def)
  show ?case
  proof (cases "estimate_us ?f = x")
    case True
    with learn_at_level [OF True assms(1), of t] show ?thesis
      by (simp add: step Let_def del: map_append)
  next
    case False
    with snoc.IH have f: "estimate_us ?f = estimate_us e" "reject_run ?f = min 255 (length ts)"
      "reject_min ?f = x" "reject_max ?f = x" "reject_first_us ?f = hd ts"
      by (auto simp: Let_def)
    from f(2) snoc.hyps have pos: "reject_run ?f \<noteq> 0" by (simp add: min_def)
    have n: "note_reject ?f x t = ?f\<lparr>reject_run := min 255 (Suc (length ts))\<rparr>"
      using f pos by (simp add: note_reject_def send_consts min_def)
    show ?thesis using assms f snoc.hyps
      by (cases rule: learn_cases [of x ?f t]) (auto simp: step n Let_def send_consts simp del: map_append)
  qed
qed

text \<open>
  A real change is followed. From any state with a nonzero estimate and no open run, if every
  sample is the same in-range value at least 100 us away from the estimate, and at least four
  samples arrive over at least three seconds, the estimate is that value at the end.
\<close>

theorem persistent_change_is_learned:
  assumes "in_range x" "estimate_us e \<noteq> 0" "100 \<le> \<bar>x - estimate_us e\<bar>" "reject_run e = 0"
    and "4 \<le> length ts" "3000000 \<le> last ts - hd ts"
  shows "estimate_us (learn_all e (map (\<lambda>t. (x, t)) ts)) = x"
proof -
  from assms(5) have "ts \<noteq> []" by auto
  with level_run [OF assms(1,2) _ assms(4), of ts] assms show ?thesis
    by (auto simp: Let_def send_consts)
qed

theorem persistent_change_is_learned_witness:
  "estimate_us (learn_all (send_estimator_init\<lparr>estimate_us := 300\<rparr>)
     (map (\<lambda>t. (1500, t)) [0, 1000000, 2000000, 3000000])) = 1500"
  by (rule persistent_change_is_learned)
    (simp_all add: in_range_def send_consts send_estimator_init_def)

text \<open>
  The estimate always stays in range. Whatever mixture of hardware samples and fallback
  durations has been learned since boot, the estimate is at least 0 and below 5000 us, and the
  open run of rejects is a band narrower than 100 us of in-range samples; so T3 is never
  pre-corrected by a negative or a stalled delay.
\<close>

theorem estimate_invariant: "est_ok (foldl feed send_estimator_init ss)"
proof (induction ss rule: rev_induct)
  case Nil
  then show ?case by (simp add: est_ok_def run_ok_def send_estimator_init_def send_consts)
next
  case (snoc s ss)
  then show ?case
    by (auto simp: feed_def learn_est_ok learn_fallback_est_ok split: sum.split)
qed

text \<open>
  A fallback sample taken before the first hardware sample blocks the seeding. The fallback
  leaves an eighth of the duration as the estimate, which is no longer 0, so the next hardware
  sample is not taken as the seed: when it is 100 us or more above that eighth it is rejected.
\<close>

theorem fallback_before_seed_blocks_seeding:
  assumes "in_range d" "in_range x" "8 \<le> d" "d div 8 + 100 \<le> x"
  shows "estimate_us (learn_fallback send_estimator_init d) = d div 8 \<and>
     snd (learn (learn_fallback send_estimator_init d) x t) = REJECTED \<and>
     snd (learn send_estimator_init x t) = SEEDED"
  using assms
  by (auto simp: learn_fallback_def learn_def note_reject_def in_range_def send_consts
      send_estimator_init_def drop_bit_3 Let_def pos_imp_zdiv_neg_iff)

theorem fallback_before_seed_blocks_seeding_witness:
  "snd (learn (learn_fallback send_estimator_init 400) 400 0) = REJECTED"
  using fallback_before_seed_blocks_seeding [of 400 400 0]
  by (simp add: in_range_def send_consts)

end
