(* ===== verification/TxPatch.thy ===== *)
theory TxPatch
  imports Bytes Ewma
begin

text \<open>
  \<open>components/ntp_server/ntp_tx_patch.h\<close>: finding our own NTP reply among the frames written to
  the chip, the incremental UDP checksum, the ring addresses of a patch, and the estimate of the
  patch-to-SEND delay. A frame is the list of its captured bytes; the plan is \<open>None\<close> exactly
  where the code would read past them.
\<close>

subsection \<open>The plan\<close>

record ntp_tx_patch_plan =
  ok :: bool
  t3_off :: nat
  csum_off :: nat
  csum_present :: bool
  old_csum :: u16
  old_t3 :: "u8 list"

definition no_plan :: ntp_tx_patch_plan where
  "no_plan = \<lparr>ok = False, t3_off = 0, csum_off = 0, csum_present = False, old_csum = 0,
     old_t3 = replicate 8 0\<rparr>"

definition ETH_HDR_LEN :: nat where "ETH_HDR_LEN = 14"
definition MIN_IPV4_HDR_LEN :: nat where "MIN_IPV4_HDR_LEN = 20"
definition UDP_HDR_LEN :: nat where "UDP_HDR_LEN = 8"
definition NTP_PACKET_SIZE :: nat where "NTP_PACKET_SIZE = 48"
definition ETHERTYPE_IPV4 :: u16 where "ETHERTYPE_IPV4 = 0x0800"
definition IP_PROTO_UDP :: u8 where "IP_PROTO_UDP = 17"

lemmas frame_consts = ETH_HDR_LEN_def MIN_IPV4_HDR_LEN_def UDP_HDR_LEN_def
  NTP_PACKET_SIZE_def ETHERTYPE_IPV4_def IP_PROTO_UDP_def

text \<open>The tail of the plan, once the headers have been accepted.\<close>

definition plan_fields :: "u8 list \<Rightarrow> nat \<Rightarrow> ntp_tx_patch_plan option" where
  "plan_fields frame udp_offset =
     (let ntp_offset = udp_offset + UDP_HDR_LEN;
          t3 = ntp_offset + 40; cs = udp_offset + 6 in
      if length frame < t3 + 8 then Some no_plan
      else do {
        csum \<leftarrow> rd16 frame cs;
        old \<leftarrow> rdn frame t3 8;
        Some \<lparr>ok = True, t3_off = t3, csum_off = cs, csum_present = (csum \<noteq> 0),
              old_csum = csum, old_t3 = old\<rparr>
      })"

definition plan_udp :: "u8 list \<Rightarrow> nat \<Rightarrow> u16 \<Rightarrow> ntp_tx_patch_plan option" where
  "plan_udp frame udp_offset server_port = do {
     src_port \<leftarrow> rd16 frame udp_offset;
     if src_port \<noteq> server_port then Some no_plan
     else do {
       udp_len \<leftarrow> rd16 frame (udp_offset + 4);
       if unat udp_len < UDP_HDR_LEN + NTP_PACKET_SIZE then Some no_plan
       else if length frame < udp_offset + UDP_HDR_LEN + NTP_PACKET_SIZE then Some no_plan
       else do {
         first \<leftarrow> rd frame (udp_offset + UDP_HDR_LEN);
         if first AND 0x07 \<noteq> 4 then Some no_plan else plan_fields frame udp_offset
       }
     }
   }"

definition plan_ntp_tx_patch :: "u8 list \<Rightarrow> u16 \<Rightarrow> ntp_tx_patch_plan option" where
  "plan_ntp_tx_patch frame server_port =
     (if length frame < ETH_HDR_LEN + MIN_IPV4_HDR_LEN then Some no_plan
      else do {
        ethertype \<leftarrow> rd16 frame 12;
        if ethertype \<noteq> ETHERTYPE_IPV4 then Some no_plan
        else do {
          ver_ihl \<leftarrow> rd frame ETH_HDR_LEN;
          let version = drop_bit 4 ver_ihl AND 0x0F;
          let ihl = unat (ver_ihl AND 0x0F);
          if version \<noteq> 4 \<or> ihl < 5 then Some no_plan
          else do {
            let udp_offset = ETH_HDR_LEN + ihl * 4;
            if length frame < udp_offset + UDP_HDR_LEN then Some no_plan
            else do {
              proto \<leftarrow> rd frame (ETH_HDR_LEN + 9);
              if proto \<noteq> IP_PROTO_UDP then Some no_plan
              else plan_udp frame udp_offset server_port
            }
          }
        }
      })"

subsection \<open>What the plan recognises\<close>

text \<open>
  The reply as a predicate on bytes: Ethernet II with IPv4, any legal header length, UDP from
  the server's port carrying at least an NTP packet, in NTP server mode, fully captured.
\<close>

definition udp_start :: "u8 list \<Rightarrow> nat" where
  "udp_start f = 14 + 4 * unat (f ! 14 AND 0x0F)"

definition is_ntp_reply :: "u8 list \<Rightarrow> u16 \<Rightarrow> bool" where
  "is_ntp_reply f port \<longleftrightarrow>
     34 \<le> length f \<and> be16 (f ! 12) (f ! 13) = 0x0800 \<and>
     drop_bit 4 (f ! 14) AND 0x0F = 4 \<and> 5 \<le> unat (f ! 14 AND 0x0F) \<and>
     udp_start f + 56 \<le> length f \<and> f ! 23 = 17 \<and>
     be16 (f ! udp_start f) (f ! (udp_start f + 1)) = port \<and>
     56 \<le> unat (be16 (f ! (udp_start f + 4)) (f ! (udp_start f + 5))) \<and>
     f ! (udp_start f + 8) AND 0x07 = 4"

lemma ihl_le: "unat ((b :: u8) AND 0x0F) \<le> 15"
proof -
  have "b AND 0x0F \<le> 0x0F" by (rule word_and_le1)
  then show ?thesis by (simp add: word_le_nat_alt)
qed

lemma udp_start_le: "udp_start f \<le> 74"
  using ihl_le [of "f ! 14"] by (simp add: udp_start_def)

lemma udp_start_ge: "5 \<le> unat (f ! 14 AND 0x0F) \<Longrightarrow> 34 \<le> udp_start f"
  by (simp add: udp_start_def)

lemma plan_fields_eval:
  "plan_fields f u = Some
     (if length f < u + 56 then no_plan
      else \<lparr>ok = True, t3_off = u + 48, csum_off = u + 6,
            csum_present = (be16 (f ! (u + 6)) (f ! (u + 7)) \<noteq> 0),
            old_csum = be16 (f ! (u + 6)) (f ! (u + 7)),
            old_t3 = take 8 (drop (u + 48) f)\<rparr>)"
  by (simp add: plan_fields_def Let_def frame_consts ac_simps)

lemma plan_udp_eval:
  assumes "u + 8 \<le> length f"
  shows "plan_udp f u port = Some
     (if be16 (f ! u) (f ! (u + 1)) = port \<and> 56 \<le> unat (be16 (f ! (u + 4)) (f ! (u + 5))) \<and>
         u + 56 \<le> length f \<and> f ! (u + 8) AND 0x07 = 4
      then \<lparr>ok = True, t3_off = u + 48, csum_off = u + 6,
            csum_present = (be16 (f ! (u + 6)) (f ! (u + 7)) \<noteq> 0),
            old_csum = be16 (f ! (u + 6)) (f ! (u + 7)),
            old_t3 = take 8 (drop (u + 48) f)\<rparr>
      else no_plan)"
  using assms by (auto simp: plan_udp_def plan_fields_eval frame_consts ac_simps)

definition reply_plan :: "u8 list \<Rightarrow> ntp_tx_patch_plan" where
  "reply_plan f = (let u = udp_start f in
     \<lparr>ok = True, t3_off = u + 48, csum_off = u + 6,
      csum_present = (be16 (f ! (u + 6)) (f ! (u + 7)) \<noteq> 0),
      old_csum = be16 (f ! (u + 6)) (f ! (u + 7)),
      old_t3 = take 8 (drop (u + 48) f)\<rparr>)"

lemma plan_ntp_tx_patch_eq:
  "plan_ntp_tx_patch f port = Some (if is_ntp_reply f port then reply_plan f else no_plan)"
proof (cases "34 \<le> length f \<and> be16 (f ! 12) (f ! 13) = 0x0800 \<and>
    drop_bit 4 (f ! 14) AND 0x0F = 4 \<and> 5 \<le> unat (f ! 14 AND 0x0F)")
  case False
  then have "\<not> is_ntp_reply f port" unfolding is_ntp_reply_def by blast
  with False show ?thesis
    by (auto simp: plan_ntp_tx_patch_def frame_consts Let_def)
next
  case True
  then have u: "34 \<le> udp_start f" by (simp add: udp_start_ge)
  have start: "14 + unat (f ! 14 AND 0x0F) * 4 = udp_start f" by (simp add: udp_start_def)
  show ?thesis
  proof (cases "udp_start f + 8 \<le> length f \<and> f ! 23 = 17")
    case False
    then have "\<not> is_ntp_reply f port" unfolding is_ntp_reply_def by auto
    with True False show ?thesis
      by (auto simp: plan_ntp_tx_patch_def frame_consts Let_def start)
  next
    case udp: True
    with True have "plan_ntp_tx_patch f port = plan_udp f (udp_start f) port"
      by (simp add: plan_ntp_tx_patch_def frame_consts Let_def start)
    also have "\<dots> = Some (if is_ntp_reply f port then reply_plan f else no_plan)"
      using True udp by (auto simp: plan_udp_eval is_ntp_reply_def reply_plan_def Let_def)
    finally show ?thesis .
  qed
qed

text \<open>
  C30: The planner is total, memory safe and exact. It never reads past the captured bytes, it
  accepts exactly the frames that are our own NTP reply, and for those it names the transmit
  timestamp and the UDP checksum at their places and saves the bytes they hold.
\<close>

theorem plan_exact:
  "plan_ntp_tx_patch f port = Some (if is_ntp_reply f port then reply_plan f else no_plan)"
  by (rule plan_ntp_tx_patch_eq)

lemma no_plan_ok [simp]: "\<not> ok no_plan"
  by (simp add: no_plan_def)

lemma reply_plan_ok [simp]: "ok (reply_plan f)"
  by (simp add: reply_plan_def Let_def)

lemma plan_ok_iff: "plan_ntp_tx_patch f port = Some p \<Longrightarrow> ok p \<longleftrightarrow> is_ntp_reply f port"
  by (auto simp: plan_ntp_tx_patch_eq split: if_splits)

lemma plan_okD:
  assumes "plan_ntp_tx_patch f port = Some p" "ok p"
  shows "is_ntp_reply f port" "p = reply_plan f"
  using assms by (auto simp: plan_ntp_tx_patch_eq split: if_splits)

lemma plan_ok_Some: "is_ntp_reply f port \<Longrightarrow> plan_ntp_tx_patch f port = Some (reply_plan f)"
  by (simp add: plan_ntp_tx_patch_eq)

lemma is_ntp_replyD:
  "is_ntp_reply f port \<Longrightarrow> udp_start f + 56 \<le> length f"
  by (simp add: is_ntp_reply_def)

lemma plan_ok_bounds:
  assumes "plan_ntp_tx_patch f port = Some p" "ok p"
  shows "t3_off p = udp_start f + 48" "csum_off p = udp_start f + 6" "t3_off p + 8 \<le> length f"
    "t3_off p \<le> 122" "old_t3 p = take 8 (drop (t3_off p) f)" "length (old_t3 p) = 8"
    "old_csum p = be16 (f ! csum_off p) (f ! (csum_off p + 1))"
    "csum_present p \<longleftrightarrow> old_csum p \<noteq> 0"
proof -
  have l: "udp_start f + 56 \<le> length f" using is_ntp_replyD [OF plan_okD(1) [OF assms]] .
  note p = plan_okD(2) [OF assms]
  show "t3_off p = udp_start f + 48" "csum_off p = udp_start f + 6" "t3_off p + 8 \<le> length f"
    "t3_off p \<le> 122" "old_t3 p = take 8 (drop (t3_off p) f)" "length (old_t3 p) = 8"
    "old_csum p = be16 (f ! csum_off p) (f ! (csum_off p + 1))"
    "csum_present p \<longleftrightarrow> old_csum p \<noteq> 0"
    using l udp_start_le [of f] by (auto simp: p reply_plan_def Let_def min_def ac_simps)
qed

subsection \<open>The incremental checksum\<close>

text \<open>The one's-complement fold: \<open>while ((sum >> 16) != 0) ...\<close>, on 32-bit words.\<close>

lemma unat_low16: "unat ((s :: u32) AND 0xFFFF) = unat s mod 65536"
proof -
  have "s AND 0xFFFF = take_bit 16 s" by (simp add: take_bit_eq_mask mask_numeral)
  then show ?thesis by (simp only: unsigned_take_bit_eq) (simp add: take_bit_eq_mod)
qed

lemma unat_high16: "unat (drop_bit 16 (s :: u32)) = unat s div 65536"
  by (simp add: drop_bit_eq_div unat_div)

lemma unat_fold_step:
  "unat ((s AND 0xFFFF) + drop_bit 16 (s :: u32)) = unat s mod 65536 + unat s div 65536"
proof -
  have "unat s div 65536 \<le> 65535" using unat_u32 [of s] by linarith
  then show ?thesis
    by (simp add: unat_word_ariths unat_low16 unat_high16)
qed

function fold_carry :: "u32 \<Rightarrow> u32" where
  "fold_carry s = (if drop_bit 16 s \<noteq> 0 then fold_carry ((s AND 0xFFFF) + drop_bit 16 s) else s)"
  by pat_completeness auto
termination
proof (relation "measure unat")
  fix s :: u32
  assume "drop_bit 16 s \<noteq> 0"
  then have "unat s div 65536 \<noteq> 0" by (metis unat_high16 unat_eq_zero)
  moreover have "unat s mod 65536 + 65536 * (unat s div 65536) = unat s" by simp
  ultimately have "unat s mod 65536 + unat s div 65536 < unat s" by linarith
  then show "((s AND 0xFFFF) + drop_bit 16 s, s) \<in> measure unat"
    by (simp add: unat_fold_step)
qed simp

declare fold_carry.simps [simp del]

definition udp_csum_update :: "u16 \<Rightarrow> u8 list \<Rightarrow> u8 list \<Rightarrow> u16" where
  "udp_csum_update csum old8 new8 =
     (let sum = foldl (\<lambda>sum i. sum + ucast (NOT (be16 (old8 ! i) (old8 ! (i + 1)))) +
            ucast (be16 (new8 ! i) (new8 ! (i + 1)))) (ucast (NOT csum) :: u32) [0, 2, 4, 6];
          result = NOT (ucast (fold_carry sum)) :: u16
      in if result = 0 then 0xFFFF else result)"

text \<open>
  Reference: the checksum of RFC 768 over the 16-bit words of the pseudo header and the
  datagram with the checksum field taken as zero, on unbounded numbers.
\<close>

function ones_fold :: "nat \<Rightarrow> nat" where
  "ones_fold n = (if n < 65536 then n else ones_fold (n mod 65536 + n div 65536))"
  by pat_completeness auto
termination
proof (relation "measure id")
  fix n :: nat
  assume "\<not> n < 65536"
  then have "n div 65536 \<noteq> 0" by simp
  moreover have "n mod 65536 + 65536 * (n div 65536) = n" by simp
  ultimately have "n mod 65536 + n div 65536 < n" by linarith
  then show "(n mod 65536 + n div 65536, n) \<in> measure id" by simp
qed simp

declare ones_fold.simps [simp del]

definition udp_checksum :: "u16 list \<Rightarrow> nat" where
  "udp_checksum ws = (let r = 65535 - ones_fold (sum_list (map unat ws)) in
     if r = 0 then 65535 else r)"

fun words_of :: "u8 list \<Rightarrow> u16 list" where
  "words_of (a # b # xs) = be16 a b # words_of xs"
| "words_of _ = []"

text \<open>Folding keeps the value modulo 65535 and sends only 0 to 0.\<close>

lemma ones_fold_mod: "ones_fold n mod 65535 = n mod 65535"
proof (induction n rule: ones_fold.induct)
  case (1 n)
  show ?case
  proof (cases "n < 65536")
    case True
    then show ?thesis by (simp add: ones_fold.simps)
  next
    case False
    have "n = (n mod 65536 + n div 65536) + 65535 * (n div 65536)" by simp
    then have "n mod 65535 = (n mod 65536 + n div 65536) mod 65535"
      by (metis mod_mult_self2)
    with 1 False show ?thesis by (simp add: ones_fold.simps [of n])
  qed
qed

lemma ones_fold_less: "ones_fold n < 65536"
  by (induction n rule: ones_fold.induct) (subst ones_fold.simps, simp)

lemma ones_fold_eq_0: "ones_fold n = 0 \<longleftrightarrow> n = 0"
proof (induction n rule: ones_fold.induct)
  case (1 n)
  show ?case
  proof (cases "n < 65536")
    case False
    then have "n div 65536 \<noteq> 0" by simp
    then have "n mod 65536 + n div 65536 \<noteq> 0" by linarith
    with 1 False show ?thesis by (simp add: ones_fold.simps [of n])
  qed (simp add: ones_fold.simps)
qed

lemma unat_fold_carry: "unat (fold_carry s) = ones_fold (unat s)"
proof (induction s rule: fold_carry.induct)
  case (1 s)
  show ?case
  proof (cases "drop_bit 16 s = 0")
    case True
    then have "unat s div 65536 = 0" by (metis unat_high16 unat_0)
    then have "unat s < 65536" by simp
    with True show ?thesis by (simp add: fold_carry.simps [of s] ones_fold.simps)
  next
    case False
    then have "unat s div 65536 \<noteq> 0" by (metis unat_high16 unat_eq_zero)
    then have "\<not> unat s < 65536" by simp
    with 1 False show ?thesis
      by (simp add: fold_carry.simps [of s] ones_fold.simps [of "unat s"] unat_fold_step)
  qed
qed

text \<open>A checksum is determined by its residue, because it is never 0.\<close>

lemma complement_residue:
  fixes n :: nat
  defines "r \<equiv> 65535 - ones_fold n"
  shows "(if r = 0 then 65535 else r) \<in> {1..65535}"
    "((if r = 0 then 65535 else r) + n) mod 65535 = 0"
proof -
  show "(if r = 0 then 65535 else r) \<in> {1..65535}" by (auto simp: r_def)
  have le: "ones_fold n \<le> 65535" using ones_fold_less [of n] by simp
  have "(r + ones_fold n) mod 65535 = 0" using le by (simp add: r_def)
  then have "(r + n) mod 65535 = 0" by (metis mod_add_right_eq ones_fold_mod)
  then show "((if r = 0 then 65535 else r) + n) mod 65535 = 0" by auto
qed

lemma residue_unique:
  fixes a b n :: nat
  assumes "a \<in> {1..65535}" "b \<in> {1..65535}" "(a + n) mod 65535 = (b + n) mod 65535"
  shows "a = b"
proof -
  have gen: "x = y" if xy: "x \<in> {1..m}" "y \<in> {1..m}" "x \<le> y" "(x + n) mod m = (y + n) mod m"
    for x y m :: nat
  proof -
    from xy(3,4) have "m dvd (y + n) - (x + n)"
      by (metis add_le_mono1 mod_eq_dvd_iff_nat)
    then have "m dvd y - x" by simp
    moreover have "y - x < m" using xy(1,2) by auto
    ultimately have "y - x = 0" by (meson nat_dvd_not_less not_gr_zero)
    with xy(3) show ?thesis by simp
  qed
  show ?thesis
  proof (cases "a \<le> b")
    case True
    show ?thesis by (rule gen [OF assms(1,2) True assms(3)])
  next
    case False
    then show ?thesis using gen [OF assms(2,1) _ assms(3) [symmetric]] by simp
  qed
qed

lemma udp_checksum_range: "udp_checksum ws \<in> {1..65535}"
  unfolding udp_checksum_def Let_def by (rule complement_residue(1))

lemma udp_checksum_residue: "(udp_checksum ws + sum_list (map unat ws)) mod 65535 = 0"
  unfolding udp_checksum_def Let_def by (rule complement_residue(2))

text \<open>The accumulator of the update as a number: no 32-bit wrap-around occurs.\<close>

definition csum_total :: "u16 \<Rightarrow> u8 list \<Rightarrow> u8 list \<Rightarrow> nat" where
  "csum_total csum old8 new8 = (65535 - unat csum) +
     sum_list (map (\<lambda>w. 65535 - unat w) (words_of old8)) + sum_list (map unat (words_of new8))"

lemma length_8_cases:
  assumes "length xs = 8"
  obtains a b c d e f g h where "xs = [a, b, c, d, e, f, g, h]"
  using assms by (auto simp: numeral_eq_Suc length_Suc_conv)

lemma ucast_is_of_nat: "(ucast (w :: u32) :: u16) = of_nat (unat w)"
  by transfer simp

lemma unat_add_small:
  "unat (a :: u32) + unat b < 4294967296 \<Longrightarrow> unat (a + b) = unat a + unat b"
  by (simp add: unat_word_ariths)

lemma udp_csum_update_total:
  assumes "length old8 = 8" "length new8 = 8"
  shows "unat (udp_csum_update csum old8 new8) =
     (let r = 65535 - ones_fold (csum_total csum old8 new8) in if r = 0 then 65535 else r)"
proof -
  from assms(1) obtain a0 a1 a2 a3 a4 a5 a6 a7 where
    a: "old8 = [a0, a1, a2, a3, a4, a5, a6, a7]" by (rule length_8_cases)
  from assms(2) obtain b0 b1 b2 b3 b4 b5 b6 b7 where
    b: "new8 = [b0, b1, b2, b3, b4, b5, b6, b7]" by (rule length_8_cases)
  define u where "u = foldl (\<lambda>sum i. sum + ucast (NOT (be16 (old8 ! i) (old8 ! (i + 1)))) +
            ucast (be16 (new8 ! i) (new8 ! (i + 1)))) (ucast (NOT csum) :: u32) [0, 2, 4, 6]"
  have le: "unat (w :: u16) \<le> 65535" for w using unat_u16 [of w] by linarith
  have u: "unat u = csum_total csum old8 new8"
    using le [of "be16 b0 b1"] le [of "be16 b2 b3"] le [of "be16 b4 b5"] le [of "be16 b6 b7"]
    by (simp add: u_def a b csum_total_def unat_not_u16 unat_add_small)
  have c: "ucast (fold_carry u) = (of_nat (ones_fold (csum_total csum old8 new8)) :: u16)"
    by (simp only: u [symmetric] unat_fold_carry ucast_is_of_nat)
  define w where "w = (NOT (ucast (fold_carry u)) :: u16)"
  have r: "unat w = 65535 - ones_fold (csum_total csum old8 new8)"
    using ones_fold_less [of "csum_total csum old8 new8"]
    by (simp add: w_def unat_not_u16 c unsigned_of_nat take_bit_eq_mod)
  have eq: "udp_csum_update csum old8 new8 = (if w = 0 then 0xFFFF else w)"
    by (simp only: udp_csum_update_def u_def Let_def w_def)
  show ?thesis
  proof (cases "w = 0")
    case True
    have "udp_csum_update csum old8 new8 = 0xFFFF" unfolding eq by (rule if_P [OF True])
    moreover from True r have "65535 - ones_fold (csum_total csum old8 new8) = 0" by simp
    ultimately show ?thesis by (simp add: Let_def)
  next
    case False
    have "udp_csum_update csum old8 new8 = w" unfolding eq by (rule if_not_P [OF False])
    moreover from False have "unat w \<noteq> 0" by (simp only: unat_eq_zero not_False_eq_True)
    ultimately show ?thesis using r by (simp only: Let_def if_False)
  qed
qed

lemma csum_total_residue:
  assumes "length old8 = 8"
  shows "(csum_total csum old8 new8 + unat csum + sum_list (map unat (words_of old8))) mod 65535 =
     sum_list (map unat (words_of new8)) mod 65535"
proof -
  have neg: "sum_list (map (\<lambda>w. 65535 - unat w) ws) + sum_list (map unat ws) =
      65535 * length ws" for ws :: "u16 list"
  proof (induction ws)
    case (Cons w ws)
    moreover have "unat w \<le> 65535" using unat_u16 [of w] by linarith
    ultimately show ?case by simp
  qed simp
  have "csum_total csum old8 new8 + unat csum + sum_list (map unat (words_of old8)) =
      65535 + 65535 * length (words_of old8) + sum_list (map unat (words_of new8))"
  proof -
    have "unat csum \<le> 65535" using unat_u16 [of csum] by linarith
    with neg [of "words_of old8"] show ?thesis by (simp add: csum_total_def)
  qed
  also have "\<dots> mod 65535 = sum_list (map unat (words_of new8)) mod 65535"
    by (metis mult_Suc_right mod_mult_self4)
  finally show ?thesis .
qed

lemma udp_csum_update_full:
  assumes "length old8 = 8" "length new8 = 8"
    and "unat csum = udp_checksum (pre @ words_of old8 @ post)"
  shows "unat (udp_csum_update csum old8 new8) = udp_checksum (pre @ words_of new8 @ post)"
proof -
  let ?s = "\<lambda>ws :: u16 list. sum_list (map unat ws)"
  let ?R = "?s pre + ?s post"
  let ?t = "csum_total csum old8 new8"
  let ?n = "unat (udp_csum_update csum old8 new8)"
  have n: "?n \<in> {1..65535}" "(?n + ?t) mod 65535 = 0"
    using complement_residue [of ?t] by (simp_all add: udp_csum_update_total [OF assms(1,2)] Let_def)
  have old: "(unat csum + (?R + ?s (words_of old8))) mod 65535 = 0"
    using udp_checksum_residue [of "pre @ words_of old8 @ post"] assms(3)
    by (simp add: ac_simps)
  have "(?n + (?R + ?s (words_of new8))) mod 65535 =
      (?n + ?R + (?t + unat csum + ?s (words_of old8))) mod 65535"
    by (metis (no_types) csum_total_residue [OF assms(1)] add.assoc mod_add_right_eq)
  also have "\<dots> = ((?n + ?t) + (unat csum + (?R + ?s (words_of old8)))) mod 65535"
    by (simp add: ac_simps)
  also have "\<dots> = 0" by (metis n(2) old mod_add_eq add_0 mod_0)
  also have "\<dots> = (udp_checksum (pre @ words_of new8 @ post) + (?R + ?s (words_of new8))) mod 65535"
    using udp_checksum_residue [of "pre @ words_of new8 @ post"] by (simp add: ac_simps)
  finally show ?thesis by (rule residue_unique [OF n(1) udp_checksum_range])
qed

text \<open>
  C31: The incremental checksum is the full one. If the field held the RFC 768 checksum of the
  datagram before the patch, then after rewriting the eight timestamp bytes anywhere in it the
  updated value is exactly the checksum recomputed over the patched datagram, for every content
  of the datagram, including the all-ones encoding of zero.
\<close>

theorem csum_update_is_full_recompute:
  assumes "length old8 = 8" "length new8 = 8"
    and "unat csum = udp_checksum (pre @ words_of old8 @ post)"
  shows "unat (udp_csum_update csum old8 new8) = udp_checksum (pre @ words_of new8 @ post)"
  using assms by (rule udp_csum_update_full)

lemma replicate_8: "replicate 8 x = [x, x, x, x, x, x, x, x]"
  by (simp add: numeral_eq_Suc)

theorem csum_update_is_full_recompute_witness:
  "unat (udp_csum_update 0xFFFF (replicate 8 0) [0, 1, 0, 0, 0, 0, 0, 0]) =
     udp_checksum ([0xFFFF] @ words_of [0, 1, 0, 0, 0, 0, 0, 0] @ [])"
proof -
  have "unat (0xFFFF :: u16) = udp_checksum ([0xFFFF] @ words_of (replicate 8 0) @ [])"
    by (simp add: udp_checksum_def ones_fold.simps replicate_8 be16_def)
  then show ?thesis by (intro csum_update_is_full_recompute) simp_all
qed

text \<open>
  The updated checksum is never 0, the value that means "no checksum" on the wire, and a
  patch that changes no byte leaves a present checksum as it is.
\<close>

theorem csum_update_nonzero_identity:
  assumes "length old8 = 8" "length new8 = 8"
  shows "udp_csum_update csum old8 new8 \<noteq> 0 \<and>
     (csum \<noteq> 0 \<longrightarrow> udp_csum_update csum old8 old8 = csum)"
proof -
  have pos: "unat (udp_csum_update csum old8 new8) \<noteq> 0"
    using complement_residue(1) [of "csum_total csum old8 new8"]
    by (simp add: udp_csum_update_total [OF assms] Let_def split: if_splits)
  have "unat (udp_csum_update csum old8 old8) = unat csum" if "csum \<noteq> 0"
  proof (rule residue_unique)
    let ?t = "csum_total csum old8 old8"
    let ?s = "sum_list (map unat (words_of old8))"
    show "unat (udp_csum_update csum old8 old8) \<in> {1..65535}"
      using complement_residue(1) [of ?t]
      by (simp add: udp_csum_update_total [OF assms(1) assms(1)] Let_def)
    show "unat csum \<in> {1..65535}"
      using that unat_u16 [of csum] by (simp add: Suc_le_eq unat_gt_0 del: unat_u16)
    have "(unat csum + ?t + ?s) mod 65535 = (0 + ?s) mod 65535"
      using csum_total_residue [OF assms(1), of csum old8] by (simp add: ac_simps)
    moreover have "(unat (udp_csum_update csum old8 old8) + ?t) mod 65535 = 0"
      using complement_residue(2) [of ?t]
      by (simp add: udp_csum_update_total [OF assms(1) assms(1)] Let_def)
    ultimately show "(unat (udp_csum_update csum old8 old8) + (?t + ?s)) mod 65535 =
        (unat csum + (?t + ?s)) mod 65535"
      by (metis add.assoc mod_add_left_eq)
  qed
  with pos show ?thesis by (metis unat_0 word_unat_eq_iff)
qed

theorem csum_update_nonzero_identity_witness:
  "udp_csum_update 0x1234 (replicate 8 7) (replicate 8 7) = 0x1234"
  using csum_update_nonzero_identity [of "replicate 8 7" "replicate 8 7" "0x1234"] by simp

subsection \<open>The addresses of a patch in the transmit ring\<close>

record ring_write =
  rw_addr :: u16
  rw_len :: u16
  rw_src :: u16

definition TX_MEM_SIZE :: u32 where "TX_MEM_SIZE = 0x4000"

definition plan_ring_writes :: "u16 \<Rightarrow> u16 \<Rightarrow> u16 \<Rightarrow> ring_write list" where
  "plan_ring_writes frame_start_offset rel_off n =
     (let base = ucast frame_start_offset mod TX_MEM_SIZE;
          start = base + ucast rel_off in
      if start < TX_MEM_SIZE \<and> start + ucast n > TX_MEM_SIZE then
        let first_len = ucast (TX_MEM_SIZE - start) in
        [\<lparr>rw_addr = ucast start, rw_len = first_len, rw_src = 0\<rparr>,
         \<lparr>rw_addr = ucast TX_MEM_SIZE, rw_len = n - first_len, rw_src = first_len\<rparr>]
      else [\<lparr>rw_addr = ucast start, rw_len = n, rw_src = 0\<rparr>])"

text \<open>
  The chip's side, from its documented addressing: the 16 KB ring masks the top address bits,
  and one write must not run over the end of the ring.
\<close>

definition ring_write_ok :: "ring_write \<Rightarrow> bool" where
  "ring_write_ok w \<longleftrightarrow> unat (rw_addr w) mod 16384 + unat (rw_len w) \<le> 16384"

definition ring_store :: "u8 list \<Rightarrow> (nat \<Rightarrow> u8) \<Rightarrow> ring_write \<Rightarrow> (nat \<Rightarrow> u8)" where
  "ring_store patch mem w = (\<lambda>a.
     let first = unat (rw_addr w) mod 16384 in
     if first \<le> a \<and> a < first + unat (rw_len w) then patch ! (unat (rw_src w) + (a - first))
     else mem a)"

definition ring_read :: "(nat \<Rightarrow> u8) \<Rightarrow> nat \<Rightarrow> nat \<Rightarrow> u8 list" where
  "ring_read mem start n = map (\<lambda>i. mem ((start + i) mod 16384)) [0..<n]"

lemma unat_narrow_32_16: "unat (ucast (w :: u32) :: u16) = unat w mod 65536"
  by transfer (simp add: take_bit_eq_mod nat_mod_distrib)

lemma ring_start_unat:
  "unat (ucast (fso :: u16) mod TX_MEM_SIZE + ucast (rel :: u16)) = unat fso mod 16384 + unat rel"
proof -
  have "unat fso mod 16384 + unat rel < 4294967296"
    using unat_u16 [of rel] by (simp del: unat_u16)
  then show ?thesis
    by (simp add: TX_MEM_SIZE_def unat_word_ariths unat_mod)
qed

lemma plan_ring_writes_nat:
  assumes "unat rel + unat n \<le> 16384"
  shows "map (\<lambda>w. (unat (rw_addr w), unat (rw_len w), unat (rw_src w))) (plan_ring_writes fso rel n) =
    (let start = unat fso mod 16384 + unat rel in
     if start < 16384 \<and> 16384 < start + unat n
     then [(start, 16384 - start, 0), (16384, unat n - (16384 - start), 16384 - start)]
     else [(start, unat n, 0)])"
proof -
  define s where "s = ucast (fso :: u16) mod TX_MEM_SIZE + ucast (rel :: u16)"
  have s: "unat s = unat fso mod 16384 + unat rel" unfolding s_def by (rule ring_start_unat)
  have small: "unat s < 32768" using s assms by simp
  have a: "unat (ucast s :: u16) = unat s"
    using small by (simp add: unat_narrow_32_16)
  have sn: "unat (s + ucast n) = unat s + unat n"
    using small assms by (subst unat_add_small) simp_all
  have c: "s < TX_MEM_SIZE \<and> s + ucast n > TX_MEM_SIZE \<longleftrightarrow>
      unat s < 16384 \<and> 16384 < unat s + unat n"
    by (simp add: word_less_nat_alt sn TX_MEM_SIZE_def)
  have f: "unat (ucast (TX_MEM_SIZE - s) :: u16) = 16384 - unat s" if "unat s < 16384"
    using that
    by (simp add: unat_narrow_32_16 TX_MEM_SIZE_def unat_sub word_le_nat_alt)
  have g: "unat (n - ucast (TX_MEM_SIZE - s)) = unat n - (16384 - unat s)"
    if "unat s < 16384" "16384 < unat s + unat n"
    using that by (subst unat_sub) (simp_all add: f word_le_nat_alt)
  have t: "unat (ucast TX_MEM_SIZE :: u16) = 16384"
    by (simp add: TX_MEM_SIZE_def)
  show ?thesis
    unfolding plan_ring_writes_def Let_def s_def [symmetric] c
    by (simp add: a f g t s)
qed

lemma plan_ring_writes_cases:
  assumes "unat rel + unat n \<le> 16384"
  obtains (split) w v where "plan_ring_writes fso rel n = [w, v]"
      "unat (rw_addr w) = unat fso mod 16384 + unat rel"
      "unat (rw_len w) = 16384 - unat (rw_addr w)" "unat (rw_src w) = 0"
      "unat (rw_addr v) = 16384" "unat (rw_len v) = unat n - unat (rw_len w)"
      "unat (rw_src v) = unat (rw_len w)"
      "unat (rw_addr w) < 16384" "16384 < unat (rw_addr w) + unat n"
  | (single) w where "plan_ring_writes fso rel n = [w]"
      "unat (rw_addr w) = unat fso mod 16384 + unat rel" "unat (rw_len w) = unat n"
      "unat (rw_src w) = 0"
      "unat (rw_addr w) < 16384 \<Longrightarrow> unat (rw_addr w) + unat n \<le> 16384"
  using plan_ring_writes_nat [OF assms, of fso] that
  by (auto simp: Let_def map_eq_Cons_conv split: if_splits)

lemma ring_store_eq:
  assumes "unat (rw_addr w) mod 16384 = f" "unat (rw_len w) = l" "unat (rw_src w) = s"
  shows "ring_store patch mem w a =
    (if f \<le> a \<and> a < f + l then patch ! (s + (a - f)) else mem a)"
  using assms by (simp add: ring_store_def)

lemma ring_hit_split:
  fixes p :: "nat \<Rightarrow> 'a"
  assumes "b < 16384" "r + n \<le> 16384" "i < 16384" "b + r < 16384" "16384 < b + r + n"
    and "a = (if b + i < 16384 then b + i else b + i - 16384)"
  shows "(if 0 \<le> a \<and> a < 0 + (n - (16384 - (b + r))) then p (16384 - (b + r) + (a - 0))
      else if b + r \<le> a \<and> a < b + r + (16384 - (b + r)) then p (0 + (a - (b + r))) else m) =
    (if r \<le> i \<and> i < r + n then p (i - r) else m)"
proof (cases "b + i < 16384")
  case True
  then have a: "a = b + i" using assms(6) by simp
  have "\<not> a < n - (16384 - (b + r))" using a assms(1-5) by linarith
  moreover have "i < r + n" using True assms(5) by linarith
  moreover have "b + r \<le> a \<and> a < b + r + (16384 - (b + r)) \<longleftrightarrow> r \<le> i"
    using a True assms(4) by linarith
  moreover have "a - (b + r) = i - r" using a by simp
  ultimately show ?thesis by simp
next
  case False
  with assms have a: "a = b + i - 16384" by simp
  have "\<not> b + r \<le> a" using a False assms(3) by linarith
  moreover have "a < n - (16384 - (b + r)) \<longleftrightarrow> i < r + n" using a False assms(1-5) by linarith
  moreover have "r \<le> i" using False assms(4) by linarith
  moreover have "16384 - (b + r) + a = i - r" using a False assms(4) by linarith
  ultimately show ?thesis by simp
qed

lemma ring_hit_single:
  fixes p :: "nat \<Rightarrow> 'a"
  assumes "b < 16384" "r + n \<le> 16384" "i < 16384" "b + r < 16384 \<Longrightarrow> b + r + n \<le> 16384"
    and "a = (if b + i < 16384 then b + i else b + i - 16384)"
    and "f = (if b + r < 16384 then b + r else b + r - 16384)"
  shows "(if f \<le> a \<and> a < f + n then p (0 + (a - f)) else m) =
    (if r \<le> i \<and> i < r + n then p (i - r) else m)"
proof -
  have "f \<le> a \<and> a < f + n \<longleftrightarrow> r \<le> i \<and> i < r + n" "r \<le> i \<Longrightarrow> i < r + n \<Longrightarrow> a - f = i - r"
    using assms by (auto split: if_splits)
  then show ?thesis by auto
qed

lemma ring_reduce:
  "i < 16384 \<Longrightarrow> (s + i) mod 16384 =
    (if s mod 16384 + i < 16384 then s mod 16384 + i else s mod 16384 + i - (16384 :: nat))"
proof -
  assume i: "i < 16384"
  have "(s + i) mod 16384 = (s mod 16384 + i) mod 16384" by (simp add: mod_simps)
  moreover have "s mod 16384 < 16384" by simp
  ultimately show ?thesis
    using i by (simp add: le_mod_geq [of 16384 "s mod 16384 + i"])
qed

lemma ring_patch_at:
  assumes "unat rel + unat n \<le> 16384" "i < 16384"
  shows "foldl (ring_store patch) mem (plan_ring_writes fso rel n) ((unat fso + i) mod 16384) =
    (if unat rel \<le> i \<and> i < unat rel + unat n then patch ! (i - unat rel)
     else mem ((unat fso + i) mod 16384))"
proof -
  let ?b = "unat fso mod 16384"
  let ?a = "(unat fso + i) mod 16384"
  have b: "?b < 16384" by simp
  note a = ring_reduce [OF assms(2), of "unat fso"]
  show ?thesis
    using assms(1)
  proof (cases rule: plan_ring_writes_cases [of rel n fso])
    case (split w v)
    have "unat (rw_addr w) mod 16384 = ?b + unat rel" using split(2,8) by simp
    note w = ring_store_eq [OF this split(3) split(4)]
    have "unat (rw_addr v) mod 16384 = 0" using split(5) by simp
    note v = ring_store_eq [OF this split(6) split(7)]
    have "foldl (ring_store patch) mem (plan_ring_writes fso rel n) ?a =
        ring_store patch (ring_store patch mem w) v ?a" using split(1) by simp
    also have "\<dots> = (if unat rel \<le> i \<and> i < unat rel + unat n then patch ! (i - unat rel) else mem ?a)"
      unfolding v w using ring_hit_split [OF b assms(1,2) _ _ a, of "(!) patch" "mem ?a"] split(2,3,8,9)
      by (simp only: )
    finally show ?thesis .
  next
    case (single w)
    define f where "f = unat (rw_addr w) mod 16384"
    have f: "f = (if ?b + unat rel < 16384 then ?b + unat rel else ?b + unat rel - 16384)"
      using assms(1) b le_mod_geq [of 16384 "?b + unat rel"] by (simp add: f_def single(2))
    note w = ring_store_eq [OF f_def [symmetric] single(3) single(4)]
    have "foldl (ring_store patch) mem (plan_ring_writes fso rel n) ?a =
        ring_store patch mem w ?a" using single(1) by simp
    also have "\<dots> = (if unat rel \<le> i \<and> i < unat rel + unat n then patch ! (i - unat rel) else mem ?a)"
      unfolding w using single(2,5) by (intro ring_hit_single [OF b assms(1,2) _ a f]) simp
    finally show ?thesis .
  qed
qed

lemma plan_ring_writes_ok:
  assumes "unat rel + unat n \<le> 16384"
  shows "list_all ring_write_ok (plan_ring_writes fso rel n)"
  using assms
proof (cases rule: plan_ring_writes_cases [of rel n fso])
  case (split w v)
  then show ?thesis using assms by (simp add: ring_write_ok_def) linarith
next
  case (single w)
  have "unat fso mod 16384 < 16384" by simp
  have "unat (rw_addr w) mod 16384 + unat n \<le> 16384"
  proof (cases "unat (rw_addr w) < 16384")
    case True
    then show ?thesis using single(5) by simp
  next
    case False
    then have "unat (rw_addr w) mod 16384 = (unat (rw_addr w) - 16384) mod 16384"
      by (simp add: le_mod_geq)
    also have "\<dots> \<le> unat (rw_addr w) - 16384" by (rule mod_less_eq_dividend)
    finally show ?thesis using False single(2) assms \<open>unat fso mod 16384 < 16384\<close> by linarith
  qed
  with single(1,3) show ?thesis by (simp add: ring_write_ok_def)
qed

lemma ring_patch_refines_aux:
  assumes "length patch = unat n" "unat rel + unat n \<le> L" "L \<le> 16384"
  shows "ring_read (foldl (ring_store patch) mem (plan_ring_writes fso rel n)) (unat fso) L =
      put (ring_read mem (unat fso) L) (unat rel) patch"
  using assms by (intro nth_equalityI) (simp_all add: ring_read_def put_nth ring_patch_at)

text \<open>
  C32: Patching through the ring is patching the frame. For any frame of the ring's size or less
  and any start address, the writes of the plan stay inside the ring, and reading the frame back
  out of the patched ring gives the old frame with the patch in place, split or not.
\<close>

theorem ring_patch_refines:
  assumes "length patch = unat n" "unat rel + unat n \<le> L" "L \<le> 16384"
  shows "list_all ring_write_ok (plan_ring_writes fso rel n) \<and>
    ring_read (foldl (ring_store patch) mem (plan_ring_writes fso rel n)) (unat fso) L =
      put (ring_read mem (unat fso) L) (unat rel) patch"
  using assms plan_ring_writes_ok ring_patch_refines_aux by simp

theorem ring_patch_refines_witness:
  "ring_read (foldl (ring_store [1, 2, 3, 4]) (\<lambda>_. 9) (plan_ring_writes 0x3FFD 1 4))
     (unat (0x3FFD :: u16)) 6 = [9, 1, 2, 3, 4, 9]"
  using ring_patch_refines [of "[1, 2, 3, 4]" 4 1 6 "0x3FFD" "\<lambda>_. 9"]
  by (simp add: ring_read_def put_def upt_rec)

subsection \<open>The patch-to-SEND delay\<close>

record patch_delay_estimator =
  pd_estimate_us :: int

definition PD_US_MIN :: int where "PD_US_MIN = 10"
definition PD_US_MAX :: int where "PD_US_MAX = 500"
definition PD_INITIAL_US :: int where "PD_INITIAL_US = 60"

definition patch_delay_init :: patch_delay_estimator where
  "patch_delay_init = \<lparr>pd_estimate_us = PD_INITIAL_US\<rparr>"

definition pd_learn :: "int \<Rightarrow> patch_delay_estimator \<Rightarrow> patch_delay_estimator" where
  "pd_learn us e =
     (if us < PD_US_MIN \<or> us > PD_US_MAX then e
      else e\<lparr>pd_estimate_us := shift_step (pd_estimate_us e) us\<rparr>)"

lemmas pd_consts = PD_US_MIN_def PD_US_MAX_def PD_INITIAL_US_def

definition pd_accepts :: "int \<Rightarrow> bool" where
  "pd_accepts us \<longleftrightarrow> PD_US_MIN \<le> us \<and> us \<le> PD_US_MAX"

definition pd_estimate_step :: "int \<Rightarrow> int \<Rightarrow> int" where
  "pd_estimate_step e us = pd_estimate_us (pd_learn us \<lparr>pd_estimate_us = e\<rparr>)"

lemma pd_estimate_step_eq: "pd_estimate_step e us = (if pd_accepts us then shift_step e us else e)"
  by (auto simp: pd_estimate_step_def pd_learn_def pd_accepts_def)

interpretation patch_delay: ewma pd_estimate_step pd_accepts 8 1
proof
  fix x e
  show "\<not> pd_accepts x \<Longrightarrow> pd_estimate_step e x = e" by (simp add: pd_estimate_step_eq)
  show "pd_accepts x \<Longrightarrow> min e x \<le> pd_estimate_step e x"
    "pd_accepts x \<Longrightarrow> pd_estimate_step e x \<le> max e x"
    using shift_step_hull [of e x] by (simp_all add: pd_estimate_step_eq)
  show "pd_accepts x \<Longrightarrow> 8 \<le> x - e \<Longrightarrow> e < pd_estimate_step e x"
    by (simp add: pd_estimate_step_eq shift_step_rises)
  show "pd_accepts x \<Longrightarrow> 1 \<le> e - x \<Longrightarrow> pd_estimate_step e x < e"
    by (simp add: pd_estimate_step_eq shift_step_falls)
  show "pd_accepts x \<Longrightarrow> x - e < 8 \<Longrightarrow> e - x < 1 \<Longrightarrow> pd_estimate_step e x = e"
    by (simp add: pd_estimate_step_eq shift_step_rests)
qed simp_all

lemma pd_learn_fold:
  "pd_estimate_us (fold pd_learn us e) = foldl pd_estimate_step (pd_estimate_us e) us"
  by (induction us arbitrary: e)
    (simp_all add: pd_learn_def pd_estimate_step_eq pd_accepts_def)

text \<open>
  The estimate used to predict T3 stays inside the window of accepted samples whatever is
  measured.
\<close>

lemma patch_delay_bounded:
  "10 \<le> pd_estimate_us (fold pd_learn us patch_delay_init) \<and>
   pd_estimate_us (fold pd_learn us patch_delay_init) \<le> 500"
  unfolding pd_learn_fold
  by (rule patch_delay.learn_all_hull) (simp_all add: patch_delay_init_def pd_consts pd_accepts_def)

end
