(* ===== verification/TalkerTable.thy ===== *)
theory TalkerTable
  imports Prelude
begin

text \<open>
  \<open>components/ethernet/w5500_talker_table.h\<close>: the fixed table of talkers keyed on source MAC and
  EtherType, with eviction of the least active one. The abstract table is a map from keys to
  statistics; the lemmas show that \<open>note\<close> implements its update while there is room and what
  an eviction may drop.
\<close>

record talker_entry =
  te_used :: bool
  te_src_mac :: "u8 list"
  te_ethertype :: u16
  te_first_dst_mac :: "u8 list"
  te_frames :: u32
  te_burst_frames :: u32
  te_bytes :: u32
  te_first_us :: u32
  te_last_us :: u32

record talker =
  tk_src_mac :: "u8 list"
  tk_ethertype :: u16
  tk_first_dst_mac :: "u8 list"
  tk_frames :: u32
  tk_burst_frames :: u32
  tk_bytes :: u32
  tk_first_us :: u32
  tk_last_us :: u32

type_synonym talker_table = "talker_entry list"

definition TT_SIZE :: nat where "TT_SIZE = 32"

definition talker_entry_init :: talker_entry where
  "talker_entry_init = \<lparr>te_used = False, te_src_mac = replicate 6 0, te_ethertype = 0,
     te_first_dst_mac = replicate 6 0, te_frames = 0, te_burst_frames = 0, te_bytes = 0,
     te_first_us = 0, te_last_us = 0\<rparr>"

definition tt_clear :: talker_table where
  "tt_clear = replicate TT_SIZE talker_entry_init"

text \<open>\<open>for (i = 0; i < SIZE; i++) if (p(entries[i])) return i; return -1;\<close>\<close>

fun first_index :: "('a \<Rightarrow> bool) \<Rightarrow> 'a list \<Rightarrow> nat option" where
  "first_index P [] = None"
| "first_index P (x # xs) = (if P x then Some 0 else map_option Suc (first_index P xs))"

definition tt_find :: "u8 list \<Rightarrow> u16 \<Rightarrow> talker_table \<Rightarrow> nat option" where
  "tt_find src ethertype t =
     first_index (\<lambda>e. te_used e \<and> te_ethertype e = ethertype \<and> te_src_mac e = take 6 src) t"

definition less_active :: "talker_entry \<Rightarrow> talker_entry \<Rightarrow> bool" where
  "less_active e f \<longleftrightarrow> te_frames e < te_frames f \<or>
     te_frames e = te_frames f \<and> te_last_us e < te_last_us f"

definition tt_victim :: "talker_table \<Rightarrow> nat" where
  "tt_victim t = foldl (\<lambda>idx i. if less_active (t ! i) (t ! idx) then i else idx) 0 [1..<TT_SIZE]"

definition tt_room :: "talker_table \<Rightarrow> nat" where
  "tt_room t = (case first_index (\<lambda>e. \<not> te_used e) t of Some i \<Rightarrow> i | None \<Rightarrow> tt_victim t)"

definition tt_fresh :: "u8 list \<Rightarrow> u8 list \<Rightarrow> u16 \<Rightarrow> u32 \<Rightarrow> talker_entry" where
  "tt_fresh src dst ethertype now_us =
     talker_entry_init\<lparr>te_used := True, te_src_mac := take 6 src, te_ethertype := ethertype,
       te_first_dst_mac := take 6 dst, te_first_us := now_us, te_last_us := now_us\<rparr>"

definition tt_make_room ::
  "u8 list \<Rightarrow> u8 list \<Rightarrow> u16 \<Rightarrow> u32 \<Rightarrow> talker_table \<Rightarrow> talker_table \<times> nat" where
  "tt_make_room src dst ethertype now_us t =
     (let idx = tt_room t in (t[idx := tt_fresh src dst ethertype now_us], idx))"

definition tt_count :: "u32 \<Rightarrow> u32 \<Rightarrow> bool \<Rightarrow> talker_entry \<Rightarrow> talker_entry" where
  "tt_count len now_us burst e = e\<lparr>te_frames := te_frames e + 1,
     te_burst_frames := (if burst then te_burst_frames e + 1 else te_burst_frames e),
     te_bytes := te_bytes e + len, te_last_us := now_us\<rparr>"

definition tt_note ::
  "u8 list \<Rightarrow> u8 list \<Rightarrow> u16 \<Rightarrow> u32 \<Rightarrow> u32 \<Rightarrow> bool \<Rightarrow> talker_table \<Rightarrow> talker_table" where
  "tt_note src dst ethertype len now_us burst t =
     (let (t', idx) = (case tt_find src ethertype t of
          Some i \<Rightarrow> (t, i)
        | None \<Rightarrow> tt_make_room src dst ethertype now_us t)
      in t'[idx := tt_count len now_us burst (t' ! idx)])"

definition tt_get :: "int \<Rightarrow> talker_table \<Rightarrow> talker option" where
  "tt_get i t =
     (if i < 0 \<or> i \<ge> int TT_SIZE \<or> \<not> te_used (t ! nat i) then None
      else let e = t ! nat i in
        Some \<lparr>tk_src_mac = te_src_mac e, tk_ethertype = te_ethertype e,
          tk_first_dst_mac = te_first_dst_mac e, tk_frames = te_frames e,
          tk_burst_frames = te_burst_frames e, tk_bytes = te_bytes e,
          tk_first_us = te_first_us e, tk_last_us = te_last_us e\<rparr>)"

subsection \<open>The loops\<close>

lemma first_index_Some:
  "first_index P xs = Some i \<Longrightarrow> i < length xs \<and> P (xs ! i) \<and> (\<forall>j < i. \<not> P (xs ! j))"
  by (induction xs arbitrary: i) (auto split: if_splits simp: less_Suc_eq_0_disj)

lemma first_index_None: "first_index P xs = None \<longleftrightarrow> (\<forall>x \<in> set xs. \<not> P x)"
  by (induction xs) auto

lemma less_active_trans: "less_active a b \<Longrightarrow> less_active b c \<Longrightarrow> less_active a c"
  unfolding less_active_def by (auto dest: less_trans)

lemma less_active_total: "\<not> less_active a b \<Longrightarrow> \<not> less_active b c \<Longrightarrow> \<not> less_active a c"
  unfolding less_active_def by auto

lemma victim_upto:
  "0 < n \<Longrightarrow> let v = foldl (\<lambda>idx i. if less_active (t ! i) (t ! idx) then i else idx) 0 [1..<n] in
    v < n \<and> (\<forall>j < n. \<not> less_active (t ! j) (t ! v))"
proof (induction n)
  case (Suc n)
  show ?case
  proof (cases "n = 0")
    case True
    then show ?thesis by (simp add: less_active_def)
  next
    case False
    with Suc show ?thesis
      by (auto simp: Let_def less_Suc_eq less_active_def dest: less_active_trans less_active_total
          intro: less_active_total)
  qed
qed simp

lemma tt_victim: "tt_victim t < TT_SIZE \<and> (\<forall>j < TT_SIZE. \<not> less_active (t ! j) (t ! tt_victim t))"
  using victim_upto [of TT_SIZE t] by (simp add: tt_victim_def Let_def TT_SIZE_def del: upt_rec_numeral)

subsection \<open>The table as a map\<close>

type_synonym talker_key = "u8 list \<times> u16"

definition te_key :: "talker_entry \<Rightarrow> talker_key" where
  "te_key e = (te_src_mac e, te_ethertype e)"

definition tt_ok :: "talker_table \<Rightarrow> bool" where
  "tt_ok t \<longleftrightarrow> length t = TT_SIZE \<and>
     (\<forall>i < TT_SIZE. \<forall>j < TT_SIZE. te_used (t ! i) \<longrightarrow> te_used (t ! j) \<longrightarrow>
        te_key (t ! i) = te_key (t ! j) \<longrightarrow> i = j)"

definition tt_abs :: "talker_table \<Rightarrow> talker_key \<rightharpoonup> talker_entry" where
  "tt_abs t k = map_option ((!) t) (first_index (\<lambda>e. te_used e \<and> te_key e = k) t)"

lemma tt_find_key: "tt_find src eth t = first_index (\<lambda>e. te_used e \<and> te_key e = (take 6 src, eth)) t"
proof -
  have "(\<lambda>e. te_used e \<and> te_ethertype e = eth \<and> te_src_mac e = take 6 src) =
      (\<lambda>e. te_used e \<and> te_key e = (take 6 src, eth))"
    by (auto simp: te_key_def)
  then show ?thesis by (simp only: tt_find_def)
qed

lemma tt_abs_Some_iff:
  assumes "tt_ok t"
  shows "tt_abs t k = Some e \<longleftrightarrow> (\<exists>i < TT_SIZE. t ! i = e \<and> te_used e \<and> te_key e = k)"
proof
  assume "tt_abs t k = Some e"
  then show "\<exists>i < TT_SIZE. t ! i = e \<and> te_used e \<and> te_key e = k"
    using assms by (auto simp: tt_abs_def tt_ok_def dest!: first_index_Some)
next
  assume "\<exists>i < TT_SIZE. t ! i = e \<and> te_used e \<and> te_key e = k"
  then obtain i where i: "i < TT_SIZE" "t ! i = e" "te_used e" "te_key e = k" by blast
  then obtain j where j: "first_index (\<lambda>e. te_used e \<and> te_key e = k) t = Some j"
    using assms first_index_None [of "\<lambda>e. te_used e \<and> te_key e = k" t]
    by (cases "first_index (\<lambda>e. te_used e \<and> te_key e = k) t") (auto simp: tt_ok_def)
  from first_index_Some [OF j] have "j = i" using assms i unfolding tt_ok_def by metis
  with i j show "tt_abs t k = Some e" by (simp add: tt_abs_def)
qed

lemma tt_abs_None_iff:
  "tt_ok t \<Longrightarrow> tt_abs t k = None \<longleftrightarrow> (\<forall>i < TT_SIZE. te_used (t ! i) \<longrightarrow> te_key (t ! i) \<noteq> k)"
  by (simp add: tt_abs_def first_index_None tt_ok_def all_set_conv_all_nth)

lemma tt_ok_update:
  assumes "tt_ok t" "idx < TT_SIZE"
    and "\<And>j. j < TT_SIZE \<Longrightarrow> j \<noteq> idx \<Longrightarrow> te_used (t ! j) \<Longrightarrow> te_key (t ! j) \<noteq> te_key x"
  shows "tt_ok (t[idx := x])"
  using assms unfolding tt_ok_def by (auto simp: nth_list_update) metis+

lemma tt_abs_update:
  assumes ok: "tt_ok t" and "idx < TT_SIZE" "te_used x"
    and other: "\<And>j. j < TT_SIZE \<Longrightarrow> j \<noteq> idx \<Longrightarrow> te_used (t ! j) \<Longrightarrow> te_key (t ! j) \<noteq> te_key x"
  shows "tt_abs (t[idx := x]) =
    (if te_used (t ! idx) then (tt_abs t)(te_key (t ! idx) := None) else tt_abs t)(te_key x \<mapsto> x)"
proof
  fix k
  have ok': "tt_ok (t[idx := x])" by (rule tt_ok_update [OF ok assms(2)]) (rule other)
  have len: "length t = TT_SIZE" using ok by (simp add: tt_ok_def)
  have only: "\<And>j. j < TT_SIZE \<Longrightarrow> te_used (t ! j) \<Longrightarrow> te_used (t ! idx) \<Longrightarrow>
      te_key (t ! j) = te_key (t ! idx) \<Longrightarrow> j = idx"
    using ok assms(2) unfolding tt_ok_def by blast
  show "tt_abs (t[idx := x]) k =
      ((if te_used (t ! idx) then (tt_abs t)(te_key (t ! idx) := None) else tt_abs t)(te_key x \<mapsto> x)) k"
  proof (cases "k = te_key x")
    case True
    then show ?thesis
      using assms(2,3) len by (simp add: tt_abs_Some_iff [OF ok']) (metis nth_list_update_eq)
  next
    case False
    show ?thesis
    proof (cases "te_used (t ! idx) \<and> k = te_key (t ! idx)")
      case True
      have "te_key (t[idx := x] ! j) \<noteq> k" if "j < TT_SIZE" "te_used (t[idx := x] ! j)" for j
      proof (cases "j = idx")
        case True
        then show ?thesis using False len assms(2) by simp
      next
        case ne: False
        then show ?thesis using that only [of j] True by auto
      qed
      then have "tt_abs (t[idx := x]) k = None" unfolding tt_abs_None_iff [OF ok'] by blast
      with True False show ?thesis by simp
    next
      case kept: False
      have "tt_abs (t[idx := x]) k = Some e \<longleftrightarrow> tt_abs t k = Some e" for e
        using False kept len unfolding tt_abs_Some_iff [OF ok] tt_abs_Some_iff [OF ok']
        by (metis nth_list_update nth_list_update_neq)
      then have "tt_abs (t[idx := x]) k = tt_abs t k"
        by (metis option.exhaust)
      with False kept show ?thesis by auto
    qed
  qed
qed

lemma tt_count_key [simp]: "te_key (tt_count len now burst e) = te_key e"
  "te_used (tt_count len now burst e) = te_used e"
  by (simp_all add: tt_count_def te_key_def)

lemma tt_fresh_key [simp]: "te_key (tt_fresh src dst eth now) = (take 6 src, eth)"
  "te_used (tt_fresh src dst eth now)"
  by (simp_all add: tt_fresh_def te_key_def)

text \<open>The abstract update of one frame.\<close>

definition note_spec ::
  "u8 list \<Rightarrow> u8 list \<Rightarrow> u16 \<Rightarrow> u32 \<Rightarrow> u32 \<Rightarrow> bool \<Rightarrow> (talker_key \<rightharpoonup> talker_entry) \<Rightarrow>
   (talker_key \<rightharpoonup> talker_entry)" where
  "note_spec src dst eth len now burst m =
     m((take 6 src, eth) \<mapsto> tt_count len now burst
        (case m (take 6 src, eth) of Some e \<Rightarrow> e | None \<Rightarrow> tt_fresh src dst eth now))"

lemma tt_note_found:
  assumes "tt_ok t" "tt_abs t (take 6 src, eth) = Some e"
  shows "tt_ok (tt_note src dst eth len now burst t) \<and>
    tt_abs (tt_note src dst eth len now burst t) = note_spec src dst eth len now burst (tt_abs t)"
proof -
  from assms obtain i where i: "tt_find src eth t = Some i" "t ! i = e"
    by (auto simp: tt_abs_def tt_find_key)
  with first_index_Some [of _ t i] have u: "i < TT_SIZE" "te_used e" "te_key e = (take 6 src, eth)"
    using assms(1) by (auto simp: tt_find_key tt_ok_def)
  have other: "j < TT_SIZE \<Longrightarrow> j \<noteq> i \<Longrightarrow> te_used (t ! j) \<Longrightarrow> te_key (t ! j) \<noteq> te_key e" for j
    using assms(1) i u unfolding tt_ok_def by metis
  have n: "tt_note src dst eth len now burst t = t[i := tt_count len now burst e]"
    using i by (simp add: tt_note_def)
  show ?thesis
    using tt_abs_update [OF assms(1) u(1), of "tt_count len now burst e"]
      tt_ok_update [OF assms(1) u(1), of "tt_count len now burst e"] other u i assms(2)
    by (auto simp: n note_spec_def)
qed

lemma tt_note_new:
  assumes "tt_ok t" "tt_abs t (take 6 src, eth) = None"
  shows "tt_note src dst eth len now burst t =
      t[tt_room t := tt_count len now burst (tt_fresh src dst eth now)]"
    "tt_room t < TT_SIZE" "tt_ok (tt_note src dst eth len now burst t)"
    "tt_abs (tt_note src dst eth len now burst t) =
      (if te_used (t ! tt_room t) then (tt_abs t)(te_key (t ! tt_room t) := None) else tt_abs t)
        ((take 6 src, eth) \<mapsto> tt_count len now burst (tt_fresh src dst eth now))"
proof -
  show r: "tt_room t < TT_SIZE"
    using tt_victim [of t] assms(1)
    by (auto simp: tt_room_def tt_ok_def split: option.splits dest: first_index_Some)
  have "tt_find src eth t = None"
    using assms(2) by (simp add: tt_abs_def tt_find_key)
  then show n: "tt_note src dst eth len now burst t =
      t[tt_room t := tt_count len now burst (tt_fresh src dst eth now)]"
    using r assms(1) by (simp add: tt_note_def tt_make_room_def Let_def tt_ok_def)
  have other: "j < TT_SIZE \<Longrightarrow> te_used (t ! j) \<Longrightarrow> te_key (t ! j) \<noteq> (take 6 src, eth)" for j
    using assms(2) tt_abs_None_iff [OF assms(1)] by blast
  show "tt_ok (tt_note src dst eth len now burst t)"
    unfolding n by (rule tt_ok_update [OF assms(1) r]) (simp add: other)
  show "tt_abs (tt_note src dst eth len now burst t) =
      (if te_used (t ! tt_room t) then (tt_abs t)(te_key (t ! tt_room t) := None) else tt_abs t)
        ((take 6 src, eth) \<mapsto> tt_count len now burst (tt_fresh src dst eth now))"
    unfolding n by (subst tt_abs_update [OF assms(1) r]) (simp_all add: other)
qed

lemma tt_ok_distinct:
  assumes "tt_ok t"
  shows "distinct (map te_key (filter te_used t))"
proof -
  have "distinct (map te_key (filter te_used (drop n t)))" for n
  proof (induction "length t - n" arbitrary: n)
    case (Suc m)
    then have n: "n < length t" by simp
    have "te_key (t ! n) \<notin> te_key ` set (filter te_used (drop (Suc n) t))" if "te_used (t ! n)"
    proof
      assume "te_key (t ! n) \<in> te_key ` set (filter te_used (drop (Suc n) t))"
      then obtain i where "i < length (drop (Suc n) t)" "te_used (drop (Suc n) t ! i)" "te_key (drop (Suc n) t ! i) = te_key (t ! n)"
        by (auto simp: in_set_conv_nth)
      then have "te_used (t ! (Suc n + i))" "te_key (t ! (Suc n + i)) = te_key (t ! n)" "Suc n + i < length t" by auto
      with assms n that show False unfolding tt_ok_def by (metis add_Suc less_add_Suc1 less_irrefl)
    qed
    with Suc n show ?case by (subst Cons_nth_drop_Suc [symmetric]) auto
  qed simp
  from this [of 0] show ?thesis by simp
qed

lemma tt_note_ok: "tt_ok t \<Longrightarrow> tt_ok (tt_note src dst eth len now burst t)"
  using tt_note_found tt_note_new(3) by (cases "tt_abs t (take 6 src, eth)") blast+

text \<open>
  Eviction keeps the active talkers. Noting a new pair in a full table drops exactly one
  entry, no other entry has fewer frames or, with as many, an earlier last frame; every other
  entry is untouched and the new pair starts with this one frame.
\<close>

theorem eviction_drops_least_active:
  assumes "tt_ok t" "tt_abs t (take 6 src, eth) = None" "\<forall>i < TT_SIZE. te_used (t ! i)"
  shows "\<exists>k e. tt_abs t k = Some e \<and>
    (\<forall>k' e'. tt_abs t k' = Some e' \<longrightarrow> \<not> less_active e' e) \<and>
    tt_abs (tt_note src dst eth len now burst t) =
      (tt_abs t)(k := None, (take 6 src, eth) \<mapsto> tt_count len now burst (tt_fresh src dst eth now))"
proof -
  note new = tt_note_new [OF assms(1,2)]
  let ?e = "t ! tt_room t"
  have "first_index (\<lambda>e. \<not> te_used e) t = None"
    using assms(1,3) by (auto simp: first_index_None tt_ok_def in_set_conv_nth)
  then have v: "tt_room t = tt_victim t" by (simp add: tt_room_def)
  have "tt_abs t (te_key ?e) = Some ?e"
    using assms(1,3) new(2) by (auto simp: tt_abs_Some_iff)
  moreover have "\<not> less_active e' ?e" if "tt_abs t k' = Some e'" for k' e'
    using that tt_victim [of t] assms(1) by (auto simp: v tt_abs_Some_iff)
  moreover have "te_used ?e" using assms(3) new(2) by simp
  ultimately show ?thesis
    using new(4) [of dst len now burst] by (intro exI [of _ "te_key ?e"] exI [of _ ?e]) simp
qed

definition full_table :: talker_table where
  "full_table = map (\<lambda>i. tt_count 60 (of_nat i) False (tt_fresh [of_nat i, 0, 0, 0, 0, 0] [] 0x0800 0)) [0..<32]"

lemma full_table_nth: "i < 32 \<Longrightarrow> full_table ! i =
    tt_count 60 (of_nat i) False (tt_fresh [of_nat i, 0, 0, 0, 0, 0] [] 0x0800 0)"
  by (simp add: full_table_def del: upt_rec_numeral)

lemma full_table_ok: "tt_ok full_table"
proof -
  have "of_nat i = (of_nat j :: u8) \<Longrightarrow> i = j" if "i < 32" "j < 32" for i j
    using that by (simp add: word_of_nat_eq_iff take_bit_eq_mod)
  then show ?thesis
    by (simp add: tt_ok_def TT_SIZE_def full_table_nth) (simp add: full_table_def del: upt_rec_numeral)
qed

theorem eviction_drops_least_active_witness:
  "\<exists>k. tt_abs full_table k \<noteq> None \<and>
     tt_abs (tt_note (replicate 6 255) [] 0x0806 64 99 True full_table) k = None"
proof -
  let ?t' = "tt_note (replicate 6 255) [] 0x0806 64 99 True full_table"
  have "tt_abs full_table (take 6 (replicate 6 255), 0x0806) = None"
    by (simp add: tt_abs_None_iff [OF full_table_ok] TT_SIZE_def full_table_nth)
  moreover have "\<forall>i < TT_SIZE. te_used (full_table ! i)"
    by (simp add: TT_SIZE_def full_table_nth)
  ultimately obtain k e where k: "tt_abs full_table k = Some e" "tt_abs ?t' =
      (tt_abs full_table)(k := None, (take 6 (replicate 6 255), 0x0806) \<mapsto>
        tt_count 64 99 True (tt_fresh (replicate 6 255) [] 0x0806 99))"
    using eviction_drops_least_active [OF full_table_ok, of "replicate 6 255" "0x0806" "[]" 64 99 True]
    by blast
  moreover have "k \<noteq> (take 6 (replicate 6 255), 0x0806)"
    using k(1) \<open>tt_abs full_table (take 6 (replicate 6 255), 0x0806) = None\<close> by auto
  ultimately show ?thesis by (intro exI [of _ k]) simp
qed

subsection \<open>A recording without eviction counts exactly\<close>

record frame_note =
  fn_src :: "u8 list"
  fn_dst :: "u8 list"
  fn_ethertype :: u16
  fn_len :: u32
  fn_us :: u32
  fn_burst :: bool

definition fn_key :: "frame_note \<Rightarrow> talker_key" where
  "fn_key f = (take 6 (fn_src f), fn_ethertype f)"

definition note_frame :: "frame_note \<Rightarrow> talker_table \<Rightarrow> talker_table" where
  "note_frame f = tt_note (fn_src f) (fn_dst f) (fn_ethertype f) (fn_len f) (fn_us f) (fn_burst f)"

lemma tt_clear_ok: "tt_ok tt_clear"
  by (simp add: tt_ok_def tt_clear_def talker_entry_init_def TT_SIZE_def)

lemma tt_abs_clear: "tt_abs tt_clear = Map.empty"
proof
  fix k show "tt_abs tt_clear k = None"
    unfolding tt_abs_None_iff [OF tt_clear_ok] by (simp add: tt_clear_def talker_entry_init_def)
qed

lemma dom_used:
  assumes "tt_ok t" "\<forall>i < TT_SIZE. te_used (t ! i)"
  shows "card (dom (tt_abs t)) = TT_SIZE"
proof -
  have "dom (tt_abs t) = (\<lambda>i. te_key (t ! i)) ` {..<TT_SIZE}"
  proof (intro set_eqI iffI)
    fix k assume "k \<in> dom (tt_abs t)"
    then show "k \<in> (\<lambda>i. te_key (t ! i)) ` {..<TT_SIZE}"
      by (auto simp: tt_abs_Some_iff [OF assms(1)])
  next
    fix k assume "k \<in> (\<lambda>i. te_key (t ! i)) ` {..<TT_SIZE}"
    then have "tt_abs t k \<noteq> None" using assms by (auto simp: tt_abs_None_iff)
    then show "k \<in> dom (tt_abs t)" by (simp add: dom_def)
  qed
  moreover have "inj_on (\<lambda>i. te_key (t ! i)) {..<TT_SIZE}"
    using assms unfolding tt_ok_def inj_on_def by simp
  ultimately show ?thesis by (simp add: card_image)
qed

lemma note_frame_refines:
  assumes "tt_ok t" "fn_key f \<in> dom (tt_abs t) \<or> card (dom (tt_abs t)) < TT_SIZE"
  shows "tt_ok (note_frame f t) \<and> tt_abs (note_frame f t) =
    note_spec (fn_src f) (fn_dst f) (fn_ethertype f) (fn_len f) (fn_us f) (fn_burst f) (tt_abs t)"
proof (cases "tt_abs t (fn_key f)")
  case (Some e)
  then show ?thesis
    using tt_note_found [OF assms(1)] by (simp add: note_frame_def fn_key_def)
next
  case None
  then have "\<not> (\<forall>i < TT_SIZE. te_used (t ! i))"
    using assms dom_used by (metis domIff less_irrefl)
  then have "first_index (\<lambda>e. \<not> te_used e) t \<noteq> None"
    using assms(1) by (auto simp: first_index_None tt_ok_def)
  then have "\<not> te_used (t ! tt_room t)"
    by (auto simp: tt_room_def dest: first_index_Some)
  then show ?thesis
    using tt_note_new [OF assms(1), of "fn_src f" "fn_ethertype f"] None
    by (simp add: note_frame_def fn_key_def note_spec_def)
qed

lemma dom_note_spec:
  "dom (note_spec src dst eth len now burst m) = insert (take 6 src, eth) (dom m)"
  by (simp add: note_spec_def)

lemma room_for_next:
  assumes "card (fn_key ` set (fs @ [f])) \<le> TT_SIZE" "D = fn_key ` set fs"
  shows "fn_key f \<in> D \<or> card D < TT_SIZE"
proof (cases "fn_key f \<in> D")
  case False
  then have "card (fn_key ` set (fs @ [f])) = Suc (card D)" using assms(2) by simp
  with assms(1) show ?thesis by simp
qed simp

lemma card_keys_prefix:
  "card (fn_key ` set (fs @ [f])) \<le> n \<Longrightarrow> card (fn_key ` set fs) \<le> n"
  by (rule order_trans [OF card_mono]) auto

lemma note_frames_dom:
  "card (fn_key ` set fs) \<le> TT_SIZE \<Longrightarrow>
   tt_ok (fold note_frame fs tt_clear) \<and> dom (tt_abs (fold note_frame fs tt_clear)) = fn_key ` set fs"
proof (induction fs rule: rev_induct)
  case Nil
  then show ?case by (simp add: tt_clear_ok tt_abs_clear)
next
  case (snoc f fs)
  note IH = snoc.IH [OF card_keys_prefix [OF snoc.prems]]
  from note_frame_refines [OF conjunct1 [OF IH] room_for_next [OF snoc.prems conjunct2 [OF IH]]] IH
  show ?case by (simp add: dom_note_spec) (simp add: fn_key_def)
qed

lemma note_frames_step:
  assumes "card (fn_key ` set (fs @ [f])) \<le> TT_SIZE"
  shows "tt_abs (fold note_frame (fs @ [f]) tt_clear) = note_spec (fn_src f) (fn_dst f)
     (fn_ethertype f) (fn_len f) (fn_us f) (fn_burst f) (tt_abs (fold note_frame fs tt_clear))"
proof -
  note d = note_frames_dom [OF card_keys_prefix [OF assms]]
  from note_frame_refines [OF conjunct1 [OF d] room_for_next [OF assms conjunct2 [OF d]]]
  show ?thesis by simp
qed

text \<open>
  C39: As long as a recording meets at most 32 distinct pairs, the table is exact: it has an entry
  for precisely the pairs that occurred, and the entry holds the number of their frames, of
  their burst frames and of their bytes modulo \<open>2^32\<close>.
\<close>

theorem talkers_counted_exactly:
  assumes "card (fn_key ` set fs) \<le> 32"
  shows "case tt_abs (fold note_frame fs tt_clear) k of
      None \<Rightarrow> k \<notin> fn_key ` set fs
    | Some e \<Rightarrow> k \<in> fn_key ` set fs \<and>
        (let own = filter (\<lambda>f. fn_key f = k) fs in
         te_frames e = of_nat (length own) \<and>
         te_burst_frames e = of_nat (length (filter fn_burst own)) \<and>
         te_bytes e = sum_list (map fn_len own) \<and>
         te_first_us e = fn_us (hd own) \<and> te_last_us e = fn_us (last own))"
  using assms
proof (induction fs rule: rev_induct)
  case Nil
  then show ?case by (simp add: tt_abs_clear)
next
  case (snoc f fs)
  have c: "card (fn_key ` set fs) \<le> 32" by (rule card_keys_prefix [OF snoc.prems])
  have step: "tt_abs (fold note_frame (fs @ [f]) tt_clear) = note_spec (fn_src f) (fn_dst f)
     (fn_ethertype f) (fn_len f) (fn_us f) (fn_burst f) (tt_abs (fold note_frame fs tt_clear))"
    using snoc.prems by (intro note_frames_step) (simp add: TT_SIZE_def)
  show ?case
  proof (cases "tt_abs (fold note_frame fs tt_clear) k")
    case None
    then have "filter (\<lambda>f. fn_key f = k) fs = []" using snoc.IH [OF c] by (auto simp: filter_empty_conv)
    with None snoc.IH [OF c] show ?thesis
      unfolding step by (auto simp: note_spec_def fn_key_def tt_count_def tt_fresh_def
          talker_entry_init_def Let_def simp del: filter_filter)
  next
    case (Some e)
    then have "filter (\<lambda>f. fn_key f = k) fs \<noteq> []" using snoc.IH [OF c] by (auto simp: filter_empty_conv)
    with Some snoc.IH [OF c] show ?thesis
      unfolding step by (auto simp: note_spec_def fn_key_def tt_count_def Let_def simp del: filter_filter)
  qed
qed

theorem talkers_counted_exactly_witness:
  "let f = \<lparr>fn_src = [2, 0, 0, 0, 0, 1], fn_dst = [], fn_ethertype = 0x0800, fn_len = 90,
       fn_us = 5, fn_burst = True\<rparr> in
   case tt_abs (fold note_frame [f, f\<lparr>fn_us := 8\<rparr>] tt_clear) ([2, 0, 0, 0, 0, 1], 0x0800) of
     None \<Rightarrow> False | Some e \<Rightarrow> te_frames e = 2 \<and> te_bytes e = 180 \<and> te_last_us e = 8"
proof -
  define f where "f = \<lparr>fn_src = [2, 0, 0, 0, 0, 1], fn_dst = [], fn_ethertype = 0x0800,
    fn_len = 90, fn_us = 5, fn_burst = True\<rparr>"
  have k: "fn_key f = ([2, 0, 0, 0, 0, 1], 0x0800)" "fn_key (f\<lparr>fn_us := 8\<rparr>) = fn_key f"
    by (simp_all add: f_def fn_key_def)
  then have "card (fn_key ` set [f, f\<lparr>fn_us := 8\<rparr>]) \<le> 32" by simp
  from talkers_counted_exactly [OF this, of "fn_key f"]
  have "case tt_abs (fold note_frame [f, f\<lparr>fn_us := 8\<rparr>] tt_clear) (fn_key f) of
      None \<Rightarrow> False | Some e \<Rightarrow> te_frames e = 2 \<and> te_bytes e = 180 \<and> te_last_us e = 8"
    by (auto simp: k(2) Let_def split: option.splits) (simp_all add: f_def)
  then show ?thesis
    unfolding Let_def f_def [symmetric] k(1) .
qed

end
