(* ===== verification/NetRecorder.thy ===== *)
theory NetRecorder
  imports TxPatch TalkerTable
begin

text \<open>
  The network recorder of \<open>components/ethernet/w5500_custom_spi.{h,cpp}\<close>: the coarse class of a
  frame, the ring of 100 ms bins and the talker table fed from it. A read past the frame is
  \<open>None\<close>, as in the patch planner.
\<close>

subsection \<open>Frame classes\<close>

datatype frame_class = FC_API | FC_HTTP | FC_NTP | FC_MDNS | FC_ARP | FC_TCP | FC_UDP | FC_IPV6 | FC_OTHER

fun fc_code :: "frame_class \<Rightarrow> nat" where
  "fc_code FC_API = 0"
| "fc_code FC_HTTP = 1"
| "fc_code FC_NTP = 2"
| "fc_code FC_MDNS = 3"
| "fc_code FC_ARP = 4"
| "fc_code FC_TCP = 5"
| "fc_code FC_UDP = 6"
| "fc_code FC_IPV6 = 7"
| "fc_code FC_OTHER = 8"

definition FC_COUNT :: nat where "FC_COUNT = 9"

lemma fc_code_less: "fc_code c < FC_COUNT"
  by (cases c) (simp_all add: FC_COUNT_def)

lemma fc_code_inject: "fc_code c = fc_code d \<longleftrightarrow> c = d"
  by (cases c; cases d) simp_all

instantiation frame_class :: linorder
begin

definition less_eq_frame_class :: "frame_class \<Rightarrow> frame_class \<Rightarrow> bool" where
  "less_eq_frame_class c d \<longleftrightarrow> fc_code c \<le> fc_code d"

definition less_frame_class :: "frame_class \<Rightarrow> frame_class \<Rightarrow> bool" where
  "less_frame_class c d \<longleftrightarrow> fc_code c < fc_code d"

instance
  by standard (auto simp: less_eq_frame_class_def less_frame_class_def fc_code_inject
      dest: le_antisym)

end

definition classify_ports :: "u8 \<Rightarrow> u16 \<Rightarrow> u16 \<Rightarrow> frame_class" where
  "classify_ports proto src dst =
     (let uses = (\<lambda>port. src = port \<or> dst = port) in
      if proto = 6 then (if uses 6053 then FC_API else if uses 80 then FC_HTTP else FC_TCP)
      else if proto = 17 then (if uses 123 then FC_NTP else if uses 5353 then FC_MDNS else FC_UDP)
      else FC_OTHER)"

text \<open>\<open>None\<close> for the frame is the null pointer; \<open>None\<close> for the result an out-of-bounds read.\<close>

definition classify_frame :: "u8 list option \<Rightarrow> frame_class option" where
  "classify_frame frame = (case frame of None \<Rightarrow> Some FC_OTHER
    | Some f \<Rightarrow>
       (if length f < 14 then Some FC_OTHER
        else do {
          ethertype \<leftarrow> rd16 f 12;
          if ethertype = 0x0806 then Some FC_ARP
          else if ethertype = 0x86DD then Some FC_IPV6
          else if ethertype \<noteq> 0x0800 \<or> length f < 14 + 20 then Some FC_OTHER
          else do {
            ver_ihl \<leftarrow> rd f 14;
            let ihl = unat (ver_ihl AND 0x0F) * 4;
            if ihl < 20 \<or> length f < 14 + ihl + 4 then Some FC_OTHER
            else do {
              proto \<leftarrow> rd f (14 + 9);
              src \<leftarrow> rd16 f (14 + ihl);
              dst \<leftarrow> rd16 f (14 + ihl + 2);
              Some (classify_ports proto src dst)
            }
          }
        }))"

lemma classify_frame_total: "\<exists>c. classify_frame f = Some c"
  by (auto simp: classify_frame_def Let_def split: option.split)

lemma classify_reply:
  assumes "is_ntp_reply f port"
  shows "classify_frame (Some f) =
    Some (classify_ports 17 port (be16 (f ! (udp_start f + 2)) (f ! (udp_start f + 3))))"
proof -
  have l: "34 \<le> length f" "be16 (f ! 12) (f ! 13) = 0x0800" "5 \<le> unat (f ! 14 AND 0x0F)"
    "udp_start f + 56 \<le> length f" "f ! 23 = 17" "be16 (f ! udp_start f) (f ! (udp_start f + 1)) = port"
    using assms by (simp_all add: is_ntp_reply_def)
  moreover have "14 + unat (f ! 14 AND 0x0F) * 4 = udp_start f" by (simp add: udp_start_def)
  ultimately show ?thesis by (simp add: classify_frame_def Let_def numeral_3_eq_3)
qed

text \<open>
  The classifier never reads outside the frame, and it recognises the server's own reply
  only on port 123. On that port every frame the patch planner accepts is of class NTP; served
  from any other port the same reply, sent to a client that does not itself use port 123, is
  of another class, so the post-send learning that requires class NTP never runs.
\<close>

theorem classify_own_reply:
  "(\<exists>c. classify_frame g = Some c) \<and>
   (is_ntp_reply f 123 \<longrightarrow> classify_frame (Some f) = Some FC_NTP) \<and>
   (is_ntp_reply f port \<and> port \<noteq> 123 \<and>
      be16 (f ! (udp_start f + 2)) (f ! (udp_start f + 3)) \<noteq> 123 \<longrightarrow>
    classify_frame (Some f) \<in> {Some FC_MDNS, Some FC_UDP})"
  using classify_frame_total classify_reply [of f port] classify_reply [of f 123]
  by (auto simp: classify_ports_def)

definition sample_reply :: "u16 \<Rightarrow> u16 \<Rightarrow> u8 list" where
  "sample_reply src dst = replicate 12 0 @ [0x08, 0, 0x45] @ replicate 8 0 @ [17] @ replicate 10 0 @
     [hi8 src, lo8 src, hi8 dst, lo8 dst, 0, 56, 0, 0] @ [0x24] @ replicate 47 0"

lemma sample_reply_ok: "is_ntp_reply (sample_reply 1123 40000) 1123" "is_ntp_reply (sample_reply 123 40000) 123"
  by code_simp+

theorem classify_own_reply_witness:
  "classify_frame (Some (sample_reply 123 40000)) = Some FC_NTP \<and>
   classify_frame (Some (sample_reply 1123 40000)) \<in> {Some FC_MDNS, Some FC_UDP}"
proof -
  have "be16 (sample_reply 1123 40000 ! (udp_start (sample_reply 1123 40000) + 2))
      (sample_reply 1123 40000 ! (udp_start (sample_reply 1123 40000) + 3)) \<noteq> 123"
    by code_simp
  then show ?thesis
    using classify_own_reply [of None "sample_reply 123 40000" 123]
      classify_own_reply [of None "sample_reply 1123 40000" 1123] sample_reply_ok by simp
qed

subsection \<open>The ring of bins\<close>

record net_bin =
  nb_start_us :: u32
  nb_tx :: "u16 list"
  nb_rx :: "u16 list"
  nb_tx_bytes :: u32
  nb_rx_bytes :: u32
  nb_lock_wait_max_us :: u32
  nb_cr_retried :: u16

record net_recorder =
  nr_enabled :: bool
  nr_bins :: "net_bin list option"
  nr_cur :: nat
  nr_cur_start_us :: u32
  nr_talkers :: talker_table

definition NET_BIN_US :: u32 where "NET_BIN_US = 100000"
definition NET_BINS :: nat where "NET_BINS = 1200"

definition net_bin_zero :: net_bin where
  "net_bin_zero = \<lparr>nb_start_us = 0, nb_tx = replicate FC_COUNT 0, nb_rx = replicate FC_COUNT 0,
     nb_tx_bytes = 0, nb_rx_bytes = 0, nb_lock_wait_max_us = 0, nb_cr_retried = 0\<rparr>"

definition net_recorder_init :: net_recorder where
  "net_recorder_init = \<lparr>nr_enabled = False, nr_bins = None, nr_cur = 0, nr_cur_start_us = 0,
     nr_talkers = tt_clear\<rparr>"

lemma roll_measure: "now - start \<ge> NET_BIN_US \<Longrightarrow>
  unat (now - (start + NET_BIN_US)) + 100000 = unat (now - start)"
proof -
  assume a: "now - start \<ge> NET_BIN_US"
  have "unat (now - start - NET_BIN_US) = unat (now - start) - unat NET_BIN_US"
    by (rule unat_sub [OF a])
  moreover have "unat NET_BIN_US \<le> unat (now - start)" using a by (simp add: word_le_nat_alt)
  ultimately show ?thesis by (simp add: NET_BIN_US_def diff_diff_eq)
qed

text \<open>The loop that rolls the ring over the bins that elapsed.\<close>

function roll_bins :: "u32 \<Rightarrow> net_bin list \<Rightarrow> nat \<Rightarrow> u32 \<Rightarrow> net_bin list \<times> nat \<times> u32" where
  "roll_bins now_us bins cur start =
     (if now_us - start \<ge> NET_BIN_US then
        let cur = (cur + 1) mod NET_BINS; start = start + NET_BIN_US in
        roll_bins now_us (bins[cur := net_bin_zero\<lparr>nb_start_us := start\<rparr>]) cur start
      else (bins, cur, start))"
  by pat_completeness auto

termination
  by (relation "measure (\<lambda>(now, bins, cur, start). unat (now - start))")
    (auto dest!: roll_measure)

declare roll_bins.simps [simp del]

definition net_bin_now :: "u32 \<Rightarrow> net_bin list \<Rightarrow> net_recorder \<Rightarrow> net_recorder" where
  "net_bin_now now_us bins r =
     (if nr_cur_start_us r = 0 \<or> now_us - nr_cur_start_us r \<ge> NET_BIN_US * of_nat NET_BINS then
        r\<lparr>nr_bins := Some ((replicate NET_BINS net_bin_zero)[0 := net_bin_zero\<lparr>nb_start_us := now_us\<rparr>]),
          nr_cur := 0, nr_cur_start_us := now_us\<rparr>
      else let (bins, cur, start) = roll_bins now_us bins (nr_cur r) (nr_cur_start_us r) in
        r\<lparr>nr_bins := Some bins, nr_cur := cur, nr_cur_start_us := start\<rparr>)"

definition update_cur_bin :: "(net_bin \<Rightarrow> net_bin) \<Rightarrow> net_recorder \<Rightarrow> net_recorder" where
  "update_cur_bin f r = (case nr_bins r of None \<Rightarrow> r
    | Some bins \<Rightarrow> r\<lparr>nr_bins := Some (bins[nr_cur r := f (bins ! nr_cur r)])\<rparr>)"

definition sat_inc :: "u16 \<Rightarrow> u16" where
  "sat_inc c = (if c < 65535 then c + 1 else c)"

definition count_frame :: "bool \<Rightarrow> frame_class \<Rightarrow> u32 \<Rightarrow> net_bin \<Rightarrow> net_bin" where
  "count_frame tx cls len b =
     (if tx then b\<lparr>nb_tx := (nb_tx b)[fc_code cls := sat_inc (nb_tx b ! fc_code cls)],
                   nb_tx_bytes := nb_tx_bytes b + len\<rparr>
      else b\<lparr>nb_rx := (nb_rx b)[fc_code cls := sat_inc (nb_rx b ! fc_code cls)],
             nb_rx_bytes := nb_rx_bytes b + len\<rparr>)"

text \<open>
  \<open>net_record_frame\<close>; the frame is its bytes, or \<open>None\<close> with a length for a null pointer.
\<close>

definition net_record_frame ::
  "bool \<Rightarrow> u8 list option \<Rightarrow> u32 \<Rightarrow> u32 \<Rightarrow> net_recorder \<Rightarrow> net_recorder" where
  "net_record_frame tx frame len now_us r =
     (case nr_bins r of None \<Rightarrow> r
      | Some bins \<Rightarrow>
         (if \<not> nr_enabled r then r
          else
            let cls = the (classify_frame frame);
                r = update_cur_bin (count_frame tx cls len) (net_bin_now now_us bins r) in
            case frame of None \<Rightarrow> r
            | Some f \<Rightarrow>
               (if \<not> tx \<and> 14 \<le> length f \<and> f ! 0 AND 1 \<noteq> 0 then
                  let rx_total = sum_list (map ucast (nb_rx (the (nr_bins r) ! nr_cur r))) :: u32;
                      burst = rx_total > 30;
                      ethertype = be16 (f ! 12) (f ! 13) in
                  r\<lparr>nr_talkers := tt_note (drop 6 f) f ethertype len now_us burst (nr_talkers r)\<rparr>
                else r)))"

definition net_record_lock_wait :: "u32 \<Rightarrow> u32 \<Rightarrow> net_recorder \<Rightarrow> net_recorder" where
  "net_record_lock_wait wait_us now_us r =
     (case nr_bins r of None \<Rightarrow> r
      | Some bins \<Rightarrow> if \<not> nr_enabled r then r
          else update_cur_bin (\<lambda>b. if wait_us > nb_lock_wait_max_us b
              then b\<lparr>nb_lock_wait_max_us := wait_us\<rparr> else b) (net_bin_now now_us bins r))"

definition net_record_cr_retry :: "u32 \<Rightarrow> net_recorder \<Rightarrow> net_recorder" where
  "net_record_cr_retry now_us r =
     (case nr_bins r of None \<Rightarrow> r
      | Some bins \<Rightarrow> if \<not> nr_enabled r then r
          else update_cur_bin (\<lambda>b. b\<lparr>nb_cr_retried := sat_inc (nb_cr_retried b)\<rparr>)
            (net_bin_now now_us bins r))"

text \<open>\<open>alloc\<close> says whether the first enable gets memory for the bins.\<close>

definition set_net_recorder :: "bool \<Rightarrow> bool \<Rightarrow> net_recorder \<Rightarrow> net_recorder" where
  "set_net_recorder alloc enable r =
     (if enable \<and> nr_bins r = None \<and> \<not> alloc then r
      else
        let r = (if enable \<and> nr_bins r = None
              then r\<lparr>nr_bins := Some (replicate NET_BINS net_bin_zero), nr_cur := 0, nr_cur_start_us := 0\<rparr>
              else r);
            r = r\<lparr>nr_enabled := (enable \<and> nr_bins r \<noteq> None)\<rparr> in
        if nr_enabled r then r\<lparr>nr_talkers := tt_clear\<rparr> else r)"

definition net_bin_get :: "nat \<Rightarrow> net_recorder \<Rightarrow> net_bin option" where
  "net_bin_get i r = (case nr_bins r of None \<Rightarrow> None
    | Some bins \<Rightarrow> if i \<ge> NET_BINS then None
        else let b = bins ! ((nr_cur r + 1 + i) mod NET_BINS) in
          if nb_start_us b \<noteq> 0 then Some b else None)"

lemma roll_bins_covers:
  assumes "roll_bins now bins cur start = (bins', cur', start')" "cur < NET_BINS" "length bins = NET_BINS"
  shows "now - start' < NET_BIN_US \<and> cur' < NET_BINS \<and> length bins' = NET_BINS"
  using assms
proof (induction now bins cur start rule: roll_bins.induct)
  case (1 now bins cur start)
  show ?case
  proof (cases "now - start \<ge> NET_BIN_US")
    case True
    have "roll_bins now (bins[(cur + 1) mod NET_BINS := net_bin_zero\<lparr>nb_start_us := start + NET_BIN_US\<rparr>])
        ((cur + 1) mod NET_BINS) (start + NET_BIN_US) = (bins', cur', start')"
      using 1(2) True by (simp add: roll_bins.simps [of now bins] Let_def)
    with 1(1) [OF True refl refl] 1(4) show ?thesis by (simp add: NET_BINS_def)
  next
    case False
    with 1(2-4) show ?thesis by (auto simp: roll_bins.simps [of now bins] not_le)
  qed
qed

definition nr_ok :: "net_recorder \<Rightarrow> bool" where
  "nr_ok r \<longleftrightarrow> nr_cur r < NET_BINS \<and> (\<forall>bins. nr_bins r = Some bins \<longrightarrow> length bins = NET_BINS)"

text \<open>The current bin covers the present instant, and the ring stays well formed.\<close>

lemma net_bin_now_covers:
  assumes "nr_ok r" "nr_bins r = Some bins"
  shows "nr_ok (net_bin_now now bins r) \<and> now - nr_cur_start_us (net_bin_now now bins r) < NET_BIN_US"
proof -
  obtain b c s where b: "roll_bins now bins (nr_cur r) (nr_cur_start_us r) = (b, c, s)"
    by (metis prod_cases3)
  from roll_bins_covers [OF b] assms have "now - s < NET_BIN_US \<and> c < NET_BINS \<and> length b = NET_BINS"
    by (simp add: nr_ok_def)
  then show ?thesis
    by (simp add: net_bin_now_def b nr_ok_def Let_def NET_BINS_def NET_BIN_US_def)
qed

end
