(* ===== verification/W5500Spi.thy ===== *)
theory W5500Spi
  imports NetRecorder
begin

text \<open>
  \<open>components/ethernet/w5500_custom_spi.{h,cpp}\<close>: the SPI callbacks of the Ethernet driver with
  the taps that stamp receive bursts and SEND commands, and the patch that rewrites the transmit
  timestamp in the chip's buffer just before SEND. The chip is the ring memory of its transmit
  buffer and its interrupt level, as its data sheet describes them; whether the n-th SPI transfer
  succeeds, how long it waited for the lock and what the clock showed are an oracle, so every
  failure pattern is covered. The registered callback is an argument of the write.
\<close>

subsection \<open>Addresses\<close>

definition CTRL_S0_REG_READ :: u8 where "CTRL_S0_REG_READ = 0x08"
definition CTRL_S0_REG_WRITE :: u8 where "CTRL_S0_REG_WRITE = 0x0C"
definition CTRL_S0_RXBUF_READ :: u8 where "CTRL_S0_RXBUF_READ = 0x18"
definition CTRL_S0_TXBUF_WRITE :: u8 where "CTRL_S0_TXBUF_WRITE = 0x14"
definition CTRL_COMMON_READ :: u8 where "CTRL_COMMON_READ = 0x00"
definition CTRL_COMMON_WRITE :: u8 where "CTRL_COMMON_WRITE = 0x04"
definition REG_SN_RX_RSR :: u16 where "REG_SN_RX_RSR = 0x0026"
definition REG_SN_CR :: u16 where "REG_SN_CR = 0x0001"
definition REG_SN_IR :: u16 where "REG_SN_IR = 0x0002"
definition REG_INTLEVEL :: u16 where "REG_INTLEVEL = 0x0013"
definition CMD_SEND :: u8 where "CMD_SEND = 0x20"
definition SN_IR_SEND_OK :: u8 where "SN_IR_SEND_OK = 0x10"
definition BURST_GAP_US :: u32 where "BURST_GAP_US = 500"
definition TX_PATCH_HDR_MAX :: nat where "TX_PATCH_HDR_MAX = 128"

lemmas w5500_consts = CTRL_S0_REG_READ_def CTRL_S0_REG_WRITE_def CTRL_S0_RXBUF_READ_def
  CTRL_S0_TXBUF_WRITE_def CTRL_COMMON_READ_def CTRL_COMMON_WRITE_def REG_SN_RX_RSR_def
  REG_SN_CR_def REG_SN_IR_def REG_INTLEVEL_def CMD_SEND_def SN_IR_SEND_OK_def BURST_GAP_US_def
  TX_PATCH_HDR_MAX_def

subsection \<open>State\<close>

record w5500 =
  w_rx_size_read_us :: u32
  w_rx_payload_us :: u32
  w_rx_payloads_since_size_read :: u32
  w_burst_start_us :: u32
  w_last_txn_us :: u32
  w_send_cmd_us :: u32
  w_send_cmd_seq :: u32
  w_sendok_us :: u32
  w_sendok_seq :: u32
  w_last_tx_class :: frame_class
  w_send_cmd_class :: frame_class
  w_last_tx_start_us :: u32
  w_last_tx_end_us :: u32
  w_send_txbuf_start_us :: u32
  w_send_txbuf_end_us :: u32
  w_rx_size_value :: u16
  w_int_edge_us :: u32
  w_int_edge_seq :: u32
  w_spi_ctx :: bool
  w_driver_int_level :: u16
  w_driver_int_level_seen :: bool
  w_patch_fn :: bool
  w_patch_port :: u16
  w_hdr :: "u8 list"
  w_frame_start :: u16
  w_frame_started :: bool
  w_patch_us :: u32
  w_patched :: bool
  w_cr_write_us :: u32
  w_cr_polls :: u32
  w_cr_pending :: bool
  w_cr_commands :: u32
  w_cr_retried :: u32
  w_cr_max_us :: u32
  w_cr_overlaps :: u32
  w_net :: net_recorder
  ch_tx_mem :: "nat \<Rightarrow> u8"
  ch_int_level :: u16
  ch_xfers :: nat

definition w5500_init :: w5500 where
  "w5500_init = \<lparr>w_rx_size_read_us = 0, w_rx_payload_us = 0, w_rx_payloads_since_size_read = 0,
     w_burst_start_us = 0, w_last_txn_us = 0, w_send_cmd_us = 0, w_send_cmd_seq = 0,
     w_sendok_us = 0, w_sendok_seq = 0, w_last_tx_class = FC_OTHER, w_send_cmd_class = FC_OTHER,
     w_last_tx_start_us = 0, w_last_tx_end_us = 0, w_send_txbuf_start_us = 0,
     w_send_txbuf_end_us = 0, w_rx_size_value = 0, w_int_edge_us = 0, w_int_edge_seq = 0,
     w_spi_ctx = False, w_driver_int_level = 0, w_driver_int_level_seen = False,
     w_patch_fn = False, w_patch_port = 0, w_hdr = [], w_frame_start = 0, w_frame_started = False,
     w_patch_us = 0, w_patched = False, w_cr_write_us = 0, w_cr_polls = 0, w_cr_pending = False,
     w_cr_commands = 0, w_cr_retried = 0, w_cr_max_us = 0, w_cr_overlaps = 0,
     w_net = net_recorder_init, ch_tx_mem = (\<lambda>_. 0), ch_int_level = 0xFFFF, ch_xfers = 0\<rparr>"

text \<open>The outcome of the n-th SPI transfer, and the clock readings inside it.\<close>

record spi_env =
  se_ok :: "nat \<Rightarrow> bool"
  se_wait_us :: "nat \<Rightarrow> u32"
  se_now_us :: "nat \<Rightarrow> u32"

text \<open>The clock readings of one callback.\<close>

record spi_call =
  sc_now_us :: u32
  sc_patch_us :: u32
  sc_send_us :: u32
  sc_record_us :: u32
  sc_start_us :: u32
  sc_end_us :: u32

subsection \<open>Transfers\<close>

definition spi_transfer :: "spi_env \<Rightarrow> (w5500 \<Rightarrow> w5500) \<Rightarrow> w5500 \<Rightarrow> w5500 \<times> bool" where
  "spi_transfer env eff s =
     (let n = ch_xfers s; s = s\<lparr>ch_xfers := n + 1\<rparr> in
      if \<not> se_ok env n then (s, False)
      else (eff (s\<lparr>w_net := net_record_lock_wait (se_wait_us env n) (se_now_us env n) (w_net s)\<rparr>), True))"

definition patch_one :: "spi_env \<Rightarrow> u8 list \<Rightarrow> w5500 \<times> bool \<Rightarrow> ring_write \<Rightarrow> w5500 \<times> bool" where
  "patch_one env src st w =
     (let (s, okay) = spi_transfer env (\<lambda>s. s\<lparr>ch_tx_mem := ring_store src (ch_tx_mem s) w\<rparr>) (fst st) in
      (s, snd st \<and> okay))"

definition patch_write_ring ::
  "spi_env \<Rightarrow> u16 \<Rightarrow> u16 \<Rightarrow> u8 list \<Rightarrow> u16 \<Rightarrow> w5500 \<Rightarrow> w5500 \<times> bool" where
  "patch_write_ring env frame_start rel_off src n s =
     foldl (patch_one env src) (s, True) (plan_ring_writes frame_start rel_off n)"

subsection \<open>The SEND command\<close>

text \<open>Rewriting T3 and the checksum; the result says whether the reply counts as patched.\<close>

definition rewrite_reply ::
  "spi_env \<Rightarrow> ntp_tx_patch_plan \<Rightarrow> u8 list \<Rightarrow> w5500 \<Rightarrow> w5500 \<times> bool" where
  "rewrite_reply env plan t3 s =
     (let (s, t3_ok) = patch_write_ring env (w_frame_start s) (of_nat (t3_off plan)) t3 8 s in
      if t3_ok \<and> csum_present plan then
        let new_csum = udp_csum_update (old_csum plan) (old_t3 plan) t3;
            csum_bytes = [hi8 new_csum, lo8 new_csum];
            (s, csum_ok) = patch_write_ring env (w_frame_start s) (of_nat (csum_off plan)) csum_bytes 2 s;
            s = (if \<not> csum_ok
              then fst (patch_write_ring env (w_frame_start s) (of_nat (t3_off plan)) (old_t3 plan) 8 s)
              else s) in
        (s, csum_ok)
      else (s, t3_ok))"

definition try_patch ::
  "spi_env \<Rightarrow> spi_call \<Rightarrow> (u32 \<Rightarrow> u8 list option) \<Rightarrow> w5500 \<Rightarrow> w5500 \<times> u32 \<times> bool" where
  "try_patch env call fn s =
     (if w_patch_fn s \<and> w_frame_started s then
        let plan = the (plan_ntp_tx_patch (w_hdr s) (w_patch_port s)) in
        if ok plan then
          (case fn (sc_patch_us call) of None \<Rightarrow> (s, sc_patch_us call, False)
           | Some t3 \<Rightarrow> (let (s, patched) = rewrite_reply env plan t3 s in
               (s, sc_patch_us call, patched)))
        else (s, 0, False)
      else (s, 0, False))"

definition on_send ::
  "spi_env \<Rightarrow> spi_call \<Rightarrow> (u32 \<Rightarrow> u8 list option) \<Rightarrow> w5500 \<Rightarrow> w5500" where
  "on_send env call fn s =
     (let (s, patch_us_local, patched) = try_patch env call fn s in
      s\<lparr>w_frame_started := False, w_hdr := [],
        w_send_cmd_class := w_last_tx_class s,
        w_send_txbuf_start_us := w_last_tx_start_us s,
        w_send_txbuf_end_us := w_last_tx_end_us s,
        w_patch_us := patch_us_local, w_patched := patched,
        w_send_cmd_us := sc_send_us call, w_send_cmd_seq := w_send_cmd_seq s + 1\<rparr>)"

definition on_command ::
  "spi_env \<Rightarrow> spi_call \<Rightarrow> (u32 \<Rightarrow> u8 list option) \<Rightarrow> u8 \<Rightarrow> w5500 \<Rightarrow> w5500" where
  "on_command env call fn command s =
     (let s = (if command = CMD_SEND then on_send env call fn s else s);
          s = (if w_cr_pending s then s\<lparr>w_cr_overlaps := w_cr_overlaps s + 1\<rparr> else s) in
      s\<lparr>w_cr_write_us := sc_now_us call, w_cr_polls := 0, w_cr_pending := True\<rparr>)"

subsection \<open>A write into the transmit buffer\<close>

definition track_frame :: "u16 \<Rightarrow> u8 list \<Rightarrow> w5500 \<Rightarrow> w5500" where
  "track_frame cmd data s =
     (if w_patch_fn s then
        let s = (if \<not> w_frame_started s
              then s\<lparr>w_frame_start := cmd, w_hdr := [], w_frame_started := True\<rparr> else s);
            room = (if TX_PATCH_HDR_MAX > length (w_hdr s) then TX_PATCH_HDR_MAX - length (w_hdr s) else 0) in
        s\<lparr>w_hdr := w_hdr s @ take (min (length data) room) data\<rparr>
      else s)"

definition on_txbuf_write :: "spi_call \<Rightarrow> u16 \<Rightarrow> u8 list \<Rightarrow> w5500 \<Rightarrow> w5500" where
  "on_txbuf_write call cmd data s =
     (let s = s\<lparr>w_last_tx_class := the (classify_frame (Some data)),
          w_net := net_record_frame True (Some data) (of_nat (length data)) (sc_record_us call) (w_net s)\<rparr>;
          s = (if \<not> nr_enabled (w_net s)
            then s\<lparr>w_last_tx_start_us := 0, w_last_tx_end_us := 0\<rparr> else s) in
      track_frame cmd data s)"

subsection \<open>The callbacks\<close>

text \<open>What a successful write does to the chip.\<close>

definition chip_write :: "u16 \<Rightarrow> u8 \<Rightarrow> u8 list \<Rightarrow> w5500 \<Rightarrow> w5500" where
  "chip_write cmd addr data s =
     (if addr = CTRL_S0_TXBUF_WRITE
      then s\<lparr>ch_tx_mem := ring_store data (ch_tx_mem s)
             \<lparr>rw_addr = cmd, rw_len = of_nat (length data), rw_src = 0\<rparr>\<rparr>
      else if addr = CTRL_COMMON_WRITE \<and> cmd = REG_INTLEVEL \<and> length data = 2
      then s\<lparr>ch_int_level := be16 (data ! 0) (data ! 1)\<rparr>
      else s)"

definition tap_int_level :: "u16 \<Rightarrow> u8 \<Rightarrow> u8 list \<Rightarrow> w5500 \<Rightarrow> w5500" where
  "tap_int_level cmd addr data s =
     (if addr = CTRL_COMMON_WRITE \<and> cmd = REG_INTLEVEL \<and> length data = 2
      then s\<lparr>w_driver_int_level := be16 (data ! 0) (data ! 1), w_driver_int_level_seen := True\<rparr>
      else s)"

definition w5500_custom_spi_write ::
  "spi_env \<Rightarrow> spi_call \<Rightarrow> (u32 \<Rightarrow> u8 list option) \<Rightarrow> u16 \<Rightarrow> u8 \<Rightarrow> u8 list \<Rightarrow> w5500 \<Rightarrow> w5500 \<times> bool" where
  "w5500_custom_spi_write env call fn cmd addr data s =
     (let s = tap_int_level cmd addr data s;
          s = (if addr = CTRL_S0_REG_WRITE \<and> cmd = REG_SN_CR \<and> length data = 1
            then on_command env call fn (data ! 0) s else s);
          is_txbuf_write = (addr = CTRL_S0_TXBUF_WRITE \<and> length data \<ge> 14);
          s = (if is_txbuf_write then on_txbuf_write call cmd data s else s);
          stamp_txbuf = (nr_enabled (w_net s) \<and> is_txbuf_write);
          s = (if stamp_txbuf then s\<lparr>w_last_tx_start_us := sc_start_us call\<rparr> else s);
          (s, ret) = spi_transfer env (chip_write cmd addr data) s;
          s = (if stamp_txbuf then s\<lparr>w_last_tx_end_us := sc_end_us call\<rparr> else s) in
      (s, ret))"

definition note_read_transaction :: "u32 \<Rightarrow> w5500 \<Rightarrow> w5500" where
  "note_read_transaction now_us s =
     (let s = (if now_us - w_last_txn_us s > BURST_GAP_US then s\<lparr>w_burst_start_us := now_us\<rparr> else s) in
      s\<lparr>w_last_txn_us := now_us\<rparr>)"

text \<open>The completion poll of a command, and the first SEND_OK seen for a SEND.\<close>

definition tap_command_poll :: "spi_call \<Rightarrow> u8 \<Rightarrow> w5500 \<Rightarrow> w5500" where
  "tap_command_poll call value s =
     (let s = s\<lparr>w_cr_polls := w_cr_polls s + 1\<rparr> in
      if value = 0 then
        let took_us = sc_end_us call - w_cr_write_us s;
            s = s\<lparr>w_cr_pending := False, w_cr_commands := w_cr_commands s + 1\<rparr>;
            s = (if w_cr_polls s > 1
              then s\<lparr>w_cr_retried := w_cr_retried s + 1,
                     w_net := net_record_cr_retry (sc_record_us call) (w_net s)\<rparr> else s) in
        if took_us > w_cr_max_us s then s\<lparr>w_cr_max_us := took_us\<rparr> else s
      else s)"

definition tap_send_ok :: "spi_call \<Rightarrow> u8 \<Rightarrow> w5500 \<Rightarrow> w5500" where
  "tap_send_ok call status s =
     (if status AND SN_IR_SEND_OK \<noteq> 0 \<and> w_sendok_seq s \<noteq> w_send_cmd_seq s
      then s\<lparr>w_sendok_us := sc_send_us call, w_sendok_seq := w_send_cmd_seq s\<rparr> else s)"

text \<open>\<open>data\<close> is what the chip returns when the transfer succeeds.\<close>

definition w5500_custom_spi_read ::
  "spi_env \<Rightarrow> spi_call \<Rightarrow> u16 \<Rightarrow> u8 \<Rightarrow> u8 list \<Rightarrow> w5500 \<Rightarrow> w5500 \<times> bool" where
  "w5500_custom_spi_read env call cmd addr data s =
     (let len = length data;
          s = note_read_transaction (sc_now_us call) s;
          s = (if addr = CTRL_S0_REG_READ \<and> cmd = REG_SN_RX_RSR
            then s\<lparr>w_rx_size_read_us := sc_start_us call, w_rx_payloads_since_size_read := 0\<rparr>
            else if addr = CTRL_S0_RXBUF_READ \<and> len > 4
            then s\<lparr>w_rx_payload_us := sc_start_us call,
                   w_rx_payloads_since_size_read := w_rx_payloads_since_size_read s + 1\<rparr>
            else s);
          (s, ret) = spi_transfer env id s;
          s = (if ret \<and> len = 2 \<and> addr = CTRL_S0_REG_READ \<and> cmd = REG_SN_RX_RSR
            then s\<lparr>w_rx_size_value := be16 (data ! 0) (data ! 1)\<rparr> else s);
          s = (if ret \<and> w_cr_pending s \<and> addr = CTRL_S0_REG_READ \<and> cmd = REG_SN_CR \<and> len = 1
            then tap_command_poll call (data ! 0) s else s);
          s = (if ret \<and> addr = CTRL_S0_REG_READ \<and> cmd = REG_SN_IR \<and> len = 1
            then tap_send_ok call (data ! 0) s else s);
          s = (if ret \<and> addr = CTRL_S0_RXBUF_READ \<and> len > 4
            then s\<lparr>w_net := net_record_frame False (Some data) (of_nat len) (sc_record_us call) (w_net s)\<rparr>
            else s) in
      (s, ret))"

subsection \<open>The interface to the NTP server\<close>

definition int_capture_cb :: "u32 \<Rightarrow> w5500 \<Rightarrow> w5500" where
  "int_capture_cb now_us s = s\<lparr>w_int_edge_us := now_us, w_int_edge_seq := w_int_edge_seq s + 1\<rparr>"

record rx_stamps =
  rxs_size_read_us :: u32
  rxs_payload_us :: u32
  rxs_payloads_since_size_read :: u32
  rxs_burst_start_us :: u32
  rxs_size_value :: u16

definition w5500_rx_stamps :: "w5500 \<Rightarrow> rx_stamps" where
  "w5500_rx_stamps s = \<lparr>rxs_size_read_us = w_rx_size_read_us s, rxs_payload_us = w_rx_payload_us s,
     rxs_payloads_since_size_read = w_rx_payloads_since_size_read s,
     rxs_burst_start_us = w_burst_start_us s, rxs_size_value = w_rx_size_value s\<rparr>"

record send_stamp =
  ss_send_cmd_us :: u32
  ss_seq :: u32
  ss_frame_class :: frame_class
  ss_txbuf_start_us :: u32
  ss_txbuf_end_us :: u32
  ss_patch_us :: u32
  ss_patched :: bool
  ss_sendok_us :: u32
  ss_sendok_seq :: u32

definition w5500_send_stamp :: "w5500 \<Rightarrow> send_stamp" where
  "w5500_send_stamp s = \<lparr>ss_send_cmd_us = w_send_cmd_us s, ss_seq = w_send_cmd_seq s,
     ss_frame_class = w_send_cmd_class s, ss_txbuf_start_us = w_send_txbuf_start_us s,
     ss_txbuf_end_us = w_send_txbuf_end_us s, ss_patch_us = w_patch_us s, ss_patched = w_patched s,
     ss_sendok_us = w_sendok_us s, ss_sendok_seq = w_sendok_seq s\<rparr>"

record int_stamp =
  is_edge_us :: u32
  is_seq :: u32

definition w5500_int_stamp :: "w5500 \<Rightarrow> int_stamp" where
  "w5500_int_stamp s = \<lparr>is_edge_us = w_int_edge_us s, is_seq = w_int_edge_seq s\<rparr>"

definition w5500_write_int_level :: "spi_env \<Rightarrow> u16 \<Rightarrow> w5500 \<Rightarrow> w5500 \<times> bool" where
  "w5500_write_int_level env value s =
     (if \<not> w_spi_ctx s then (s, False)
      else spi_transfer env (chip_write REG_INTLEVEL CTRL_COMMON_WRITE [hi8 value, lo8 value]) s)"

definition w5500_read_int_level :: "spi_env \<Rightarrow> w5500 \<Rightarrow> w5500 \<times> u16 option" where
  "w5500_read_int_level env s =
     (if \<not> w_spi_ctx s then (s, None)
      else let (s, ret) = spi_transfer env id s in
        (s, if ret then Some (ch_int_level s) else None))"

definition w5500_driver_int_level :: "w5500 \<Rightarrow> u16" where
  "w5500_driver_int_level s = (if w_driver_int_level_seen s then w_driver_int_level s else 0)"

definition w5500_set_tx_patch :: "bool \<Rightarrow> u16 \<Rightarrow> w5500 \<Rightarrow> w5500" where
  "w5500_set_tx_patch fn server_port s =
     (s\<lparr>w_patch_fn := False, w_frame_started := False, w_hdr := [], w_patch_port := server_port\<rparr>)
       \<lparr>w_patch_fn := fn\<rparr>"

record cmd_stats =
  cs_commands :: u32
  cs_retried :: u32
  cs_max_us :: u32
  cs_overlaps :: u32

definition w5500_take_cmd_stats :: "w5500 \<Rightarrow> cmd_stats \<times> w5500" where
  "w5500_take_cmd_stats s =
     (\<lparr>cs_commands = w_cr_commands s, cs_retried = w_cr_retried s, cs_max_us = w_cr_max_us s,
       cs_overlaps = w_cr_overlaps s\<rparr>,
      s\<lparr>w_cr_commands := 0, w_cr_retried := 0, w_cr_max_us := 0, w_cr_overlaps := 0\<rparr>)"

subsection \<open>The patch in the chip's memory\<close>

text \<open>Everything but the memory, the transfer count and the recorder is untouched.\<close>

definition only_chip :: "w5500 \<Rightarrow> w5500 \<Rightarrow> bool" where
  "only_chip s s' \<longleftrightarrow>
     s'\<lparr>ch_tx_mem := ch_tx_mem s, ch_xfers := ch_xfers s, w_net := w_net s\<rparr> = s"

lemma only_chip_refl [simp]: "only_chip s s"
  by (simp add: only_chip_def)

lemma only_chip_trans: "only_chip s t \<Longrightarrow> only_chip t u \<Longrightarrow> only_chip s u"
  by (cases s; cases t; cases u) (simp add: only_chip_def)

lemma only_chip_fields:
  assumes "only_chip s t"
  shows "w_frame_start t = w_frame_start s" "w_last_tx_class t = w_last_tx_class s"
    "w_send_cmd_seq t = w_send_cmd_seq s"
  using assms by (cases s; cases t; simp add: only_chip_def)+

lemma patch_one_only: "only_chip s (fst (patch_one env src (s, b) w))"
  by (simp add: patch_one_def spi_transfer_def Let_def only_chip_def)

lemma patch_fold_only: "only_chip s (fst (foldl (patch_one env src) (s, b) ws))"
proof (induction ws arbitrary: s b)
  case (Cons w ws)
  obtain t c where t: "patch_one env src (s, b) w = (t, c)" by fastforce
  have "only_chip s t" using patch_one_only [of s env src b w] by (simp add: t)
  then show ?case using Cons [of t c] by (auto simp: t intro: only_chip_trans)
qed simp

lemma patch_write_only: "only_chip s (fst (patch_write_ring env fs rel src n s))"
  by (simp add: patch_write_ring_def patch_fold_only)

lemma patch_fold_ok:
  "foldl (patch_one env src) (s, b) ws = (s', True) \<Longrightarrow>
   b \<and> ch_tx_mem s' = foldl (ring_store src) (ch_tx_mem s) ws"
proof (induction ws arbitrary: s b)
  case (Cons w ws)
  obtain t c where t: "patch_one env src (s, b) w = (t, c)" by fastforce
  with Cons.prems have "foldl (patch_one env src) (t, c) ws = (s', True)" by simp
  from Cons.IH [OF this] have c: c "ch_tx_mem s' = foldl (ring_store src) (ch_tx_mem t) ws" by simp_all
  with t have "b \<and> ch_tx_mem t = ring_store src (ch_tx_mem s) w"
    by (auto simp: patch_one_def spi_transfer_def Let_def split: if_splits)
  with c show ?case by simp
qed simp

lemma patch_fold_all_ok:
  "(\<forall>n. se_ok env n) \<Longrightarrow> snd (foldl (patch_one env src) (s, b) ws) = b"
proof (induction ws arbitrary: s b)
  case (Cons w ws)
  obtain t c where t: "patch_one env src (s, b) w = (t, c)" by fastforce
  with Cons.prems have "c = b" by (auto simp: patch_one_def spi_transfer_def Let_def)
  with Cons.IH [OF Cons.prems, of t c] show ?case by (simp add: t)
qed simp

text \<open>The frame as it lies in the ring.\<close>

definition frame_in_chip :: "w5500 \<Rightarrow> nat \<Rightarrow> u8 list" where
  "frame_in_chip s n = ring_read (ch_tx_mem s) (unat (w_frame_start s)) n"

lemma patch_write_ok:
  assumes "patch_write_ring env (w_frame_start s) (of_nat rel) src (of_nat (length src)) s = (s', True)"
    and "rel + length src \<le> L" "L \<le> 16384"
  shows "frame_in_chip s' L = put (frame_in_chip s L) rel src"
proof -
  have n: "unat (of_nat (length src) :: u16) = length src" "unat (of_nat rel :: u16) = rel"
    using assms(2,3) by (simp_all add: unsigned_of_nat take_bit_eq_mod)
  have "only_chip s s'" using patch_write_only [of s] assms(1) by (metis fst_conv)
  then have "w_frame_start s' = w_frame_start s" by (rule only_chip_fields)
  moreover have "ch_tx_mem s' = foldl (ring_store src) (ch_tx_mem s)
      (plan_ring_writes (w_frame_start s) (of_nat rel) (of_nat (length src)))"
    using patch_fold_ok assms(1) unfolding patch_write_ring_def by blast
  ultimately show ?thesis
    using ring_patch_refines_aux [where patch = src and n = "of_nat (length src)" and rel = "of_nat rel"
        and L = L and fso = "w_frame_start s" and mem = "ch_tx_mem s"]
      assms(2,3) by (simp add: frame_in_chip_def n)
qed

text \<open>The reply a patch should leave: new T3, and the checksum updated when there is one.\<close>

definition patched_frame :: "u8 list \<Rightarrow> u8 list \<Rightarrow> u8 list" where
  "patched_frame f t3 = (let u = udp_start f; csum = be16 (f ! (u + 6)) (f ! (u + 7));
       new_csum = udp_csum_update csum (take 8 (drop (u + 48) f)) t3;
       g = put f (u + 48) t3 in
     if csum = 0 then g else put g (u + 6) [hi8 new_csum, lo8 new_csum])"

lemma reply_in_prefix:
  assumes "is_ntp_reply (take n f) port" "n \<le> 128"
  shows "udp_start (take n f) = udp_start f" "udp_start f + 56 \<le> length f" "udp_start f + 56 \<le> n"
    "reply_plan (take n f) = reply_plan f"
proof -
  have l: "34 \<le> length (take n f)" "udp_start (take n f) + 56 \<le> length (take n f)"
    using assms(1) by (simp_all add: is_ntp_reply_def)
  then show u: "udp_start (take n f) = udp_start f" by (simp add: udp_start_def)
  with l show b: "udp_start f + 56 \<le> length f" "udp_start f + 56 \<le> n" by simp_all
  have "take 8 (drop (udp_start f + 48) (take n f)) = take 8 (drop (udp_start f + 48) f)"
    using b by (simp add: drop_take min_def)
  then show "reply_plan (take n f) = reply_plan f"
    using b by (simp add: reply_plan_def Let_def u)
qed

lemma rewrite_reply_only: "only_chip s (fst (rewrite_reply env plan t3 s))"
proof -
  have w: "only_chip s t" if "patch_write_ring env fs rel src n s = (t, b)" for s t fs rel src n b
    using patch_write_only that by (metis fst_conv)
  show ?thesis
    unfolding rewrite_reply_def Let_def
    by (auto split: prod.split dest!: w intro: only_chip_trans patch_write_only)
qed

lemma rewrite_reply_patched:
  assumes "rewrite_reply env (reply_plan f) t3 s = (s', True)" "length t3 = 8"
    and "udp_start f + 56 \<le> length f" "length f \<le> 16384" "frame_in_chip s (length f) = f"
  shows "frame_in_chip s' (length f) = patched_frame f t3"
proof -
  let ?u = "udp_start f"
  let ?c = "be16 (f ! (?u + 6)) (f ! (?u + 7))"
  let ?new = "udp_csum_update ?c (take 8 (drop (?u + 48) f)) t3"
  have plan: "t3_off (reply_plan f) = ?u + 48" "csum_off (reply_plan f) = ?u + 6"
    "csum_present (reply_plan f) = (?c \<noteq> 0)" "old_csum (reply_plan f) = ?c"
    "old_t3 (reply_plan f) = take 8 (drop (?u + 48) f)"
    by (simp_all add: reply_plan_def Let_def)
  obtain s1 b1 where 1: "patch_write_ring env (w_frame_start s) (of_nat (?u + 48)) t3 8 s = (s1, b1)"
    by fastforce
  have b1: b1 using assms(1) 1 by (auto simp: rewrite_reply_def plan Let_def split: if_splits)
  have f1: "frame_in_chip s1 (length f) = put f (?u + 48) t3"
    using patch_write_ok [where s = s and s' = s1 and src = t3 and rel = "?u + 48" and L = "length f" and env = env]
      1 b1 assms(2-5) by simp
  have fs: "w_frame_start s1 = w_frame_start s"
    using patch_write_only [of s] 1 by (metis fst_conv only_chip_fields(1))
  show ?thesis
  proof (cases "?c = 0")
    case True
    with assms(1) 1 b1 have "s' = s1" by (simp add: rewrite_reply_def plan Let_def)
    with f1 True show ?thesis by (simp add: patched_frame_def Let_def)
  next
    case False
    obtain s2 b2 where 2: "patch_write_ring env (w_frame_start s1) (of_nat (?u + 6))
        [hi8 ?new, lo8 ?new] 2 s1 = (s2, b2)" by fastforce
    with assms(1) 1 b1 False have b2: b2 "s' = s2"
      by (auto simp: rewrite_reply_def plan Let_def fs split: if_splits prod.splits)
    then have "frame_in_chip s2 (length f) = put (put f (?u + 48) t3) (?u + 6) [hi8 ?new, lo8 ?new]"
      using patch_write_ok [where s = s1 and s' = s2 and src = "[hi8 ?new, lo8 ?new]" and rel = "?u + 6"
          and L = "length f" and env = env] 2 assms(3,4) f1 by simp
    with b2 False show ?thesis by (simp add: patched_frame_def Let_def)
  qed
qed

lemma rewrite_reply_all_ok:
  "(\<forall>n. se_ok env n) \<Longrightarrow> snd (rewrite_reply env plan t3 s)"
  using patch_fold_all_ok [of env]
  by (auto simp: rewrite_reply_def patch_write_ring_def Let_def split: prod.split)
     (metis snd_conv)+

lemma patched_means_patched_aux:
  assumes "w_patch_fn s" "w_frame_started s" "w_hdr s = take 128 f"
    and "is_ntp_reply (take 128 f) (w_patch_port s)" "length f \<le> 16384"
    and "frame_in_chip s (length f) = f" "fn (sc_patch_us call) = Some t3" "length t3 = 8"
  shows "let s' = on_send env call fn s in
    (w_patched s' \<longrightarrow> frame_in_chip s' (length f) = patched_frame f t3) \<and>
    ((\<forall>n. se_ok env n) \<longrightarrow> w_patched s') \<and>
    w_send_cmd_class s' = w_last_tx_class s \<and> w_send_cmd_seq s' = w_send_cmd_seq s + 1"
proof -
  have plan: "plan_ntp_tx_patch (w_hdr s) (w_patch_port s) = Some (reply_plan f)"
    using assms(3,4) reply_in_prefix [OF assms(4)] by (simp add: plan_ok_Some)
  obtain s1 b where r: "rewrite_reply env (reply_plan f) t3 s = (s1, b)" by fastforce
  have o: "only_chip s s1" using rewrite_reply_only [of s env "reply_plan f" t3] r by simp
  have t: "try_patch env call fn s = (s1, sc_patch_us call, b)"
    using assms(1,2,7) by (simp add: try_patch_def plan r)
  have f: "frame_in_chip (on_send env call fn s) (length f) = frame_in_chip s1 (length f)"
    by (simp add: on_send_def t frame_in_chip_def)
  have "b \<longrightarrow> frame_in_chip s1 (length f) = patched_frame f t3"
    using rewrite_reply_patched [of env f t3 s s1] r assms(5,6,8) reply_in_prefix [OF assms(4)] by auto
  moreover have "(\<forall>n. se_ok env n) \<longrightarrow> b"
    using rewrite_reply_all_ok [of env "reply_plan f" t3 s] r by auto
  ultimately show ?thesis
    unfolding Let_def f using only_chip_fields [OF o] by (simp add: on_send_def t)
qed

text \<open>
  C9: The patch flag can be trusted. Let the chip's ring hold an NTP reply of ours, wherever it
  starts and even if it wraps, with its first bytes tracked. Whatever SPI transfers fail, if SEND
  reports the reply as patched then the ring holds exactly that reply with the new transmit
  timestamp and, if it carried a checksum, the incrementally updated one; and if no transfer
  fails it is reported as patched.
\<close>

theorem patched_means_patched:
  assumes "w_patch_fn s" "w_frame_started s" "w_hdr s = take 128 f"
    and "is_ntp_reply (take 128 f) (w_patch_port s)" "length f \<le> 16384"
    and "frame_in_chip s (length f) = f" "fn (sc_patch_us call) = Some t3" "length t3 = 8"
  shows "let s' = on_send env call fn s in
    (w_patched s' \<longrightarrow> frame_in_chip s' (length f) = patched_frame f t3) \<and>
    ((\<forall>n. se_ok env n) \<longrightarrow> w_patched s') \<and>
    w_send_cmd_class s' = w_last_tx_class s \<and> w_send_cmd_seq s' = w_send_cmd_seq s + 1"
  using assms by (rule patched_means_patched_aux)

text \<open>A chip that holds the sample reply, tracked, at a given ring address.\<close>

definition chip_with :: "u16 \<Rightarrow> u8 list \<Rightarrow> w5500" where
  "chip_with start f = w5500_init\<lparr>w_patch_fn := True, w_patch_port := 123, w_frame_started := True,
     w_frame_start := start, w_hdr := f, w_last_tx_class := FC_NTP,
     ch_tx_mem := (\<lambda>a. let i = (a + 16384 - unat start mod 16384) mod 16384 in
       if i < length f then f ! i else 0)\<rparr>"

definition sample_call :: spi_call where
  "sample_call = \<lparr>sc_now_us = 1, sc_patch_us = 2, sc_send_us = 3, sc_record_us = 0,
     sc_start_us = 0, sc_end_us = 0\<rparr>"

definition failing :: "(nat \<Rightarrow> bool) \<Rightarrow> spi_env" where
  "failing okay = \<lparr>se_ok = okay, se_wait_us = (\<lambda>_. 0), se_now_us = (\<lambda>_. 0)\<rparr>"

definition csum_reply :: "u8 list" where
  "csum_reply = (sample_reply 123 40000)[40 := 0x12, 41 := 0x34]"

lemma chip_with_frame:
  assumes "length f \<le> 16384"
  shows "frame_in_chip (chip_with start f) (length f) = f"
proof -
  let ?b = "unat start mod 16384"
  have "((unat start + i) mod 16384 + 16384 - ?b) mod 16384 = i" if "i < length f" for i
  proof -
    have "?b < 16384" by simp
    then show ?thesis using that assms by (simp add: ring_reduce)
  qed
  then show ?thesis
    by (intro nth_equalityI) (simp_all add: frame_in_chip_def ring_read_def chip_with_def Let_def)
qed

theorem patched_means_patched_witness:
  "let s' = on_send (failing (\<lambda>_. True)) sample_call (\<lambda>_. Some [1, 2, 3, 4, 5, 6, 7, 8]) (chip_with 16300 csum_reply) in
   w_patched s' \<and> frame_in_chip s' 90 = patched_frame csum_reply [1, 2, 3, 4, 5, 6, 7, 8]"
proof -
  have l: "length csum_reply = 90" "take 128 csum_reply = csum_reply" "is_ntp_reply csum_reply 123"
    by code_simp+
  have "w_hdr (chip_with 16300 csum_reply) = csum_reply" "w_patch_fn (chip_with 16300 csum_reply)"
    "w_frame_started (chip_with 16300 csum_reply)" "w_patch_port (chip_with 16300 csum_reply) = 123"
    by (simp_all add: chip_with_def)
  then show ?thesis
    using patched_means_patched [of "chip_with 16300 csum_reply" csum_reply
        "\<lambda>_. Some [1, 2, 3, 4, 5, 6, 7, 8]" sample_call "[1, 2, 3, 4, 5, 6, 7, 8]" "failing (\<lambda>_. True)"]
      l chip_with_frame [of csum_reply 16300] by (simp add: Let_def failing_def)
qed

text \<open>
  C29: No other frame is ever rewritten. Unless a patch callback is registered, the frame was
  tracked, its first bytes are our own NTP reply from the registered port and the callback
  supplies a timestamp, SEND leaves the chip's transmit memory as it is and reports no patch.
\<close>

theorem only_replies_rewritten:
  assumes "\<not> (w_patch_fn s \<and> w_frame_started s \<and> is_ntp_reply (w_hdr s) (w_patch_port s) \<and>
      fn (sc_patch_us call) \<noteq> None)"
  shows "ch_tx_mem (on_send env call fn s) = ch_tx_mem s \<and> \<not> w_patched (on_send env call fn s)"
proof -
  obtain p where p: "plan_ntp_tx_patch (w_hdr s) (w_patch_port s) = Some p"
    "ok p \<longleftrightarrow> is_ntp_reply (w_hdr s) (w_patch_port s)"
    using plan_ok_iff plan_ntp_tx_patch_eq by blast
  then have "\<exists>t. try_patch env call fn s = (s, t, False)"
    using assms by (auto simp: try_patch_def)
  then obtain t where "try_patch env call fn s = (s, t, False)" ..
  then show ?thesis by (simp add: on_send_def)
qed

theorem only_replies_rewritten_witness:
  "\<not> w_patched (on_send (failing (\<lambda>_. True)) sample_call (\<lambda>_. None) (chip_with 16300 csum_reply))"
  using only_replies_rewritten [of "chip_with 16300 csum_reply" "\<lambda>_. None" sample_call "failing (\<lambda>_. True)"]
  by simp

subsection \<open>Failed transfers\<close>

lemma patch_write_single:
  assumes "unat (w_frame_start s) mod 16384 + rel + length src \<le> 16384" "0 < length src"
  obtains s' where
    "patch_write_ring env (w_frame_start s) (of_nat rel) src (of_nat (length src)) s =
      (s', se_ok env (ch_xfers s))"
    "ch_xfers s' = Suc (ch_xfers s)" "only_chip s s'"
    "\<not> se_ok env (ch_xfers s) \<Longrightarrow> ch_tx_mem s' = ch_tx_mem s"
proof -
  have n: "unat (of_nat (length src) :: u16) = length src" "unat (of_nat rel :: u16) = rel"
    using assms by (simp_all add: unsigned_of_nat take_bit_eq_mod)
  obtain w where w: "plan_ring_writes (w_frame_start s) (of_nat rel) (of_nat (length src)) = [w]"
  proof -
    have "unat (of_nat rel :: u16) + unat (of_nat (length src) :: u16) \<le> 16384"
      using assms by (simp only: n)
    then show ?thesis
      using that assms n by (cases rule: plan_ring_writes_cases [of "of_nat rel" "of_nat (length src)" "w_frame_start s"])
        auto
  qed
  obtain s' b where s': "patch_write_ring env (w_frame_start s) (of_nat rel) src (of_nat (length src)) s = (s', b)"
    by fastforce
  have "b = se_ok env (ch_xfers s)" "ch_xfers s' = Suc (ch_xfers s)"
    "\<not> se_ok env (ch_xfers s) \<Longrightarrow> ch_tx_mem s' = ch_tx_mem s"
    using s' by (auto simp: patch_write_ring_def w patch_one_def spi_transfer_def Let_def split: if_splits)
  moreover have "only_chip s s'" using patch_write_only [of s] s' by (metis fst_conv)
  ultimately show thesis using that s' by blast
qed

lemma put_restore:
  "i + n \<le> length b \<Longrightarrow> length xs = n \<Longrightarrow> put (put b i xs) i (take n (drop i b)) = b"
  by (rule nth_equalityI) (auto simp: put_nth)

text \<open>
  A failed patch does not corrupt a reply that does not wrap. When the frame lies in one
  piece in the ring, the reply on the chip after SEND's preparation is either completely
  patched, and reported so, or byte for byte the one lwIP wrote, for every pattern of failing
  transfers except one: the checksum write fails and the write that restores T3 fails too.
\<close>

theorem unsplit_patch_atomic:
  assumes "w_patch_fn s" "w_frame_started s" "w_hdr s = take 128 f"
    and "is_ntp_reply (take 128 f) (w_patch_port s)"
    and "unat (w_frame_start s) mod 16384 + length f \<le> 16384"
    and "frame_in_chip s (length f) = f" "fn (sc_patch_us call) = Some t3" "length t3 = 8"
    and "\<not> (se_ok env (ch_xfers s) \<and> \<not> se_ok env (ch_xfers s + 1) \<and> \<not> se_ok env (ch_xfers s + 2))"
  shows "let s' = on_send env call fn s in
    frame_in_chip s' (length f) = (if w_patched s' then patched_frame f t3 else f)"
proof -
  let ?u = "udp_start f"
  let ?c = "be16 (f ! (?u + 6)) (f ! (?u + 7))"
  let ?new = "udp_csum_update ?c (take 8 (drop (?u + 48) f)) t3"
  let ?n = "ch_xfers s"
  have u: "?u + 56 \<le> length f" using reply_in_prefix [OF assms(4)] by simp
  have L: "length f \<le> 16384" using assms(5) by simp
  have plan: "plan_ntp_tx_patch (w_hdr s) (w_patch_port s) = Some (reply_plan f)"
    using assms(3,4) reply_in_prefix [OF assms(4)] by (simp add: plan_ok_Some)
  obtain s1 b where r: "rewrite_reply env (reply_plan f) t3 s = (s1, b)" by fastforce
  have t: "try_patch env call fn s = (s1, sc_patch_us call, b)"
    using assms(1,2,7) by (simp add: try_patch_def plan r)
  have fr: "frame_in_chip (on_send env call fn s) (length f) = frame_in_chip s1 (length f)"
    "w_patched (on_send env call fn s) = b"
    by (simp_all add: on_send_def t frame_in_chip_def)
  have intact: "frame_in_chip s1 (length f) = f" if "\<not> b"
  proof -
    obtain a where a: "patch_write_ring env (w_frame_start s) (of_nat (?u + 48)) t3 8 s = (a, se_ok env ?n)"
      "ch_xfers a = Suc ?n" "only_chip s a" "\<not> se_ok env ?n \<Longrightarrow> ch_tx_mem a = ch_tx_mem s"
      using patch_write_single [of s "?u + 48" t3 env] assms(5,8) u by auto
    note fa = only_chip_fields(1) [OF a(3)]
    show ?thesis
    proof (cases "se_ok env ?n")
      case False
      with r a have "s1 = a" by (simp add: rewrite_reply_def reply_plan_def Let_def)
      with a(4) False fa assms(6) show ?thesis by (simp add: frame_in_chip_def)
    next
      case True
      have ga: "frame_in_chip a (length f) = put f (?u + 48) t3"
        using patch_write_ok [where s = s and s' = a and src = t3 and rel = "?u + 48"
            and L = "length f" and env = env] a(1) True assms(6,8) u L by simp
      from that True r a(1) have c: "?c \<noteq> 0"
        by (auto simp: rewrite_reply_def reply_plan_def Let_def)
      obtain d where d: "patch_write_ring env (w_frame_start a) (of_nat (?u + 6)) [hi8 ?new, lo8 ?new] 2 a =
          (d, se_ok env (Suc ?n))" "ch_xfers d = Suc (Suc ?n)" "only_chip a d"
          "\<not> se_ok env (Suc ?n) \<Longrightarrow> ch_tx_mem d = ch_tx_mem a"
        using patch_write_single [of a "?u + 6" "[hi8 ?new, lo8 ?new]" env] assms(5) u fa a(2) by auto
      note fd = only_chip_fields(1) [OF d(3)]
      from that True r a(1) c d(1) have e: "\<not> se_ok env (Suc ?n)"
        by (auto simp: rewrite_reply_def reply_plan_def Let_def fa split: if_splits prod.splits)
      with assms(9) True have rest: "se_ok env (Suc (Suc ?n))" by simp
      let ?old = "take 8 (drop (?u + 48) f)"
      have lo: "length ?old = 8" using u by simp
      obtain g where g: "patch_write_ring env (w_frame_start d) (of_nat (?u + 48)) ?old 8 d = (g, True)"
        using patch_write_single [of d "?u + 48" ?old env] assms(5) u fa fd d(2) rest lo by auto
      have "frame_in_chip d (length f) = put f (?u + 48) t3"
        using ga d(4) e fd by (simp add: frame_in_chip_def)
      then have "frame_in_chip g (length f) = put (put f (?u + 48) t3) (?u + 48) ?old"
        using patch_write_ok [where s = d and s' = g and src = ?old and rel = "?u + 48"
            and L = "length f" and env = env] g u L lo by simp
      also have "\<dots> = f" using u assms(8) by (intro put_restore) simp_all
      finally have "frame_in_chip g (length f) = f" .
      moreover have "s1 = g"
        using True r a(1) c d(1) e g fd by (simp add: rewrite_reply_def reply_plan_def Let_def fa)
      ultimately show ?thesis by simp
    qed
  qed
  have "frame_in_chip s1 (length f) = patched_frame f t3" if b
    using rewrite_reply_patched [of env f t3 s s1] r that assms(6,8) u L by simp
  with intact show ?thesis unfolding Let_def fr by simp
qed

theorem unsplit_patch_atomic_witness:
  "let s' = on_send (failing (\<lambda>n. n \<noteq> 1)) sample_call (\<lambda>_. Some [1, 2, 3, 4, 5, 6, 7, 8]) (chip_with 0x4100 csum_reply) in
   frame_in_chip s' 90 = (if w_patched s' then patched_frame csum_reply [1, 2, 3, 4, 5, 6, 7, 8] else csum_reply)"
proof -
  have l: "length csum_reply = 90" "take 128 csum_reply = csum_reply" "is_ntp_reply csum_reply 123"
    by code_simp+
  have "w_hdr (chip_with 0x4100 csum_reply) = csum_reply" "w_patch_fn (chip_with 0x4100 csum_reply)"
    "w_frame_started (chip_with 0x4100 csum_reply)" "w_patch_port (chip_with 0x4100 csum_reply) = 123"
    "w_frame_start (chip_with 0x4100 csum_reply) = 0x4100" "ch_xfers (chip_with 0x4100 csum_reply) = 0"
    by (simp_all add: chip_with_def w5500_init_def)
  then show ?thesis
    using unsplit_patch_atomic [of "chip_with 0x4100 csum_reply" csum_reply
        "\<lambda>_. Some [1, 2, 3, 4, 5, 6, 7, 8]" sample_call "[1, 2, 3, 4, 5, 6, 7, 8]" "failing (\<lambda>n. n \<noteq> 1)"]
      l chip_with_frame [of csum_reply "0x4100"] by (simp add: Let_def failing_def)
qed

lemma csum_reply_facts:
  "is_ntp_reply csum_reply 123" "t3_off (reply_plan csum_reply) = 82" "length csum_reply = 90"
  "map ((!) csum_reply) [82, 83, 84, 85, 86, 87, 88, 89] = replicate 8 0"
  by code_simp+

lemma plan_wrapped:
  "plan_ring_writes 16298 82 8 =
    [\<lparr>rw_addr = 16380, rw_len = 4, rw_src = 0\<rparr>, \<lparr>rw_addr = 16384, rw_len = 4, rw_src = 4\<rparr>]"
  by code_simp

lemma torn_memory:
  defines "s \<equiv> chip_with 16298 csum_reply"
  shows "ch_tx_mem (on_send (failing (\<lambda>n. n = 0)) sample_call (\<lambda>_. Some t3) s) =
      ring_store t3 (ch_tx_mem s) \<lparr>rw_addr = 16380, rw_len = 4, rw_src = 0\<rparr>"
    "\<not> w_patched (on_send (failing (\<lambda>n. n = 0)) sample_call (\<lambda>_. Some t3) s)"
proof -
  have plan: "plan_ntp_tx_patch (w_hdr s) (w_patch_port s) = Some (reply_plan csum_reply)"
    unfolding s_def by (simp add: chip_with_def plan_ok_Some csum_reply_facts(1))
  have f: "w_patch_fn s" "w_frame_started s" "w_frame_start s = 16298" "ch_xfers s = 0"
    by (simp_all add: s_def chip_with_def w5500_init_def)
  obtain s1 b where w: "patch_write_ring (failing (\<lambda>n. n = 0)) 16298 82 t3 8 s = (s1, b)" by fastforce
  then have r: "ch_tx_mem s1 = ring_store t3 (ch_tx_mem s) \<lparr>rw_addr = 16380, rw_len = 4, rw_src = 0\<rparr>" "\<not> b"
    by (auto simp: patch_write_ring_def plan_wrapped patch_one_def spi_transfer_def failing_def Let_def f)
  have "rewrite_reply (failing (\<lambda>n. n = 0)) (reply_plan csum_reply) t3 s = (s1, False)"
    using w r(2) by (simp add: rewrite_reply_def csum_reply_facts f)
  then have "try_patch (failing (\<lambda>n. n = 0)) sample_call (\<lambda>_. Some t3) s =
      (s1, sc_patch_us sample_call, False)"
    using f by (simp add: try_patch_def plan)
  with r show "ch_tx_mem (on_send (failing (\<lambda>n. n = 0)) sample_call (\<lambda>_. Some t3) s) =
      ring_store t3 (ch_tx_mem s) \<lparr>rw_addr = 16380, rw_len = 4, rw_src = 0\<rparr>"
    "\<not> w_patched (on_send (failing (\<lambda>n. n = 0)) sample_call (\<lambda>_. Some t3) s)"
    by (simp_all add: on_send_def)
qed

text \<open>
  A reply whose T3 wraps in the ring can be torn. When the first of the two T3 writes succeeds
  and the second fails, nothing is restored: the reply goes out reported as unpatched with half
  of the new timestamp, half of the old one and the old checksum.
\<close>

theorem wrapped_patch_can_be_torn:
  "let s = chip_with 16298 csum_reply;
       s' = on_send (failing (\<lambda>n. n = 0)) sample_call (\<lambda>_. Some [1, 2, 3, 4, 5, 6, 7, 8]) s in
   \<not> w_patched s' \<and>
   map (ch_tx_mem s) [16380, 16381, 16382, 16383, 0, 1, 2, 3] = [0, 0, 0, 0, 0, 0, 0, 0] \<and>
   map (ch_tx_mem s') [16380, 16381, 16382, 16383, 0, 1, 2, 3] = [1, 2, 3, 4, 0, 0, 0, 0] \<and>
   map (ch_tx_mem s') [16338, 16339] = map (ch_tx_mem s) [16338, 16339]"
proof -
  have m: "map (ch_tx_mem (chip_with 16298 csum_reply)) [16380, 16381, 16382, 16383, 0, 1, 2, 3] =
      [0, 0, 0, 0, 0, 0, 0, 0]"
    using csum_reply_facts(3,4) by (simp add: chip_with_def Let_def replicate_8)
  then show ?thesis
    unfolding Let_def torn_memory(1) using torn_memory(2) by (simp add: ring_store_def)
qed

subsection \<open>The checksum of a patched reply\<close>

definition udp_csum_valid :: "u16 list \<Rightarrow> u8 list \<Rightarrow> bool" where
  "udp_csum_valid pseudo f \<longleftrightarrow> (let u = udp_start f in
     unat (be16 (f ! (u + 6)) (f ! (u + 7))) =
       udp_checksum (pseudo @ words_of (take 6 (drop u f)) @ words_of (take 48 (drop (u + 8) f))))"

lemma words_of_append: "even (length xs) \<Longrightarrow> words_of (xs @ ys) = words_of xs @ words_of ys"
  by (induction xs rule: words_of.induct) simp_all

lemma length_patched: "udp_start f + 56 \<le> length f \<Longrightarrow> length t3 = 8 \<Longrightarrow> length (patched_frame f t3) = length f"
  by (simp add: patched_frame_def Let_def)

lemma patched_nth:
  assumes "udp_start f + 56 \<le> length f" "length t3 = 8" "j < length f"
    and "be16 (f ! (udp_start f + 6)) (f ! (udp_start f + 7)) \<noteq> 0"
  shows "patched_frame f t3 ! j =
    (if udp_start f + 48 \<le> j \<and> j < udp_start f + 56 then t3 ! (j - (udp_start f + 48))
     else if j = udp_start f + 6 then hi8 (udp_csum_update (be16 (f ! (udp_start f + 6)) (f ! (udp_start f + 7)))
        (take 8 (drop (udp_start f + 48) f)) t3)
     else if j = udp_start f + 7 then lo8 (udp_csum_update (be16 (f ! (udp_start f + 6)) (f ! (udp_start f + 7)))
        (take 8 (drop (udp_start f + 48) f)) t3)
     else f ! j)"
proof -
  let ?u = "udp_start f"
  let ?c = "udp_csum_update (be16 (f ! (?u + 6)) (f ! (?u + 7))) (take 8 (drop (?u + 48) f)) t3"
  have "patched_frame f t3 ! j =
      (if ?u + 6 \<le> j \<and> j < ?u + 8 then [hi8 ?c, lo8 ?c] ! (j - (?u + 6)) else put f (?u + 48) t3 ! j)"
    using assms by (simp add: patched_frame_def Let_def put_nth)
  moreover have "put f (?u + 48) t3 ! j =
      (if ?u + 48 \<le> j \<and> j < ?u + 56 then t3 ! (j - (?u + 48)) else f ! j)"
    using assms(1-3) by (simp add: put_nth)
  moreover consider "j = ?u + 6" | "j = ?u + 7" | "\<not> (?u + 6 \<le> j \<and> j < ?u + 8)" by linarith
  ultimately show ?thesis by cases simp_all
qed

lemma patched_take_drop:
  assumes "udp_start f + 56 \<le> length f" "length t3 = 8" "i + n \<le> length f"
    and "be16 (f ! (udp_start f + 6)) (f ! (udp_start f + 7)) \<noteq> 0"
    and "i + n \<le> udp_start f + 6 \<or> udp_start f + 8 \<le> i \<and> i + n \<le> udp_start f + 48 \<or> udp_start f + 56 \<le> i"
  shows "take n (drop i (patched_frame f t3)) = take n (drop i f)"
  using assms by (intro nth_equalityI) (auto simp: length_patched patched_nth)

text \<open>
  A patched reply passes the receiver's check. If the reply as lwIP wrote it carries a correct
  UDP checksum over any pseudo header, then so does the patched reply; its transmit timestamp is
  the new one, and it is still recognised as our reply.
\<close>

theorem patched_checksum_valid:
  assumes "is_ntp_reply f port" "length t3 = 8" "udp_csum_valid pseudo f"
  shows "udp_csum_valid pseudo (patched_frame f t3) \<and> is_ntp_reply (patched_frame f t3) port \<and>
    take 8 (drop (udp_start f + 48) (patched_frame f t3)) = t3"
proof -
  let ?u = "udp_start f"
  let ?g = "patched_frame f t3"
  let ?c = "be16 (f ! (?u + 6)) (f ! (?u + 7))"
  let ?old = "take 8 (drop (?u + 48) f)"
  have l: "?u + 56 \<le> length f" using assms(1) by (rule is_ntp_replyD)
  have u34: "34 \<le> ?u" using assms(1) by (simp add: is_ntp_reply_def udp_start_ge)
  have split: "take 48 (drop (?u + 8) h) = take 40 (drop (?u + 8) h) @ take 8 (drop (?u + 48) h)" for h :: "u8 list"
    using take_add [of 40 8 "drop (?u + 8) h"] by (simp add: ac_simps)
  have old: "unat ?c = udp_checksum ((pseudo @ words_of (take 6 (drop ?u f)) @
      words_of (take 40 (drop (?u + 8) f))) @ words_of ?old @ [])"
    using assms(3) l by (simp add: udp_csum_valid_def Let_def split words_of_append)
  have c0: "?c \<noteq> 0"
  proof
    assume "?c = 0"
    with old udp_checksum_range show False by (metis unat_0 atLeastAtMost_iff not_one_le_zero)
  qed
  have len: "length ?g = length f" using l assms(2) by (rule length_patched)
  have nth: "?g ! j = f ! j" if "j < ?u + 6 \<or> j = ?u + 8" for j
    using that l patched_nth [OF l assms(2) _ c0, of j] by auto
  have u: "udp_start ?g = ?u" using nth [of 14] u34 by (simp add: udp_start_def)
  have t3: "take 8 (drop (?u + 48) ?g) = t3"
    using l assms(2) by (intro nth_equalityI) (simp_all add: len patched_nth [OF l assms(2) _ c0])
  have "be16 (?g ! (?u + 6)) (?g ! (?u + 7)) = udp_csum_update ?c ?old t3"
    using l by (simp add: patched_nth [OF l assms(2) _ c0])
  moreover have "unat (udp_csum_update ?c ?old t3) = udp_checksum ((pseudo @ words_of (take 6 (drop ?u f)) @
      words_of (take 40 (drop (?u + 8) f))) @ words_of t3 @ [])"
    using l assms(2) by (intro udp_csum_update_full [OF _ _ old]) simp_all
  moreover have "take 6 (drop ?u ?g) = take 6 (drop ?u f)" "take 40 (drop (?u + 8) ?g) = take 40 (drop (?u + 8) f)"
    using l by (simp_all add: patched_take_drop [OF l assms(2) _ c0])
  ultimately have "udp_csum_valid pseudo ?g"
    using l t3 by (simp add: udp_csum_valid_def Let_def u split words_of_append)
  moreover have "is_ntp_reply ?g port"
    using assms(1) u34 nth unfolding is_ntp_reply_def u len by simp
  ultimately show ?thesis using t3 by simp
qed

definition valid_reply :: "u8 list" where
  "valid_reply = (sample_reply 123 40000)[40 := 0x3F, 41 := 0x0C]"

lemma valid_reply_bytes:
  "valid_reply ! 40 = 0x3F" "valid_reply ! 41 = 0x0C"
  "take 6 (drop 34 valid_reply) = [0, 123, 0x9C, 0x40, 0, 56]"
  "take 48 (drop 42 valid_reply) = 0x24 # replicate 47 0"
  "udp_start valid_reply = 34" "is_ntp_reply valid_reply 123"
  by code_simp+

lemma words_of_zeros: "words_of (replicate (2 * n) 0) = replicate n 0"
  by (induction n) (simp_all add: be16_def)

lemma valid_reply_csum: "udp_csum_valid [] valid_reply"
proof -
  have "0x24 # replicate 47 (0 :: u8) = 0x24 # 0 # replicate (2 * 23) 0" by (simp add: numeral_eq_Suc)
  then have "words_of (0x24 # replicate 47 0) = be16 0x24 0 # words_of (replicate (2 * 23) 0)"
    by (simp only: words_of.simps)
  then have "words_of (0x24 # replicate 47 0) = be16 0x24 0 # replicate 23 0"
    by (simp only: words_of_zeros)
  then have "sum_list (map unat (words_of [0, 123, 0x9C, 0x40, 0, 56] @ words_of (0x24 # replicate 47 0))) = 49395"
    by (simp add: be16_unat sum_list_replicate)
  moreover have "ones_fold 49395 = 49395" by (subst ones_fold.simps) simp
  ultimately show ?thesis
    by (simp only: udp_csum_valid_def valid_reply_bytes udp_checksum_def Let_def append_Nil)
      (simp add: valid_reply_bytes be16_unat)
qed

theorem patched_checksum_valid_witness:
  "udp_csum_valid [] (patched_frame valid_reply [0xEA, 1, 2, 3, 4, 5, 6, 7])"
  using patched_checksum_valid [of valid_reply 123 "[0xEA, 1, 2, 3, 4, 5, 6, 7]" "[]"] valid_reply_bytes valid_reply_csum
  by simp

end
