(* ===== verification/ServerState.thy ===== *)
theory ServerState
  imports ArpWait HookRing NtpTime SendEstimator W5500Spi
begin

text \<open>
  The state of \<open>NTPServer\<close> (\<open>components/ntp_server/ntp_server.h\<close>) on ESP-IDF: its switches, its
  estimators, the rings it shares between tasks, the telemetry windows and the diagnostics ring
  with its dump. Sensors, sockets and logging are left out.
\<close>

subsection \<open>Telemetry windows\<close>

record window_max =
  wm_value :: int
  wm_count :: u32

definition window_init :: window_max where
  "window_init = \<lparr>wm_value = 0, wm_count = 0\<rparr>"

text \<open>The compare-and-exchange loop of \<open>add\<close>, run without interference; \<open>WindowRace\<close> has the others.\<close>

definition window_add :: "int \<Rightarrow> window_max \<Rightarrow> window_max" where
  "window_add v w =
     (let cur = wm_value w;
          w = (if (if v < 0 then - v else v) > (if cur < 0 then - cur else cur)
               then w\<lparr>wm_value := v\<rparr> else w) in
      w\<lparr>wm_count := wm_count w + 1\<rparr>)"

definition window_take :: "window_max \<Rightarrow> int option \<times> window_max" where
  "window_take w =
     (if wm_count w = 0 then (None, w\<lparr>wm_count := 0\<rparr>)
      else (Some (wm_value w), w\<lparr>wm_count := 0, wm_value := 0\<rparr>))"

subsection \<open>The diagnostics ring\<close>

datatype refuse_reason = REFUSE_NONE | REFUSE_OLD_EDGE | REFUSE_NO_EDGE | REFUSE_HOOK_MISS
  | REFUSE_ARP_UNRESOLVED

record diag_record =
  dg_t2_us :: int
  dg_client_tx :: "u8 list"
  dg_flags :: u16
  dg_int_lead_us :: int
  dg_rx_gap_us :: int
  dg_hook_latency_us :: int
  dg_send_us :: int
  dg_sendto_us :: int
  dg_lock_wait_us :: int
  dg_estimate_us :: int
  dg_arp_wait_us :: int
  dg_refuse_reason :: refuse_reason
  dg_send_class :: "frame_class option"
  dg_tx_write_start_us :: int
  dg_tx_write_end_us :: int
  dg_rx_rsr :: int
  dg_frame_len :: int
  dg_patched :: bool
  dg_patch_to_send_us :: int
  dg_patch_pred_us :: int
  dg_t3_calc_to_t0_us :: int
  dg_sendok_interval_us :: int

definition diag_record_zero :: diag_record where
  "diag_record_zero = \<lparr>dg_t2_us = 0, dg_client_tx = replicate 8 0, dg_flags = 0, dg_int_lead_us = 0,
     dg_rx_gap_us = 0, dg_hook_latency_us = 0, dg_send_us = 0, dg_sendto_us = 0,
     dg_lock_wait_us = 0, dg_estimate_us = 0, dg_arp_wait_us = 0, dg_refuse_reason = REFUSE_NONE,
     dg_send_class = None, dg_tx_write_start_us = 0, dg_tx_write_end_us = 0, dg_rx_rsr = 0,
     dg_frame_len = 0, dg_patched = False, dg_patch_to_send_us = 0, dg_patch_pred_us = 0,
     dg_t3_calc_to_t0_us = 0, dg_sendok_interval_us = 0\<rparr>"

definition DIAG_HOOK_HIT :: u16 where "DIAG_HOOK_HIT = 0x01"
definition DIAG_RX_STALLED :: u16 where "DIAG_RX_STALLED = 0x02"
definition DIAG_REFUSED :: u16 where "DIAG_REFUSED = 0x04"
definition DIAG_RESEEDED :: u16 where "DIAG_RESEEDED = 0x08"
definition DIAG_SEND_LONG :: u16 where "DIAG_SEND_LONG = 0x10"
definition DIAG_FALLBACK :: u16 where "DIAG_FALLBACK = 0x20"
definition DIAG_ARP_MISS :: u16 where "DIAG_ARP_MISS = 0x40"
definition DIAG_SEND_NOT_NTP :: u16 where "DIAG_SEND_NOT_NTP = 0x80"
definition DIAG_INT_EDGE_T2 :: u16 where "DIAG_INT_EDGE_T2 = 0x100"
definition DIAG_T2_FRAME_START :: u16 where "DIAG_T2_FRAME_START = 0x200"
definition DIAG_CHIP_LATENCY_T2 :: u16 where "DIAG_CHIP_LATENCY_T2 = 0x400"
definition DIAG_RING_SIZE :: nat where "DIAG_RING_SIZE = 1024"

record diag_slot =
  ds_seq :: u32
  ds_rec :: diag_record

definition diag_slot_init :: diag_slot where
  "diag_slot_init = \<lparr>ds_seq = 0, ds_rec = diag_record_zero\<rparr>"

subsection \<open>The server\<close>

record ntp_server =
  sv_port :: u16
  sv_precision :: int
  sv_precision_anchor :: int
  sv_use_pps_anchor :: bool
  sv_send_estimator :: send_estimator
  sv_last_t3_clock_read_us :: int
  sv_hook_ring :: hook_ring
  sv_hooked :: bool
  sv_hook_latency_win :: window_max
  sv_int_lead_win :: window_max
  sv_t3_error_win :: window_max
  sv_rx_stamp_gap_win :: window_max
  sv_arp :: arp_clients
  sv_arp_waits :: u32
  sv_refused :: u32
  sv_telemetry_last_ms :: u32
  sv_strict_rx_admission :: bool
  sv_int_edge_t2 :: bool
  sv_t2_frame_start :: bool
  sv_chip_latency :: bool
  sv_last_int_edge_seq_for_t2 :: u32
  sv_diag_ring :: "diag_slot list option"
  sv_diag_next :: nat
  sv_diagnostics :: bool
  sv_diag_socket :: int
  sv_short_int_wait_policy :: bool
  sv_last_int_level_readback :: u16
  sv_short_wait_effective :: bool
  sv_int_level_recheck_ms :: u32
  sv_patch_delay :: patch_delay_estimator

definition ntp_server_init :: "u16 \<Rightarrow> ntp_server" where
  "ntp_server_init port = \<lparr>sv_port = port, sv_precision = - 20, sv_precision_anchor = - 20,
     sv_use_pps_anchor = True, sv_send_estimator = send_estimator_init,
     sv_last_t3_clock_read_us = 0, sv_hook_ring = hook_ring_init, sv_hooked = False,
     sv_hook_latency_win = window_init, sv_int_lead_win = window_init,
     sv_t3_error_win = window_init, sv_rx_stamp_gap_win = window_init,
     sv_arp = arp_clients_init, sv_arp_waits = 0, sv_refused = 0, sv_telemetry_last_ms = 0,
     sv_strict_rx_admission = True, sv_int_edge_t2 = True, sv_t2_frame_start = True,
     sv_chip_latency = True, sv_last_int_edge_seq_for_t2 = 0, sv_diag_ring = None,
     sv_diag_next = 0, sv_diagnostics = False, sv_diag_socket = - 1, sv_short_int_wait_policy = True,
     sv_last_int_level_readback = 0, sv_short_wait_effective = False,
     sv_int_level_recheck_ms = 0, sv_patch_delay = patch_delay_init\<rparr>"

definition set_post_write_t3 :: "bool \<Rightarrow> ntp_server \<Rightarrow> w5500 \<Rightarrow> w5500" where
  "set_post_write_t3 enable s w =
     (if enable then w5500_set_tx_patch True (sv_port s) w else w5500_set_tx_patch False 0 w)"

text \<open>
  \<open>setup\<close> after the socket is bound: whether the input path could be redirected to the hook, and
  the precisions measured for the two clocks.
\<close>

definition server_setup ::
  "bool \<Rightarrow> int list \<Rightarrow> int list \<Rightarrow> ntp_server \<times> w5500 \<Rightarrow> ntp_server \<times> w5500" where
  "server_setup hook_installed tv_deltas timer_deltas x = (case x of (s, w) \<Rightarrow>
     (s\<lparr>sv_hooked := hook_installed,
        sv_precision := clock_precision (best_read_cost tv_deltas),
        sv_precision_anchor := clock_precision (best_read_cost timer_deltas)\<rparr>,
      set_post_write_t3 True s (set_post_write_t3 True s w)))"

subsection \<open>Recording and dumping requests\<close>

definition diag_store :: "diag_record \<Rightarrow> diag_slot list \<Rightarrow> nat \<Rightarrow> diag_slot list" where
  "diag_store rec ring i = ring[i := \<lparr>ds_seq = ds_seq (ring ! i) + 1 + 1, ds_rec = rec\<rparr>]"

definition diag_record_op :: "diag_record \<Rightarrow> ntp_server \<Rightarrow> ntp_server" where
  "diag_record_op rec s = (case sv_diag_ring s of None \<Rightarrow> s
     | Some ring \<Rightarrow> if \<not> sv_diagnostics s then s
         else s\<lparr>sv_diag_ring := Some (diag_store rec ring (sv_diag_next s)),
                sv_diag_next := (sv_diag_next s + 1) mod DIAG_RING_SIZE\<rparr>)"

definition set_diagnostics :: "bool \<Rightarrow> bool \<Rightarrow> bool \<Rightarrow> ntp_server \<times> w5500 \<Rightarrow> ntp_server \<times> w5500" where
  "set_diagnostics enable ring_alloc net_alloc x = (case x of (s, w) \<Rightarrow>
     let s' = (if enable \<and> sv_diag_ring s = None \<and> ring_alloc
               then s\<lparr>sv_diag_ring := Some (replicate DIAG_RING_SIZE diag_slot_init)\<rparr> else s) in
     if enable \<and> sv_diag_ring s' = None then (s', w)
     else (s'\<lparr>sv_diagnostics := enable\<rparr>, w\<lparr>w_net := set_net_recorder net_alloc enable (w_net w)\<rparr>))"

text \<open>
  One slot of a dump: up to three attempts, each the number before, the copy and the number
  after; a record whose time is 0 was never written.
\<close>

fun dump_attempts :: "(u32 \<times> diag_record \<times> u32) list \<Rightarrow> diag_record option" where
  "dump_attempts [] = None"
| "dump_attempts ((s1, rec, s2) # rs) =
    (if s1 AND 1 \<noteq> 0 then dump_attempts rs else if s2 = s1 then Some rec else dump_attempts rs)"

definition dump_slot :: "(u32 \<times> diag_record \<times> u32) list \<Rightarrow> diag_record option" where
  "dump_slot reads = (case dump_attempts (take 3 reads) of None \<Rightarrow> None
     | Some rec \<Rightarrow> if dg_t2_us rec = 0 then None else Some rec)"

definition quiet_reads :: "diag_slot \<Rightarrow> (u32 \<times> diag_record \<times> u32) list" where
  "quiet_reads d = replicate 3 (ds_seq d, ds_rec d, ds_seq d)"

definition dump_requests :: "ntp_server \<Rightarrow> diag_record list" where
  "dump_requests s = (case sv_diag_ring s of None \<Rightarrow> []
     | Some ring \<Rightarrow> List.map_filter
         (\<lambda>i. dump_slot (quiet_reads (ring ! ((sv_diag_next s + i) mod DIAG_RING_SIZE))))
         [0..<DIAG_RING_SIZE])"

text \<open>The recorder in use: the ring is there and no slot is being written.\<close>

definition diag_ok :: "ntp_server \<Rightarrow> bool" where
  "diag_ok s \<longleftrightarrow> sv_diagnostics s \<and> sv_diag_next s < DIAG_RING_SIZE \<and>
     (case sv_diag_ring s of None \<Rightarrow> False
      | Some ring \<Rightarrow> length ring = DIAG_RING_SIZE \<and> (\<forall>d \<in> set ring. even (ds_seq d)))"

definition diag_recs :: "ntp_server \<Rightarrow> diag_record list" where
  "diag_recs s = (case sv_diag_ring s of None \<Rightarrow> [] | Some ring \<Rightarrow> map ds_rec ring)"

interpretation diag: overwriting_ring diag_record_op diag_recs sv_diag_next diag_ok
  "\<lambda>_. True" DIAG_RING_SIZE
proof
  fix r :: ntp_server and x :: diag_record
  assume r: "diag_ok r"
  then obtain ring where ring: "sv_diag_ring r = Some ring" "length ring = DIAG_RING_SIZE"
    "\<forall>d \<in> set ring. even (ds_seq d)" "sv_diagnostics r" "sv_diag_next r < DIAG_RING_SIZE"
    by (auto simp: diag_ok_def split: option.splits)
  then have e: "even (ds_seq (ring ! sv_diag_next r))" by simp
  show "length (diag_recs r) = DIAG_RING_SIZE" "sv_diag_next r < DIAG_RING_SIZE"
    using ring by (simp_all add: diag_recs_def)
  show "diag_recs (diag_record_op x r) = (diag_recs r)[sv_diag_next r := x]"
    "sv_diag_next (diag_record_op x r) = Suc (sv_diag_next r) mod DIAG_RING_SIZE"
    using ring by (simp_all add: diag_recs_def diag_record_op_def diag_store_def map_update)
  show "diag_ok (diag_record_op x r)"
    using ring e by (auto simp: diag_ok_def diag_record_op_def diag_store_def DIAG_RING_SIZE_def
        dest!: set_update_subset_insert [THEN subsetD])
qed

lemma dump_quiet:
  "even (ds_seq d) \<Longrightarrow> dump_slot (quiet_reads d) = (if dg_t2_us (ds_rec d) = 0 then None else Some (ds_rec d))"
  by (simp add: dump_slot_def quiet_reads_def numeral_3_eq_3 and_one_eq even_iff_mod_2_eq_zero)

lemma nth_oldest_first:
  "i < length xs \<Longrightarrow> n < length xs \<Longrightarrow> oldest_first n xs ! i = xs ! ((n + i) mod length xs)"
  by (auto simp: oldest_first_def nth_append mod_if add.commute)

lemma dump_requests_contents:
  assumes "diag_ok s"
  shows "dump_requests s = filter (\<lambda>d. dg_t2_us d \<noteq> 0) (diag.contents s)"
proof -
  obtain ring where ring: "sv_diag_ring s = Some ring" "length ring = DIAG_RING_SIZE"
    "\<forall>d \<in> set ring. even (ds_seq d)" "sv_diag_next s < DIAG_RING_SIZE"
    using assms by (auto simp: diag_ok_def split: option.splits)
  have pos: "0 < DIAG_RING_SIZE" by (simp add: DIAG_RING_SIZE_def)
  have slot: "dump_slot (quiet_reads (ring ! ((sv_diag_next s + i) mod DIAG_RING_SIZE))) =
      (let d = diag.contents s ! i in if dg_t2_us d = 0 then None else Some d)"
    if "i < DIAG_RING_SIZE" for i
  proof -
    have "(sv_diag_next s + i) mod DIAG_RING_SIZE < length ring" using ring pos by simp
    moreover from this have "even (ds_seq (ring ! ((sv_diag_next s + i) mod DIAG_RING_SIZE)))"
      using ring(3) nth_mem by blast
    moreover have "diag.contents s ! i = map ds_rec ring ! ((sv_diag_next s + i) mod DIAG_RING_SIZE)"
      using ring that nth_oldest_first [of i "map ds_rec ring" "sv_diag_next s"]
      by (simp add: diag.contents_def diag_recs_def)
    ultimately show ?thesis by (simp add: dump_quiet Let_def)
  qed
  have len: "length (diag.contents s) = DIAG_RING_SIZE" using diag.length_contents [OF assms] .
  have "dump_requests s = List.map_filter
      (\<lambda>i. (let d = diag.contents s ! i in if dg_t2_us d = 0 then None else Some d)) [0..<DIAG_RING_SIZE]"
    unfolding dump_requests_def ring(1) option.case map_filter_def
    by (intro arg_cong2 [where f = map] filter_cong map_cong refl)
      (auto simp: slot)
  also have "\<dots> = filter (\<lambda>d. dg_t2_us d \<noteq> 0) (map (nth (diag.contents s)) [0..<DIAG_RING_SIZE])"
    by (simp add: map_filter_def filter_map o_def Let_def)
  also have "map (nth (diag.contents s)) [0..<DIAG_RING_SIZE] = diag.contents s"
    unfolding len [symmetric] by (rule map_nth)
  finally show ?thesis .
qed

text \<open>
  A dump is the truth about the last requests. From a freshly enabled recorder, after any
  sequence of recorded requests with a nonzero time, the dump lists exactly the last 1024 of
  them, oldest first, each record whole.
\<close>

theorem dump_lists_last_requests:
  assumes "sv_diag_ring s = Some (replicate DIAG_RING_SIZE diag_slot_init)"
    "sv_diagnostics s" "sv_diag_next s < DIAG_RING_SIZE" "\<forall>d \<in> set ds. dg_t2_us d \<noteq> 0"
  shows "dump_requests (fold diag_record_op ds s) = drop (length ds - 1024) ds"
proof -
  have ok: "diag_ok s" using assms by (simp add: diag_ok_def diag_slot_init_def)
  have c: "diag.contents s = replicate DIAG_RING_SIZE diag_record_zero"
    using assms(1,3) by (simp add: diag.contents_def diag_recs_def oldest_first_def
        diag_slot_init_def flip: replicate_add)
  have "dump_requests (fold diag_record_op ds s) =
      filter (\<lambda>d. dg_t2_us d \<noteq> 0) (drop (length ds) (diag.contents s @ ds))"
    using diag.fold_ok [OF ok, of ds] diag.contents_fold [OF ok, of ds]
    by (simp add: dump_requests_contents)
  also have "\<dots> = filter (\<lambda>d. dg_t2_us d \<noteq> 0) (drop (length ds - DIAG_RING_SIZE) ds)"
    by (simp add: c drop_replicate diag_record_zero_def)
  also have "\<dots> = drop (length ds - DIAG_RING_SIZE) ds"
    using assms(4) by (auto intro!: filter_True dest: in_set_dropD)
  finally show ?thesis by (simp add: DIAG_RING_SIZE_def)
qed

theorem dump_lists_last_requests_witness:
  "let s = (ntp_server_init 123)\<lparr>sv_diag_ring := Some (replicate DIAG_RING_SIZE diag_slot_init),
       sv_diagnostics := True\<rparr>; d = diag_record_zero\<lparr>dg_t2_us := 5\<rparr> in
   dump_requests (diag_record_op d s) = [d]"
  using dump_lists_last_requests [of "(ntp_server_init 123)\<lparr>sv_diag_ring := Some (replicate DIAG_RING_SIZE diag_slot_init),
       sv_diagnostics := True\<rparr>" "[diag_record_zero\<lparr>dg_t2_us := 5\<rparr>]"]
  by (simp add: Let_def ntp_server_init_def DIAG_RING_SIZE_def)

subsection \<open>Publishing the windows\<close>

definition loop_telemetry :: "u32 \<Rightarrow> ntp_server \<Rightarrow> ntp_server \<times> int option list" where
  "loop_telemetry now_ms s =
     (if now_ms - sv_telemetry_last_ms s < 10000 then (s, [])
      else let s = s\<lparr>sv_telemetry_last_ms := now_ms\<rparr>;
               (e, ew) = window_take (sv_t3_error_win s);
               (l, lw) = window_take (sv_int_lead_win s);
               (g, gw) = window_take (sv_rx_stamp_gap_win s);
               (h, hw) = window_take (sv_hook_latency_win s) in
        (s\<lparr>sv_t3_error_win := ew, sv_int_lead_win := lw, sv_rx_stamp_gap_win := gw,
           sv_hook_latency_win := hw\<rparr>, [e, l, g, h]))"

text \<open>A window reports the first sample of the largest magnitude since it was last taken.\<close>

lemma window_add_abs:
  "\<bar>wm_value (window_add v w)\<bar> = max \<bar>v\<bar> \<bar>wm_value w\<bar>"
  by (auto simp: window_add_def Let_def)

lemma window_holds_extreme:
  "vs \<noteq> [] \<Longrightarrow> wm_value w = 0 \<Longrightarrow>
   \<bar>wm_value (fold window_add vs w)\<bar> = Max (abs ` set vs)"
proof (induction vs rule: rev_induct)
  case (snoc v vs)
  then show ?case by (cases "vs = []") (simp_all add: window_add_abs max.commute)
qed simp

end
