(* ===== verification/RxHook.thy ===== *)
theory RxHook
  imports RxAdmission ServerState TxPatch
begin

text \<open>
  \<open>NTPServer::eth_input_hook_\<close> of \<open>components/ntp_server/ntp_server.cpp\<close>: every frame the driver
  delivers passes it. It recognises requests, dates their arrival (T2) from the earliest stamp
  that provably belongs to the frame, corrects it for the frame's duration and the chip's
  latency, records it for the serving task and forwards the frame.
\<close>

subsection \<open>Recognising a request\<close>

lemmas hdr_consts = ETH_HDR_LEN_def MIN_IPV4_HDR_LEN_def UDP_HDR_LEN_def NTP_PACKET_SIZE_def

text \<open>
  The outer option is \<open>None\<close> when the code would read outside the frame; the inner one holds the
  offsets of the UDP header and of the payload of a request.
\<close>

definition find_request :: "u16 \<Rightarrow> u8 list \<Rightarrow> (nat \<times> nat) option option" where
  "find_request port f =
     (if length f \<ge> ETH_HDR_LEN + MIN_IPV4_HDR_LEN then do {
        ethertype \<leftarrow> rd16 f 12;
        if ethertype = 0x0800 then do {
          vihl \<leftarrow> rd f ETH_HDR_LEN;
          let ihl = unat (vihl AND 0x0F);
          let udp_offset = ETH_HDR_LEN + ihl * 4;
          if ihl \<ge> 5 \<and> length f \<ge> udp_offset + UDP_HDR_LEN then do {
            proto \<leftarrow> rd f (ETH_HDR_LEN + 9);
            if proto = 17 then do {
              dst_port \<leftarrow> rd16 f (udp_offset + 2);
              let ntp_offset = udp_offset + UDP_HDR_LEN;
              if dst_port = port \<and> length f \<ge> ntp_offset + NTP_PACKET_SIZE
              then Some (Some (udp_offset, ntp_offset)) else Some None
            } else Some None
          } else Some None
        } else Some None
      } else Some None)"

text \<open>Integers copied out of the frame keep the byte order of memory.\<close>

definition of_mem32 :: "u8 list \<Rightarrow> u32" where
  "of_mem32 b = of_be32 (rev b)"

definition of_mem16 :: "u8 list \<Rightarrow> u16" where
  "of_mem16 b = be16 (b ! 1) (b ! 0)"

definition request_key :: "u8 list \<Rightarrow> nat \<Rightarrow> nat \<Rightarrow> (u8 list \<times> u32 \<times> u16) option" where
  "request_key f udp_offset ntp_offset = do {
     ip \<leftarrow> rdn f (ETH_HDR_LEN + 12) 4;
     port \<leftarrow> rdn f udp_offset 2;
     tx \<leftarrow> rdn f (ntp_offset + 40) 8;
     Some (tx, of_mem32 ip, of_mem16 port)
   }"

subsection \<open>Dating its arrival\<close>

definition FRAME_START_NS_PER_BYTE :: u32 where "FRAME_START_NS_PER_BYTE = 80"
definition FRAME_START_FCS_BYTES :: u32 where "FRAME_START_FCS_BYTES = 4"
definition FRAME_START_MAX_CORRECTION_US :: int where "FRAME_START_MAX_CORRECTION_US = 130"
definition W5500_RX_STAMP_LATE_US :: int where "W5500_RX_STAMP_LATE_US = 17"

lemmas t2_consts = FRAME_START_NS_PER_BYTE_def FRAME_START_FCS_BYTES_def
  FRAME_START_MAX_CORRECTION_US_def W5500_RX_STAMP_LATE_US_def

text \<open>The raw measurement of the interrupt edge, before any verdict.\<close>

definition note_edge :: "int_stamp \<Rightarrow> rx_stamps \<Rightarrow> ntp_server \<times> hook_info \<Rightarrow> ntp_server \<times> hook_info" where
  "note_edge ist st x = (case x of (s, i) \<Rightarrow>
     let e = evaluate_rx_edge (is_seq ist) (is_edge_us ist) (rxs_burst_start_us st);
         i = i\<lparr>hi_capture_armed := (is_seq ist \<noteq> 0), hi_edge_usable := rx_edge_usable e,
               hi_lead_us := rx_lead_us e\<rparr> in
     if rx_edge_usable e
     then (s\<lparr>sv_int_lead_win := window_add (rx_lead_us e) (sv_int_lead_win s)\<rparr>,
           i\<lparr>hi_int_lead_us := rx_lead_us e\<rparr>)
     else (s, i))"

text \<open>The stamp of the driver's size read or of the burst it opened, when it is this frame's.\<close>

definition arrival_stamp :: "rx_stamps \<Rightarrow> u32" where
  "arrival_stamp st =
     (if rxs_burst_start_us st \<noteq> 0 then
        (let lead = i32 (rxs_size_read_us st - rxs_burst_start_us st) in
         if lead > 0 \<and> lead < 1000 then rxs_burst_start_us st else rxs_size_read_us st)
      else rxs_size_read_us st)"

definition refine_size_read ::
  "int \<Rightarrow> nat \<Rightarrow> rx_stamps \<Rightarrow> ntp_server \<times> hook_info \<Rightarrow> ntp_server \<times> hook_info" where
  "refine_size_read t len st x = (case x of (s, i) \<Rightarrow>
     if rxs_size_read_us st \<noteq> 0 \<and> rxs_payloads_since_size_read st = 1 then
       let i = i\<lparr>hi_rx_rsr := int (unat (rxs_size_value st)), hi_frame_len := to_i32 (int len)\<rparr>;
           gap = i32 (to_u32 t - arrival_stamp st) in
       if gap > 0 \<and> gap < 20000
       then (s\<lparr>sv_rx_stamp_gap_win := window_add gap (sv_rx_stamp_gap_win s)\<rparr>,
             i\<lparr>hi_t := t - gap, hi_rx_gap_us := gap\<rparr>)
       else (s, i)
     else (s, i))"

text \<open>Design E: the interrupt edge itself, once.\<close>

definition refine_int_edge :: "int \<Rightarrow> int_stamp \<Rightarrow> ntp_server \<times> hook_info \<Rightarrow> ntp_server \<times> hook_info" where
  "refine_int_edge t ist x = (case x of (s, i) \<Rightarrow>
     if sv_int_edge_t2 s \<and> hi_edge_usable i \<and> hi_lead_us i > 0 \<and>
        hi_lead_us i < RX_EDGE_LEAD_STRICT_US \<and> is_seq ist \<noteq> sv_last_int_edge_seq_for_t2 s then
       let edge_gap = i32 (to_u32 t - is_edge_us ist) in
       if edge_gap > 0 \<and> edge_gap < RX_STALL_EDGE_MAX_AGE_US
       then (s\<lparr>sv_last_int_edge_seq_for_t2 := is_seq ist\<rparr>,
             i\<lparr>hi_t := t - edge_gap, hi_t2_from_edge := True\<rparr>)
       else (s, i)
     else (s, i))"

text \<open>Design G: back to the frame's first bit; design J: the chip's own latency.\<close>

definition frame_duration_us :: "nat \<Rightarrow> int" where
  "frame_duration_us len =
     i32 ((of_nat len + FRAME_START_FCS_BYTES) * FRAME_START_NS_PER_BYTE div 1000)"

definition refine_frame_start :: "nat \<Rightarrow> ntp_server \<times> hook_info \<Rightarrow> ntp_server \<times> hook_info" where
  "refine_frame_start len x = (case x of (s, i) \<Rightarrow>
     if sv_t2_frame_start s then
       let duration_us = frame_duration_us len in
       if duration_us > 0 \<and> duration_us \<le> FRAME_START_MAX_CORRECTION_US
       then (s, i\<lparr>hi_t := hi_t i - duration_us, hi_t2_from_frame_start := True\<rparr>)
       else (s, i)
     else (s, i))"

definition refine_chip_latency :: "ntp_server \<times> hook_info \<Rightarrow> ntp_server \<times> hook_info" where
  "refine_chip_latency x = (case x of (s, i) \<Rightarrow>
     if sv_chip_latency s
     then (s, i\<lparr>hi_t := hi_t i - W5500_RX_STAMP_LATE_US, hi_t2_chip_latency := True\<rparr>)
     else (s, i))"

definition date_request ::
  "int \<Rightarrow> nat \<Rightarrow> int_stamp \<Rightarrow> rx_stamps \<Rightarrow> ntp_server \<Rightarrow> ntp_server \<times> hook_info" where
  "date_request t len ist st s =
     refine_chip_latency (refine_frame_start len (refine_int_edge t ist
       (refine_size_read t len st (note_edge ist st (s, hook_info_init\<lparr>hi_t := t\<rparr>)))))"

subsection \<open>The hook\<close>

text \<open>
  The whole callback: \<open>t\<close> is the 64-bit clock on entry. The result is the new state and the frame
  handed to the network stack; \<open>None\<close> is an access outside the frame.
\<close>

definition record_request_frame ::
  "int \<Rightarrow> w5500 \<Rightarrow> u8 list \<Rightarrow> nat \<Rightarrow> nat \<Rightarrow> ntp_server \<Rightarrow> ntp_server option" where
  "record_request_frame t w f udp_offset ntp_offset s =
     (let (s, info) = date_request t (length f) (w5500_int_stamp w) (w5500_rx_stamps w) s in do {
      (tx, src_ip, src_port) \<leftarrow> request_key f udp_offset ntp_offset;
      Some (s\<lparr>sv_hook_ring := hr_record tx src_ip src_port info (sv_hook_ring s)\<rparr>)
    })"

definition eth_input_hook :: "int \<Rightarrow> w5500 \<Rightarrow> u8 list \<Rightarrow> ntp_server \<Rightarrow> (ntp_server \<times> u8 list) option" where
  "eth_input_hook t w f s = do {
     found \<leftarrow> find_request (sv_port s) f;
     s \<leftarrow> (case found of None \<Rightarrow> Some s
          | Some (udp_offset, ntp_offset) \<Rightarrow> record_request_frame t w f udp_offset ntp_offset s);
     Some (s, f)
   }"

declare note_edge_def [step_defs] refine_size_read_def [step_defs] refine_int_edge_def [step_defs]
  refine_frame_start_def [step_defs] refine_chip_latency_def [step_defs]


subsection \<open>Safety of the parser\<close>

lemma find_request_total: "\<exists>r. find_request port f = Some r"
proof -
  have "unat (b AND 0x0F) < 16" for b :: u8
    using word_and_le1 [of b "0x0F"] by (simp add: word_le_nat_alt)
  then show ?thesis
    by (auto simp: find_request_def hdr_consts Let_def)
qed

lemma find_request_found:
  assumes "find_request port f = Some (Some (u, n))"
  shows "n = u + 8 \<and> 34 \<le> u \<and> n + 48 \<le> length f \<and>
    u = 14 + unat (f ! 14 AND 0x0F) * 4 \<and> rd16 f 12 = Some 0x0800 \<and> f ! 23 = 17 \<and>
    rd16 f (u + 2) = Some port"
  using assms
  by (auto simp: find_request_def hdr_consts Let_def rd_Some_iff bind_eq_Some_conv split: if_splits)

lemma request_key_total:
  assumes "find_request port f = Some (Some (u, n))"
  shows "request_key f u n = Some (take 8 (drop (n + 40) f), of_mem32 (take 4 (drop 26 f)),
    of_mem16 (take 2 (drop u f)))"
  using find_request_found [OF assms] by (simp add: request_key_def hdr_consts)

lemma eth_input_hook_eq:
  "eth_input_hook t w f s = Some (case find_request (sv_port s) f of
      Some (Some (u, n)) \<Rightarrow>
        (let (s', info) = date_request t (length f) (w5500_int_stamp w) (w5500_rx_stamps w) s in
         (s'\<lparr>sv_hook_ring := hr_record (take 8 (drop (n + 40) f)) (of_mem32 (take 4 (drop 26 f)))
              (of_mem16 (take 2 (drop u f))) info (sv_hook_ring s')\<rparr>, f))
    | _ \<Rightarrow> (s, f))"
proof -
  obtain r where r: "find_request (sv_port s) f = Some r" using find_request_total by blast
  show ?thesis
  proof (cases r)
    case (Some un)
    obtain u n where "r = Some (u, n)" using Some by (cases un) simp
    with r request_key_total [of "sv_port s" f u n] show ?thesis
      by (simp add: eth_input_hook_def record_request_frame_def split: prod.splits)
  qed (simp add: eth_input_hook_def r)
qed

subsection \<open>What each refinement does\<close>

lemma to_i32_gap: "i32 (to_u32 t - to_u32 e) = to_i32 (t - e)"
  by (rule clock_diff)

lemma frame_duration:
  assumes "len < 53687087"
  shows "frame_duration_us len = int ((len + 4) * 80 div 1000)"
proof -
  define k where "k = (len + 4) * 80"
  have lt: "k < 4294967296" using assms by (simp add: k_def)
  have w: "(of_nat len + FRAME_START_FCS_BYTES) * FRAME_START_NS_PER_BYTE = (of_nat k :: u32)"
    by (simp add: t2_consts k_def)
  have "unat (of_nat k div 1000 :: u32) = k div 1000"
    using lt by (simp add: unat_div unat_of_nat)
  moreover have "k div 1000 < 2147483648" using lt by simp
  ultimately show ?thesis
    unfolding frame_duration_us_def w i32_def k_def [symmetric]
    by (simp add: sint_uint uint_nat signed_take_bit_int_eq_self)
qed

text \<open>The time of a request through the chain, as one expression.\<close>

definition frame_start_shift :: "ntp_server \<Rightarrow> nat \<Rightarrow> int" where
  "frame_start_shift s len =
     (if sv_t2_frame_start s \<and> 0 < frame_duration_us len \<and> frame_duration_us len \<le> 130
      then frame_duration_us len else 0)"

definition chip_shift :: "ntp_server \<Rightarrow> int" where
  "chip_shift s = (if sv_chip_latency s then 17 else 0)"

definition size_read_gap :: "int \<Rightarrow> rx_stamps \<Rightarrow> int" where
  "size_read_gap t st =
     (if rxs_size_read_us st \<noteq> 0 \<and> rxs_payloads_since_size_read st = 1
      then (let gap = i32 (to_u32 t - arrival_stamp st) in if 0 < gap \<and> gap < 20000 then gap else 0)
      else 0)"

definition edge_applies :: "int \<Rightarrow> int_stamp \<Rightarrow> rx_stamps \<Rightarrow> ntp_server \<Rightarrow> bool" where
  "edge_applies t ist st s \<longleftrightarrow>
     (let e = evaluate_rx_edge (is_seq ist) (is_edge_us ist) (rxs_burst_start_us st);
          gap = i32 (to_u32 t - is_edge_us ist) in
      sv_int_edge_t2 s \<and> rx_edge_usable e \<and> 0 < rx_lead_us e \<and> rx_lead_us e < 200 \<and>
      is_seq ist \<noteq> sv_last_int_edge_seq_for_t2 s \<and> 0 < gap \<and> gap < 2000000)"

lemma note_edge_keeps:
  "note_edge ist st (s, i) = (s', i') \<Longrightarrow>
   sv_int_edge_t2 s' = sv_int_edge_t2 s \<and> sv_t2_frame_start s' = sv_t2_frame_start s \<and>
   sv_chip_latency s' = sv_chip_latency s \<and>
   sv_last_int_edge_seq_for_t2 s' = sv_last_int_edge_seq_for_t2 s \<and> hi_t i' = hi_t i \<and>
   hi_t2_from_edge i' = hi_t2_from_edge i \<and>
   hi_edge_usable i' = rx_edge_usable (evaluate_rx_edge (is_seq ist) (is_edge_us ist) (rxs_burst_start_us st)) \<and>
   hi_lead_us i' = rx_lead_us (evaluate_rx_edge (is_seq ist) (is_edge_us ist) (rxs_burst_start_us st)) \<and>
   hi_capture_armed i' = (is_seq ist \<noteq> 0)"
  by (auto simp: note_edge_def Let_def split: if_splits)

lemma refine_size_read_keeps:
  "refine_size_read t len st (s, i) = (s', i') \<Longrightarrow>
   sv_int_edge_t2 s' = sv_int_edge_t2 s \<and> sv_t2_frame_start s' = sv_t2_frame_start s \<and>
   sv_chip_latency s' = sv_chip_latency s \<and>
   sv_last_int_edge_seq_for_t2 s' = sv_last_int_edge_seq_for_t2 s \<and>
   hi_edge_usable i' = hi_edge_usable i \<and> hi_lead_us i' = hi_lead_us i \<and>
   hi_capture_armed i' = hi_capture_armed i \<and>
   hi_t2_from_edge i' = hi_t2_from_edge i \<and>
   hi_t i' = (if size_read_gap t st = 0 then hi_t i else t - size_read_gap t st)"
  by (auto simp: refine_size_read_def size_read_gap_def Let_def split: if_splits)

lemma refine_int_edge_keeps:
  "refine_int_edge t ist (s, i) = (s', i') \<Longrightarrow>
   applies = (sv_int_edge_t2 s \<and> hi_edge_usable i \<and> hi_lead_us i > 0 \<and> hi_lead_us i < 200 \<and>
      is_seq ist \<noteq> sv_last_int_edge_seq_for_t2 s \<and>
      i32 (to_u32 t - is_edge_us ist) > 0 \<and> i32 (to_u32 t - is_edge_us ist) < 2000000) \<Longrightarrow>
   sv_int_edge_t2 s' = sv_int_edge_t2 s \<and> sv_t2_frame_start s' = sv_t2_frame_start s \<and>
   sv_chip_latency s' = sv_chip_latency s \<and>
   hi_edge_usable i' = hi_edge_usable i \<and> hi_lead_us i' = hi_lead_us i \<and>
   hi_capture_armed i' = hi_capture_armed i \<and>
   sv_last_int_edge_seq_for_t2 s' = (if applies then is_seq ist else sv_last_int_edge_seq_for_t2 s) \<and>
   hi_t2_from_edge i' = (applies \<or> hi_t2_from_edge i) \<and>
   hi_t i' = (if applies then t - i32 (to_u32 t - is_edge_us ist) else hi_t i)"
  by (auto simp: refine_int_edge_def Let_def rx_consts split: if_splits)

lemma refine_frame_start_keeps:
  "refine_frame_start len (s, i) = (s', i') \<Longrightarrow>
   s' = s \<and> hi_edge_usable i' = hi_edge_usable i \<and> hi_lead_us i' = hi_lead_us i \<and>
   hi_capture_armed i' = hi_capture_armed i \<and> hi_t2_from_edge i' = hi_t2_from_edge i \<and>
   hi_t i' = hi_t i - frame_start_shift s len"
  by (auto simp: refine_frame_start_def Let_def frame_start_shift_def t2_consts split: if_splits)

lemma refine_chip_latency_keeps:
  "refine_chip_latency (s, i) = (s', i') \<Longrightarrow>
   s' = s \<and> hi_edge_usable i' = hi_edge_usable i \<and> hi_lead_us i' = hi_lead_us i \<and>
   hi_capture_armed i' = hi_capture_armed i \<and> hi_t2_from_edge i' = hi_t2_from_edge i \<and>
   hi_t i' = hi_t i - chip_shift s"
  by (auto simp: refine_chip_latency_def Let_def chip_shift_def t2_consts split: if_splits)

lemma date_request_cases:
  assumes "date_request t len ist st s = (s', i)"
  shows "hi_t i = t - (if edge_applies t ist st s then i32 (to_u32 t - is_edge_us ist) else size_read_gap t st)
     - frame_start_shift s len - chip_shift s \<and>
   hi_t2_from_edge i = edge_applies t ist st s \<and>
   sv_last_int_edge_seq_for_t2 s' =
     (if edge_applies t ist st s then is_seq ist else sv_last_int_edge_seq_for_t2 s) \<and>
   hi_capture_armed i = (is_seq ist \<noteq> 0) \<and>
   hi_edge_usable i = rx_edge_usable (evaluate_rx_edge (is_seq ist) (is_edge_us ist) (rxs_burst_start_us st)) \<and>
   hi_lead_us i = rx_lead_us (evaluate_rx_edge (is_seq ist) (is_edge_us ist) (rxs_burst_start_us st)) \<and>
   sv_int_edge_t2 s' = sv_int_edge_t2 s"
proof -
  obtain s1 i1 where 1: "note_edge ist st (s, hook_info_init\<lparr>hi_t := t\<rparr>) = (s1, i1)" by fastforce
  obtain s2 i2 where 2: "refine_size_read t len st (s1, i1) = (s2, i2)" by fastforce
  obtain s3 i3 where 3: "refine_int_edge t ist (s2, i2) = (s3, i3)" by fastforce
  obtain s4 i4 where 4: "refine_frame_start len (s3, i3) = (s4, i4)" by fastforce
  have 5: "refine_chip_latency (s4, i4) = (s', i)" using assms by (simp add: date_request_def 1 2 3 4)
  note k1 = note_edge_keeps [OF 1] and k2 = refine_size_read_keeps [OF 2]
  have a: "edge_applies t ist st s = (sv_int_edge_t2 s2 \<and> hi_edge_usable i2 \<and> hi_lead_us i2 > 0 \<and>
      hi_lead_us i2 < 200 \<and> is_seq ist \<noteq> sv_last_int_edge_seq_for_t2 s2 \<and>
      i32 (to_u32 t - is_edge_us ist) > 0 \<and> i32 (to_u32 t - is_edge_us ist) < 2000000)"
    using k1 k2 by (simp add: edge_applies_def Let_def)
  note k3 = refine_int_edge_keeps [OF 3 a] and k4 = refine_frame_start_keeps [OF 4]
    and k5 = refine_chip_latency_keeps [OF 5]
  have "hi_t i2 = t - size_read_gap t st" using k1 k2 by (simp add: hook_info_init_def)
  moreover have "\<not> hi_t2_from_edge i2" using k1 k2 by (simp add: hook_info_init_def)
  moreover have "frame_start_shift s3 len = frame_start_shift s len" "chip_shift s4 = chip_shift s"
    using k1 k2 k3 k4 by (simp_all add: frame_start_shift_def chip_shift_def)
  ultimately show ?thesis using k1 k2 k3 k4 k5 by (simp del: i32_def)
qed


lemma refinements_keep_ring [simp]:
  "sv_hook_ring (fst (note_edge ist st x)) = sv_hook_ring (fst x)"
  "sv_hook_ring (fst (refine_size_read t len st x)) = sv_hook_ring (fst x)"
  "sv_hook_ring (fst (refine_int_edge t ist x)) = sv_hook_ring (fst x)"
  "sv_hook_ring (fst (refine_frame_start len x)) = sv_hook_ring (fst x)"
  "sv_hook_ring (fst (refine_chip_latency x)) = sv_hook_ring (fst x)"
  by (cases x; simp add: step_defs Let_def)+

lemma date_request_keeps_ring [simp]:
  "sv_hook_ring (fst (date_request t len ist st s)) = sv_hook_ring s"
  by (simp add: date_request_def)

text \<open>What a reply is built from, and what decides whether there is one, is not the hook's to change.\<close>

definition serving_fields :: "ntp_server \<Rightarrow> (u16 \<times> int \<times> int \<times> bool \<times> bool) \<times> (bool \<times> bool \<times> bool) \<times>
    send_estimator \<times> patch_delay_estimator" where
  "serving_fields s = ((sv_port s, sv_precision s, sv_precision_anchor s, sv_use_pps_anchor s, sv_hooked s),
     (sv_strict_rx_admission s, sv_chip_latency s, sv_short_wait_effective s),
     sv_send_estimator s, sv_patch_delay s)"

lemma refinements_keep_serving:
  "serving_fields (fst (note_edge ist st x)) = serving_fields (fst x)"
  "serving_fields (fst (refine_size_read t len st x)) = serving_fields (fst x)"
  "serving_fields (fst (refine_int_edge t ist x)) = serving_fields (fst x)"
  "serving_fields (fst (refine_frame_start len x)) = serving_fields (fst x)"
  "serving_fields (fst (refine_chip_latency x)) = serving_fields (fst x)"
  by (cases x; simp add: step_defs Let_def serving_fields_def)+

lemma date_request_keeps_serving: "serving_fields (fst (date_request t len ist st s)) = serving_fields s"
  by (simp add: date_request_def refinements_keep_serving)

subsection \<open>Properties\<close>

text \<open>
  C19: The hook can take nothing down. For every frame of any length and content and every state
  it reads only bytes of the frame, returns, and hands exactly the received frame on; a frame
  that is not a request to the server's port leaves the server's state as it was.
\<close>

theorem hook_always_forwards:
  "find_request (sv_port s) f = Some None \<and> eth_input_hook t w f s = Some (s, f) \<or>
   (\<exists>u n s'. find_request (sv_port s) f = Some (Some (u, n)) \<and> n = u + 8 \<and> n + 48 \<le> length f \<and>
      rd16 f (u + 2) = Some (sv_port s) \<and> eth_input_hook t w f s = Some (s', f))"
proof -
  obtain r where r: "find_request (sv_port s) f = Some r" using find_request_total by blast
  show ?thesis
  proof (cases r)
    case None
    with r show ?thesis by (simp add: eth_input_hook_eq)
  next
    case (Some un)
    obtain u n where un: "r = Some (u, n)" using Some by (cases un) simp
    obtain s1 i where "date_request t (length f) (w5500_int_stamp w) (w5500_rx_stamps w) s = (s1, i)"
      by fastforce
    with r un obtain s' where "eth_input_hook t w f s = Some (s', f)"
      by (simp add: eth_input_hook_eq)
    with un r find_request_found [of "sv_port s" f u n] show ?thesis by blast
  qed
qed

text \<open>
  The recorded arrival time is never in the future and never far in the past. Whatever the
  driver's stamps hold, torn, stale or wrapped, and whatever the switches say, T2 lies at most
  2000146 us before the hook's own reading when it comes from an interrupt edge and at most
  20146 us before it otherwise.
\<close>

theorem arrival_time_bounded:
  "hi_t (snd (date_request t len ist st s)) \<le> t \<and>
   t - hi_t (snd (date_request t len ist st s)) \<le>
     (if hi_t2_from_edge (snd (date_request t len ist st s)) then 2000146 else 20146)"
proof -
  obtain s' i where d: "date_request t len ist st s = (s', i)" by fastforce
  have "0 \<le> size_read_gap t st" "size_read_gap t st \<le> 19999"
    by (auto simp: size_read_gap_def Let_def)
  moreover have "0 \<le> frame_start_shift s len" "frame_start_shift s len \<le> 130"
    by (auto simp: frame_start_shift_def)
  moreover have "0 \<le> chip_shift s" "chip_shift s \<le> 17" by (auto simp: chip_shift_def)
  moreover have "edge_applies t ist st s \<Longrightarrow>
      0 < i32 (to_u32 t - is_edge_us ist) \<and> i32 (to_u32 t - is_edge_us ist) < 2000000"
    by (simp add: edge_applies_def Let_def)
  ultimately show ?thesis using date_request_cases [OF d] d by auto
qed

lemma edge_dates_aux:
  assumes "find_request (sv_port s) f = Some (Some (u, n))" "length f \<le> 1522"
    and "sv_int_edge_t2 s" "sv_t2_frame_start s" "sv_chip_latency s"
    and "w_int_edge_seq w \<noteq> 0" "w_int_edge_seq w \<noteq> sv_last_int_edge_seq_for_t2 s"
    and "w_int_edge_us w = to_u32 edge" "w_burst_start_us w = to_u32 burst" "to_u32 burst \<noteq> 0"
    and "0 < burst - edge" "burst - edge < 200" "0 < t - edge" "t - edge < 2000000"
  shows "\<exists>s' info. eth_input_hook t w f s = Some (s', f) \<and>
    sv_hook_ring s' = hr_record (take 8 (drop (n + 40) f)) (of_mem32 (take 4 (drop 26 f)))
      (of_mem16 (take 2 (drop u f))) info (sv_hook_ring s) \<and>
    hi_t info = edge - int ((length f + 4) * 80 div 1000) - 17 \<and> hi_t2_from_edge info \<and>
    hi_edge_usable info \<and> hi_lead_us info = burst - edge \<and> serving_fields s' = serving_fields s"
proof -
  let ?i = "w5500_int_stamp w" and ?r = "w5500_rx_stamps w"
  obtain s' i where d: "date_request t (length f) ?i ?r s = (s', i)" by fastforce
  have e: "evaluate_rx_edge (is_seq ?i) (is_edge_us ?i) (rxs_burst_start_us ?r) =
      \<lparr>rx_edge_usable = True, rx_lead_us = burst - edge\<rparr>"
    using assms evaluate_rx_edge_exact [of "w_int_edge_seq w" burst edge]
    by (simp add: w5500_int_stamp_def w5500_rx_stamps_def)
  have g: "i32 (to_u32 t - is_edge_us ?i) = t - edge"
    using assms by (simp add: w5500_int_stamp_def clock_diff_exact)
  have a: "edge_applies t ?i ?r s"
    using assms by (simp add: edge_applies_def e g) (simp add: w5500_int_stamp_def)
  have "frame_duration_us (length f) = int ((length f + 4) * 80 div 1000)"
    using assms(2) by (intro frame_duration) simp
  moreover have "0 < (length f + 4) * 80 div 1000" "(length f + 4) * 80 div 1000 \<le> 130"
    using find_request_found [OF assms(1)] div_le_mono [of "(length f + 4) * 80" 130000 1000]
      assms(2) by (simp_all add: div_greater_zero_iff)
  ultimately have "frame_start_shift s (length f) = int ((length f + 4) * 80 div 1000)"
    using assms(4) by (simp only: frame_start_shift_def) simp
  with date_request_cases [OF d] a g assms(5)
  have i: "hi_t i = edge - int ((length f + 4) * 80 div 1000) - 17 \<and> hi_t2_from_edge i \<and>
      hi_edge_usable i \<and> hi_lead_us i = burst - edge"
    using e by (simp add: chip_shift_def)
  have "sv_hook_ring s' = sv_hook_ring s"
    using date_request_keeps_ring [of t "length f" ?i ?r s] d by simp
  moreover have "serving_fields (s'\<lparr>sv_hook_ring := r\<rparr>) = serving_fields s" for r
    using date_request_keeps_serving [of t "length f" ?i ?r s] d by (simp add: serving_fields_def)
  ultimately show ?thesis using i assms(1) by (simp add: eth_input_hook_eq d) blast
qed

text \<open>
  C18: The arrival time is the hardware's. With all three corrections on and an interrupt edge not
  yet used, captured at instant \<open>edge\<close> less than 200 us before the read burst began and less than
  two seconds before the hook ran, a request of at most 1522 bytes is recorded under its own
  transmit timestamp, address and port at exactly the edge minus the frame's time on the wire
  (80 ns per byte with its checksum, in whole microseconds) minus the chip's 17 us, wherever the
  32-bit clock wraps between these instants.
\<close>

theorem edge_dates_request:
  assumes "find_request (sv_port s) f = Some (Some (u, n))" "length f \<le> 1522"
    and "sv_int_edge_t2 s" "sv_t2_frame_start s" "sv_chip_latency s"
    and "w_int_edge_seq w \<noteq> 0" "w_int_edge_seq w \<noteq> sv_last_int_edge_seq_for_t2 s"
    and "w_int_edge_us w = to_u32 edge" "w_burst_start_us w = to_u32 burst" "to_u32 burst \<noteq> 0"
    and "0 < burst - edge" "burst - edge < 200" "0 < t - edge" "t - edge < 2000000"
  shows "\<exists>s' info. eth_input_hook t w f s = Some (s', f) \<and>
    sv_hook_ring s' = hr_record (take 8 (drop (n + 40) f)) (of_mem32 (take 4 (drop 26 f)))
      (of_mem16 (take 2 (drop u f))) info (sv_hook_ring s) \<and>
    hi_t info = edge - int ((length f + 4) * 80 div 1000) - 17 \<and> hi_t2_from_edge info"
  using edge_dates_aux [OF assms] by blast

text \<open>A request of 90 bytes from 192.168.1.5, port 5000, with a given transmit timestamp.\<close>

definition sample_request :: "u8 list \<Rightarrow> u8 list" where
  "sample_request tx = replicate 12 0x11 @ [0x08, 0, 0x45, 0] @ replicate 7 0 @ [17, 0, 0] @
     [192, 168, 1, 5, 192, 168, 1, 1] @ [0x13, 0x88, 0, 123, 0, 56, 0, 0] @ [0x23] @ replicate 39 0 @ tx"

theorem edge_dates_request_witness:
  "\<exists>s' info. eth_input_hook 4294967400 (w5500_init\<lparr>w_int_edge_seq := 7, w_int_edge_us := to_u32 4294967290,
       w_burst_start_us := to_u32 4294967310\<rparr>) (sample_request [1, 2, 3, 4, 5, 6, 7, 8]) (ntp_server_init 123) =
     Some (s', sample_request [1, 2, 3, 4, 5, 6, 7, 8]) \<and> hi_t info = 4294967290 - 7 - 17 \<and>
     sv_hook_ring s' = hr_record [1, 2, 3, 4, 5, 6, 7, 8] 0x0501A8C0 0x8813 info hook_ring_init"
proof -
  let ?f = "sample_request [1, 2, 3, 4, 5, 6, 7, 8]"
  have f: "find_request (sv_port (ntp_server_init 123)) ?f = Some (Some (34, 42))" by code_simp
  have l: "length ?f \<le> 1522" "int ((length ?f + 4) * 80 div 1000) = 7" by code_simp+
  have k: "take 8 (drop (42 + 40) ?f) = [1, 2, 3, 4, 5, 6, 7, 8]" "of_mem32 (take 4 (drop 26 ?f)) = 0x0501A8C0"
    "of_mem16 (take 2 (drop 34 ?f)) = 0x8813" "sv_hook_ring (ntp_server_init 123) = hook_ring_init"
    by code_simp+
  show ?thesis
    using edge_dates_request [OF f l(1), of "w5500_init\<lparr>w_int_edge_seq := 7, w_int_edge_us := to_u32 4294967290,
       w_burst_start_us := to_u32 4294967310\<rparr>" 4294967290 4294967310 4294967400]
    unfolding k l by (simp add: ntp_server_init_def to_u32_def) blast
qed

text \<open>The driver's frames in order: entry time, length and the stamps each of them saw.\<close>

type_synonym rx_event = "int \<times> nat \<times> int_stamp \<times> rx_stamps"

fun date_frames :: "rx_event list \<Rightarrow> ntp_server \<Rightarrow> (u32 \<times> bool) list" where
  "date_frames [] s = []"
| "date_frames ((t, len, ist, st) # fs) s =
    (let (s', i) = date_request t len ist st s in (is_seq ist, hi_t2_from_edge i) # date_frames fs s')"

definition edge_no :: "rx_event \<Rightarrow> nat" where
  "edge_no f = (case f of (t, len, ist, st) \<Rightarrow> unat (is_seq ist))"

lemma date_frames_seqs: "map fst (date_frames fs s) = map (\<lambda>(t, len, ist, st). is_seq ist) fs"
  by (induction fs s rule: date_frames.induct) (auto split: prod.splits)

lemma later_edges_absent:
  "\<forall>f \<in> set fs. unat q < edge_no f \<Longrightarrow> (q, b) \<notin> set (date_frames fs s)"
proof
  assume a: "\<forall>f \<in> set fs. unat q < edge_no f" and "(q, b) \<in> set (date_frames fs s)"
  then have "q \<in> set (map fst (date_frames fs s))" by force
  with a show False by (auto simp: date_frames_seqs edge_no_def)
qed

lemma used_edge_not_reused:
  assumes "sorted (map edge_no fs)" "\<forall>f \<in> set fs. unat q \<le> edge_no f" "sv_last_int_edge_seq_for_t2 s = q"
  shows "(q, True) \<notin> set (date_frames fs s)"
  using assms
proof (induction fs arbitrary: s)
  case (Cons f fs)
  obtain t len ist st where f: "f = (t, len, ist, st)" by (cases f)
  obtain s' i where d: "date_request t len ist st s = (s', i)" by fastforce
  note c = date_request_cases [OF d]
  show ?case
  proof (cases "is_seq ist = q")
    case True
    then have "\<not> edge_applies t ist st s" using Cons.prems by (simp add: edge_applies_def Let_def)
    with c Cons f d show ?thesis by simp
  next
    case False
    then have "unat q < edge_no f" using Cons.prems(2) f
      by (simp add: edge_no_def less_le word_unat_eq_iff)
    with Cons.prems(1) have "\<forall>g \<in> set fs. unat q < edge_no g" by auto
    then have "(q, True) \<notin> set (date_frames fs s')" by (rule later_edges_absent)
    with False show ?thesis by (simp add: f d)
  qed
qed simp

text \<open>
  An interrupt edge dates at most one request. Over any sequence of frames the driver
  delivers, with edge counts that never step back, at most one of the frames that saw a given
  edge takes its time from it; two frames read in one burst never both do.
\<close>

theorem edge_dates_one_frame:
  assumes "sorted (map edge_no fs)"
  shows "length (filter (\<lambda>x. x = (q, True)) (date_frames fs s)) \<le> 1"
  using assms
proof (induction fs arbitrary: s)
  case (Cons f fs)
  obtain t len ist st where f: "f = (t, len, ist, st)" by (cases f)
  obtain s' i where d: "date_request t len ist st s = (s', i)" by fastforce
  note c = date_request_cases [OF d]
  show ?case
  proof (cases "is_seq ist = q \<and> hi_t2_from_edge i")
    case True
    then have "sv_last_int_edge_seq_for_t2 s' = q" using c by simp
    moreover have "\<forall>g \<in> set fs. unat q \<le> edge_no g"
      using Cons.prems True by (simp add: f edge_no_def)
    ultimately have "(q, True) \<notin> set (date_frames fs s')"
      using used_edge_not_reused [of fs q s'] Cons.prems by simp
    then have "filter (\<lambda>x. x = (q, True)) (date_frames fs s') = []" by (auto simp: filter_empty_conv)
    then show ?thesis by (simp add: f d)
  next
    case False
    with Cons.IH [of s'] Cons.prems show ?thesis by (auto simp: f d)
  qed
qed simp

theorem edge_dates_one_frame_witness:
  "let e = \<lparr>is_edge_us = 100, is_seq = 7\<rparr>; st = \<lparr>rxs_size_read_us = 130, rxs_payload_us = 150,
       rxs_payloads_since_size_read = 1, rxs_burst_start_us = 120, rxs_size_value = 92\<rparr> in
   length (filter (\<lambda>x. x = (7, True))
     (date_frames [(200, 90, e, st), (300, 90, e, st)] (ntp_server_init 123))) \<le> 1"
  using edge_dates_one_frame [of "[(200, 90, \<lparr>is_edge_us = 100, is_seq = 7\<rparr>, \<lparr>rxs_size_read_us = 130, rxs_payload_us = 150,
       rxs_payloads_since_size_read = 1, rxs_burst_start_us = 120, rxs_size_value = 92\<rparr>), (300, 90, \<lparr>is_edge_us = 100, is_seq = 7\<rparr>,
       \<lparr>rxs_size_read_us = 130, rxs_payload_us = 150,
       rxs_payloads_since_size_read = 1, rxs_burst_start_us = 120, rxs_size_value = 92\<rparr>)]" 7 "ntp_server_init 123"]
  by (simp add: Let_def edge_no_def)

end
