(* ===== verification/PpsClock.thy ===== *)
theory PpsClock
  imports NtpTime
begin

text \<open>
  \<open>components/gps_pps_time/gps_pps_time.{h,cpp}\<close> for ESP-IDF: the PPS interrupt, the hardware
  capture, the discipline of the system clock at every edge and the NMEA updates. Sensors and
  logging are left out. Clock readings and parsed NMEA data are arguments; writes to the system
  clock are returned as a list of actions, in order.
\<close>

record gps_pps =
  gp_last_gps_epoch :: int
  gp_gps_time_valid :: bool
  gp_pps_flag :: bool
  gp_last_pps_micros :: u32
  gp_isr_anchor_micros :: u32
  gp_pps_synced :: bool
  gp_has_gps_time :: bool
  gp_pps_count :: u32
  gp_last_drift_us :: int
  gp_last_clock_offset_us :: int
  gp_drift_mean_x256 :: int
  gp_prev_pps_micros :: u32
  gp_last_pps_millis :: u32
  gp_period_healthy :: bool
  gp_bad_streak :: nat
  gp_good_streak :: nat
  gp_cap_prev :: u32
  gp_cap_interval :: u32
  gp_cap_count :: u32
  gp_cap_ppb_mean_x256 :: int
  gp_use_hw_rate :: bool
  gp_lat_paired :: bool
  gp_lat_prev_isr_us :: u32
  gp_lat_prev_cap :: u32
  gp_lat_prev_cap_count :: u32
  gp_lat_level_ticks :: int
  gp_lat_min_ticks :: int
  gp_lat_sum_ticks :: int
  gp_lat_n :: u32
  gp_anchor :: anchor_cell
  gp_pred_error_us :: int
  gp_pred_error_valid :: bool
  gp_pred_error_skip_next :: bool
  gp_nmea_clock_delta_ms :: int
  gp_nmea_clock_delta_valid :: bool
  gp_epoch_error_streak :: int
  gp_epoch_error_last :: int
  gp_satellite_count :: u16
  gp_gps_sats :: u16
  gp_glonass_sats :: u16
  gp_galileo_sats :: u16
  gp_beidou_sats :: u16

definition gps_init :: gps_pps where
  "gps_init = \<lparr>gp_last_gps_epoch = 0, gp_gps_time_valid = False, gp_pps_flag = False,
     gp_last_pps_micros = 0, gp_isr_anchor_micros = 0, gp_pps_synced = False,
     gp_has_gps_time = False, gp_pps_count = 0, gp_last_drift_us = 0,
     gp_last_clock_offset_us = 0, gp_drift_mean_x256 = 0, gp_prev_pps_micros = 0,
     gp_last_pps_millis = 0, gp_period_healthy = True, gp_bad_streak = 0, gp_good_streak = 0,
     gp_cap_prev = 0, gp_cap_interval = 0, gp_cap_count = 0, gp_cap_ppb_mean_x256 = 0,
     gp_use_hw_rate = True, gp_lat_paired = False, gp_lat_prev_isr_us = 0, gp_lat_prev_cap = 0,
     gp_lat_prev_cap_count = 0, gp_lat_level_ticks = 0, gp_lat_min_ticks = 0,
     gp_lat_sum_ticks = 0, gp_lat_n = 0, gp_anchor = anchor_cell_init, gp_pred_error_us = 0,
     gp_pred_error_valid = False, gp_pred_error_skip_next = False, gp_nmea_clock_delta_ms = 0,
     gp_nmea_clock_delta_valid = False, gp_epoch_error_streak = 0, gp_epoch_error_last = 0,
     gp_satellite_count = 0, gp_gps_sats = 0, gp_glonass_sats = 0, gp_galileo_sats = 0,
     gp_beidou_sats = 0\<rparr>"

datatype clock_action = Settimeofday timeval | Adjtime timeval

definition PPS_CAPTURE_HZ :: int where "PPS_CAPTURE_HZ = 80000000"
definition LAT_PAIR_LIMIT_TICKS :: int where "LAT_PAIR_LIMIT_TICKS = 400000"
definition PPS_TIMEOUT_MS :: u32 where "PPS_TIMEOUT_MS = 10000"
definition PPS_PERIOD_TOLERANCE_US :: int where "PPS_PERIOD_TOLERANCE_US = 20000"
definition PPS_PERIOD_BAD_STREAK :: nat where "PPS_PERIOD_BAD_STREAK = 3"
definition PPS_PERIOD_GOOD_STREAK :: nat where "PPS_PERIOD_GOOD_STREAK = 10"
definition EPOCH_FIX_STREAK :: int where "EPOCH_FIX_STREAK = 3"

lemmas pps_consts = PPS_CAPTURE_HZ_def LAT_PAIR_LIMIT_TICKS_def PPS_TIMEOUT_MS_def
  PPS_PERIOD_TOLERANCE_US_def PPS_PERIOD_BAD_STREAK_def PPS_PERIOD_GOOD_STREAK_def
  EPOCH_FIX_STREAK_def

subsection \<open>Interrupts\<close>

definition pps_isr :: "u32 \<Rightarrow> gps_pps \<Rightarrow> gps_pps" where
  "pps_isr now s =
     (if gp_isr_anchor_micros s \<noteq> 0 \<and> now - gp_isr_anchor_micros s < 900000 then s
      else s\<lparr>gp_last_pps_micros := now, gp_isr_anchor_micros := now, gp_pps_flag := True\<rparr>)"

definition on_capture :: "u32 \<Rightarrow> gps_pps \<Rightarrow> gps_pps" where
  "on_capture now s =
     (let s = (if gp_cap_count s \<noteq> 0 then s\<lparr>gp_cap_interval := now - gp_cap_prev s\<rparr> else s) in
      s\<lparr>gp_cap_prev := now, gp_cap_count := gp_cap_count s + 1\<rparr>)"

subsection \<open>The pieces of the correction at an edge\<close>

definition pps_capture_ppb :: "gps_pps \<Rightarrow> int" where
  "pps_capture_ppb s = (let iv = gp_cap_interval s in
     if iv = 0 then 0
     else to_i32 (((uint iv - PPS_CAPTURE_HZ) * 1000000000) sdiv PPS_CAPTURE_HZ))"

definition pps_capture_ppb_mean :: "gps_pps \<Rightarrow> int" where
  "pps_capture_ppb_mean s = gp_cap_ppb_mean_x256 s sdiv 256"

definition publish_anchor :: "int \<Rightarrow> u32 \<Rightarrow> int \<Rightarrow> gps_pps \<Rightarrow> gps_pps" where
  "publish_anchor epoch micros rate s = s\<lparr>gp_anchor := publish_pps_anchor epoch micros rate (gp_anchor s)\<rparr>"

text \<open>The reset that three places share: lost fix, diverged drift, diverged NMEA epoch.\<close>

definition reset_sync :: "gps_pps \<Rightarrow> gps_pps" where
  "reset_sync s = (publish_anchor 0 0 0 (s\<lparr>gp_pps_synced := False\<rparr>))
     \<lparr>gp_gps_time_valid := False, gp_has_gps_time := False, gp_last_gps_epoch := 0,
      gp_last_drift_us := 0, gp_drift_mean_x256 := 0, gp_pps_count := 0\<rparr>"

definition track_isr_latency :: "u32 \<Rightarrow> bool \<Rightarrow> gps_pps \<Rightarrow> gps_pps" where
  "track_isr_latency isr_us clean s =
     (let cap = gp_cap_prev s; cap_count = gp_cap_count s in
      if \<not> clean \<or> cap_count = 0 then s\<lparr>gp_lat_paired := False\<rparr>
      else
        let s = (if gp_lat_paired s \<and> cap_count = gp_lat_prev_cap_count s + 1 then
              let isr_ticks = uint (isr_us - gp_lat_prev_isr_us s) * (PPS_CAPTURE_HZ sdiv 1000000);
                  cap_ticks = uint (cap - gp_lat_prev_cap s);
                  diff = isr_ticks - cap_ticks in
              if diff > LAT_PAIR_LIMIT_TICKS \<or> diff < - LAT_PAIR_LIMIT_TICKS
              then s\<lparr>gp_lat_level_ticks := 0, gp_lat_min_ticks := 0\<rparr>
              else let level = gp_lat_level_ticks s + diff in
                s\<lparr>gp_lat_level_ticks := level,
                  gp_lat_min_ticks := (if level < gp_lat_min_ticks s then level else gp_lat_min_ticks s),
                  gp_lat_sum_ticks := gp_lat_sum_ticks s + level,
                  gp_lat_n := gp_lat_n s + 1\<rparr>
            else s\<lparr>gp_lat_level_ticks := 0, gp_lat_min_ticks := 0\<rparr>) in
        s\<lparr>gp_lat_prev_isr_us := isr_us, gp_lat_prev_cap := cap,
          gp_lat_prev_cap_count := cap_count, gp_lat_paired := True\<rparr>)"

definition extra_epochs :: "u32 \<Rightarrow> int" where
  "extra_epochs pps_interval_us = uint ((pps_interval_us + 500000) div 1000000) - 1"

definition isr_latency :: "u32 \<Rightarrow> int" where
  "isr_latency pps_interval_us =
     (if extra_epochs pps_interval_us = 0 then
        let deviation = i32 pps_interval_us - 1000000 in
        if deviation > 500 \<and> deviation < 10000 then deviation else 0
      else 0)"

definition period_residual_us :: "u32 \<Rightarrow> int" where
  "period_residual_us pps_interval_us =
     i32 pps_interval_us - (extra_epochs pps_interval_us + 1) * 1000000"

definition period_in_spec :: "u32 \<Rightarrow> bool" where
  "period_in_spec pps_interval_us \<longleftrightarrow> extra_epochs pps_interval_us \<ge> 0 \<and>
     period_residual_us pps_interval_us \<le> PPS_PERIOD_TOLERANCE_US \<and>
     period_residual_us pps_interval_us \<ge> - PPS_PERIOD_TOLERANCE_US"

definition judge_period :: "bool \<Rightarrow> gps_pps \<Rightarrow> gps_pps" where
  "judge_period in_spec s =
     (if \<not> in_spec then
        let s = s\<lparr>gp_good_streak := 0\<rparr>;
            s = (if gp_bad_streak s < PPS_PERIOD_BAD_STREAK
                 then s\<lparr>gp_bad_streak := gp_bad_streak s + 1\<rparr> else s) in
        if gp_bad_streak s \<ge> PPS_PERIOD_BAD_STREAK \<and> gp_period_healthy s
        then s\<lparr>gp_period_healthy := False\<rparr> else s
      else
        let s = s\<lparr>gp_bad_streak := 0\<rparr>;
            s = (if gp_good_streak s < PPS_PERIOD_GOOD_STREAK
                 then s\<lparr>gp_good_streak := gp_good_streak s + 1\<rparr> else s) in
        if gp_good_streak s \<ge> PPS_PERIOD_GOOD_STREAK \<and> \<not> gp_period_healthy s
        then s\<lparr>gp_period_healthy := True\<rparr> else s)"

text \<open>The argument of \<open>adjtime\<close>, normalised to a microsecond field in \<open>[0, 10^6)\<close>.\<close>

definition adjtime_delta :: "int \<Rightarrow> timeval" where
  "adjtime_delta correction_us =
     (let sec = correction_us sdiv 1000000; usec = correction_us smod 1000000 in
      if usec < 0 then \<lparr>tv_sec = sec - 1, tv_usec = usec + 1000000\<rparr>
      else \<lparr>tv_sec = sec, tv_usec = usec\<rparr>)"

definition learn_drift :: "gps_pps \<Rightarrow> gps_pps" where
  "learn_drift s =
     (if gp_last_drift_us s > - 50 \<and> gp_last_drift_us s < 50 then
        s\<lparr>gp_drift_mean_x256 := gp_drift_mean_x256 s +
            (gp_last_drift_us s * 256 - gp_drift_mean_x256 s) sdiv 128,
          gp_last_clock_offset_us := gp_last_drift_us s\<rparr>
      else s\<lparr>gp_last_clock_offset_us := gp_drift_mean_x256 s sdiv 256\<rparr>)"

definition learn_rate :: "gps_pps \<Rightarrow> gps_pps" where
  "learn_rate s =
     (if gp_cap_count s \<ge> 3 then
        let raw_ppb = pps_capture_ppb s in
        if raw_ppb > - 100000 \<and> raw_ppb < 100000 then
          (if gp_cap_ppb_mean_x256 s = 0 then s\<lparr>gp_cap_ppb_mean_x256 := raw_ppb * 256\<rparr>
           else s\<lparr>gp_cap_ppb_mean_x256 := gp_cap_ppb_mean_x256 s +
                    (raw_ppb * 256 - gp_cap_ppb_mean_x256 s) sdiv 16\<rparr>)
        else s
      else s)"

definition anchor_rate :: "gps_pps \<Rightarrow> int" where
  "anchor_rate s =
     (if gp_cap_count s \<ge> 3 \<and> gp_use_hw_rate s then pps_capture_ppb_mean s
      else to_i32 (gp_drift_mean_x256 s sdiv 256) * 1000)"

text \<open>
  The diagnostic of the previous anchor's prediction error. The code stores the difference as a
  float; the model keeps the integer.
\<close>

definition predict_error :: "u32 \<Rightarrow> int \<Rightarrow> gps_pps \<Rightarrow> gps_pps" where
  "predict_error pps_micros corrected_epoch s =
     (let s = (case get_pps_anchor_now (gp_anchor s) of None \<Rightarrow> s
        | Some prev \<Rightarrow>
            if gp_pred_error_skip_next s then s
            else let elapsed = pps_micros - pa_micros prev in
              if elapsed > 900000 \<and> elapsed < 1100000 then
                let corrected = (if pa_drift_ppb prev > - 100000 \<and> pa_drift_ppb prev < 100000
                      then uint elapsed - (uint elapsed * pa_drift_ppb prev) sdiv 1000000000
                      else uint elapsed);
                    predicted_us = pa_epoch prev * 1000000 + corrected;
                    actual_us = corrected_epoch * 1000000 in
                s\<lparr>gp_pred_error_us := predicted_us - actual_us, gp_pred_error_valid := True\<rparr>
              else s) in
      s\<lparr>gp_pred_error_skip_next := False\<rparr>)"

subsection \<open>The correction at an edge\<close>

text \<open>
  The clock readings of one call: \<open>gettimeofday\<close>, \<open>micros\<close> right after it, and the two
  \<open>millis\<close> readings (the second only in the log throttle of the no-satellite path).
\<close>

record pps_reads =
  pr_tv :: timeval
  pr_micros :: u32
  pr_millis :: u32
  pr_millis2 :: u32

definition gsv_total :: "gps_pps \<Rightarrow> u16" where
  "gsv_total s = gp_gps_sats s + gp_glonass_sats s + gp_galileo_sats s + gp_beidou_sats s"

definition no_fix :: "pps_reads \<Rightarrow> gps_pps \<Rightarrow> gps_pps" where
  "no_fix r s =
     (let s = (if gp_pps_synced s then reset_sync s else s) in
      if gp_pps_count s = 0 \<and> pr_millis r - gp_last_pps_millis s > 10000
      then s\<lparr>gp_last_pps_millis := pr_millis2 r\<rparr> else s)"

definition hard_sync :: "int \<Rightarrow> clock_action list" where
  "hard_sync corrected_epoch =
     [Settimeofday \<lparr>tv_sec = corrected_epoch, tv_usec = 0\<rparr>, Adjtime \<lparr>tv_sec = 0, tv_usec = 0\<rparr>]"

text \<open>The last branch of the correction: slew, learn, publish.\<close>

definition fine_correction :: "u32 \<Rightarrow> int \<Rightarrow> gps_pps \<Rightarrow> gps_pps \<times> clock_action list" where
  "fine_correction pps_micros corrected_epoch s =
     (let overcorrection = gp_drift_mean_x256 s sdiv 256;
          correction_us = - (gp_last_drift_us s + overcorrection);
          delta = adjtime_delta correction_us;
          s = learn_rate (learn_drift s);
          rate_ppb = anchor_rate s;
          s = predict_error pps_micros corrected_epoch s in
      (publish_anchor corrected_epoch pps_micros rate_ppb s, [Adjtime delta]))"

definition discipline :: "u32 \<Rightarrow> int \<Rightarrow> gps_pps \<Rightarrow> gps_pps \<times> clock_action list" where
  "discipline pps_micros corrected_epoch s =
     (if \<not> gp_pps_synced s then
        (s\<lparr>gp_last_drift_us := 0, gp_pps_synced := True\<rparr>, hard_sync corrected_epoch)
      else if gp_last_drift_us s > 2000000 \<or> gp_last_drift_us s < - 2000000 then (reset_sync s, [])
      else if gp_last_drift_us s > 100000 \<or> gp_last_drift_us s < - 100000 then
        (s\<lparr>gp_last_drift_us := 0, gp_drift_mean_x256 := 0\<rparr>, hard_sync corrected_epoch)
      else fine_correction pps_micros corrected_epoch s)"

text \<open>From the second edge on: the interval, its health, the epoch and the drift.\<close>

definition measure_edge ::
  "u32 \<Rightarrow> int \<Rightarrow> gps_pps \<Rightarrow> gps_pps \<times> clock_action list" where
  "measure_edge pps_micros system_us_at_pps_raw s =
     (let pps_interval_us = pps_micros - gp_prev_pps_micros s;
          extra = extra_epochs pps_interval_us;
          latency = isr_latency pps_interval_us;
          s = s\<lparr>gp_prev_pps_micros := pps_micros\<rparr>;
          in_spec = period_in_spec pps_interval_us;
          s = judge_period in_spec s;
          s = track_isr_latency pps_micros (in_spec \<and> extra = 0) s;
          corrected_epoch = gp_last_gps_epoch s + 1 + extra;
          s = s\<lparr>gp_last_gps_epoch := corrected_epoch\<rparr>;
          system_us_at_pps = system_us_at_pps_raw - latency;
          expected_us = corrected_epoch * 1000000;
          s = s\<lparr>gp_last_drift_us := system_us_at_pps - expected_us\<rparr> in
      discipline pps_micros corrected_epoch s)"

definition apply_pps_correction :: "pps_reads \<Rightarrow> gps_pps \<Rightarrow> gps_pps \<times> clock_action list" where
  "apply_pps_correction r s =
     (let pps_micros = gp_last_pps_micros s;
          elapsed_since_edge_us = i32 (pr_micros r - pps_micros);
          system_us_at_pps_raw =
            tv_sec (pr_tv r) * 1000000 + tv_usec (pr_tv r) - elapsed_since_edge_us in
      if \<not> gp_gps_time_valid s then (s, [])
      else if gp_last_gps_epoch s = 0 then (s, [])
      else if gp_satellite_count s = 0 \<and> gsv_total s = 0 then (no_fix r s, [])
      else
        let s = s\<lparr>gp_pps_count := gp_pps_count s + 1, gp_last_pps_millis := pr_millis r\<rparr> in
        if gp_pps_count s = 1 then (s\<lparr>gp_prev_pps_micros := pps_micros\<rparr>, [])
        else measure_edge pps_micros system_us_at_pps_raw s)"

text \<open>
  \<open>loop\<close>: the flag is cleared first; an edge that interrupts the call before the snapshot of its
  time is \<open>isr\<close>.
\<close>

definition gps_loop :: "pps_reads \<Rightarrow> u32 option \<Rightarrow> gps_pps \<Rightarrow> gps_pps \<times> clock_action list" where
  "gps_loop r isr s =
     (if gp_pps_flag s then
        let s = s\<lparr>gp_pps_flag := False\<rparr>;
            s = (case isr of None \<Rightarrow> s | Some now \<Rightarrow> pps_isr now s) in
        apply_pps_correction r s
      else (s, []))"

subsection \<open>NMEA updates\<close>

text \<open>
  What one sentence carries, as the parser reports it: the satellite counts that are valid or
  updated, and the timestamp when time and date are valid, updated and not before 2025.
\<close>

record nmea =
  nm_satellites :: "u16 option"
  nm_gps :: "u16 option"
  nm_glonass :: "u16 option"
  nm_galileo :: "u16 option"
  nm_beidou_gb :: "u16 option"
  nm_beidou_bd :: "u16 option"
  nm_timestamp :: "int option"

definition keep :: "'a \<Rightarrow> 'a option \<Rightarrow> 'a" where
  "keep old new = (case new of None \<Rightarrow> old | Some v \<Rightarrow> v)"

definition update_satellites :: "nmea \<Rightarrow> gps_pps \<Rightarrow> gps_pps" where
  "update_satellites n s =
     s\<lparr>gp_satellite_count := keep (gp_satellite_count s) (nm_satellites n),
       gp_gps_sats := keep (gp_gps_sats s) (nm_gps n),
       gp_glonass_sats := keep (gp_glonass_sats s) (nm_glonass n),
       gp_galileo_sats := keep (gp_galileo_sats s) (nm_galileo n),
       gp_beidou_sats := (case nm_beidou_gb n of Some v \<Rightarrow> v
          | None \<Rightarrow> keep (gp_beidou_sats s) (nm_beidou_bd n))\<rparr>"

definition epoch_err_s :: "int \<Rightarrow> int" where
  "epoch_err_s delta_ms =
     (if delta_ms > 900 then signed_take_bit 7 ((delta_ms + 500) sdiv 1000)
      else if delta_ms < - 100 then signed_take_bit 7 (- ((- delta_ms + 500) sdiv 1000))
      else 0)"

text \<open>\<open>tv\<close> and \<open>fix_tv\<close> are the two readings of the system clock.\<close>

definition check_epoch ::
  "timeval \<Rightarrow> timeval \<Rightarrow> int \<Rightarrow> gps_pps \<Rightarrow> gps_pps \<times> clock_action list" where
  "check_epoch tv fix_tv timestamp s =
     (let delta_ms = (tv_sec tv - timestamp) * 1000 + tv_usec tv sdiv 1000;
          s = s\<lparr>gp_nmea_clock_delta_ms := to_i32 delta_ms, gp_nmea_clock_delta_valid := True\<rparr>;
          err = epoch_err_s delta_ms in
      if \<not> gp_pps_synced s \<or> err = 0 then (s\<lparr>gp_epoch_error_streak := 0\<rparr>, [])
      else
        let streak = (if err = gp_epoch_error_last s then gp_epoch_error_streak s + 1 else 1);
            s = s\<lparr>gp_epoch_error_streak := streak, gp_epoch_error_last := err\<rparr> in
        if streak \<ge> EPOCH_FIX_STREAK then
          (s\<lparr>gp_last_gps_epoch := gp_last_gps_epoch s - err, gp_epoch_error_streak := 0,
             gp_pred_error_skip_next := True\<rparr>,
           [Settimeofday (fix_tv\<lparr>tv_sec := tv_sec fix_tv - err\<rparr>),
            Adjtime \<lparr>tv_sec = 0, tv_usec = 0\<rparr>])
        else (s, []))"

definition manage_epoch :: "int \<Rightarrow> gps_pps \<Rightarrow> gps_pps" where
  "manage_epoch timestamp s =
     (if \<not> gp_pps_synced s \<and> \<not> gp_pps_flag s then s\<lparr>gp_last_gps_epoch := timestamp\<rparr>
      else if gp_pps_synced s \<and> \<not> gp_pps_flag s then
        let epoch_diff = timestamp - gp_last_gps_epoch s in
        if epoch_diff > 2 \<or> epoch_diff < - 2 then reset_sync s else s
      else s)"

definition coarse_set :: "int \<Rightarrow> gps_pps \<Rightarrow> gps_pps \<times> clock_action list" where
  "coarse_set timestamp s =
     (if \<not> gp_pps_synced s \<and> \<not> gp_has_gps_time s then
        (s\<lparr>gp_has_gps_time := True\<rparr>, [Settimeofday \<lparr>tv_sec = timestamp, tv_usec = 0\<rparr>])
      else (s, []))"

definition on_update ::
  "nmea \<Rightarrow> timeval \<Rightarrow> timeval \<Rightarrow> gps_pps \<Rightarrow> gps_pps \<times> clock_action list" where
  "on_update n tv fix_tv s =
     (let s = update_satellites n s in
      case nm_timestamp n of None \<Rightarrow> (s, [])
      | Some timestamp \<Rightarrow>
          let s = s\<lparr>gp_gps_time_valid := True\<rparr>;
              (s, acts) = check_epoch tv fix_tv timestamp s;
              s = manage_epoch timestamp s;
              (s, acts') = coarse_set timestamp s in
          (s, acts @ acts'))"

text \<open>\<open>update\<close> drains the latency window when its sensor is configured.\<close>

definition drain_latency :: "gps_pps \<Rightarrow> gps_pps" where
  "drain_latency s = (if gp_lat_n s > 0 then s\<lparr>gp_lat_sum_ticks := 0, gp_lat_n := 0\<rparr> else s)"

definition is_synchronized :: "u32 \<Rightarrow> gps_pps \<Rightarrow> bool" where
  "is_synchronized now_ms s \<longleftrightarrow>
     (if \<not> gp_pps_synced s then False
      else if \<not> gp_period_healthy s then False
      else now_ms - gp_last_pps_millis s < PPS_TIMEOUT_MS)"

definition get_last_sync_epoch :: "gps_pps \<Rightarrow> int" where
  "get_last_sync_epoch s = (if gp_pps_synced s then gp_last_gps_epoch s else 0)"

definition set_use_hw_rate :: "bool \<Rightarrow> gps_pps \<Rightarrow> gps_pps" where
  "set_use_hw_rate use s = s\<lparr>gp_use_hw_rate := use\<rparr>"

subsection \<open>Reachable states\<close>

inductive gps_step :: "gps_pps \<Rightarrow> gps_pps \<Rightarrow> bool" where
  Isr: "gps_step s (pps_isr now s)"
| Capture: "gps_step s (on_capture now s)"
| Loop: "gps_step s (fst (gps_loop r isr s))"
| Nmea: "gps_step s (fst (on_update n tv fix_tv s))"
| Update: "gps_step s (drain_latency s)"
| Switch: "gps_step s (set_use_hw_rate use s)"

inductive gps_reachable :: "gps_pps \<Rightarrow> bool" where
  Init: "gps_reachable gps_init"
| Step: "gps_reachable s \<Longrightarrow> gps_step s s' \<Longrightarrow> gps_reachable s'"

inductive_cases gps_stepE: "gps_step s s'"

subsection \<open>The two running means\<close>

text \<open>Both filters as steps on the scaled sample, as instances of the filter contract.\<close>

definition drift_accepts :: "int \<Rightarrow> bool" where
  "drift_accepts x \<longleftrightarrow> \<bar>x\<bar> \<le> 12544"

definition drift_step :: "int \<Rightarrow> int \<Rightarrow> int" where
  "drift_step e x = (if drift_accepts x then div_step 128 e x else e)"

definition rate_accepts :: "int \<Rightarrow> bool" where
  "rate_accepts x \<longleftrightarrow> 256 dvd x \<and> \<bar>x\<bar> < 25600000"

definition rate_step :: "int \<Rightarrow> int \<Rightarrow> int" where
  "rate_step e x = (if rate_accepts x then (if e = 0 then x else div_step 16 e x) else e)"

lemma learn_drift_mean:
  "gp_drift_mean_x256 (learn_drift s) = drift_step (gp_drift_mean_x256 s) (gp_last_drift_us s * 256)"
proof -
  have "drift_accepts (gp_last_drift_us s * 256) \<longleftrightarrow> gp_last_drift_us s > - 50 \<and> gp_last_drift_us s < 50"
    unfolding drift_accepts_def by linarith
  then show ?thesis by (simp add: learn_drift_def drift_step_def div_step_def)
qed

lemma learn_rate_mean:
  "gp_cap_ppb_mean_x256 (learn_rate s) =
    (if gp_cap_count s \<ge> 3 then rate_step (gp_cap_ppb_mean_x256 s) (pps_capture_ppb s * 256)
     else gp_cap_ppb_mean_x256 s)"
proof -
  have "rate_accepts (pps_capture_ppb s * 256) \<longleftrightarrow> pps_capture_ppb s > - 100000 \<and> pps_capture_ppb s < 100000"
    unfolding rate_accepts_def by auto
  then show ?thesis by (simp add: learn_rate_def Let_def rate_step_def div_step_def)
qed

interpretation drift_mean: ewma drift_step drift_accepts 128 128
  using div_step_hull [of 128] div_step_rises [of 128] div_step_falls [of 128] div_step_rests [of 128]
  by unfold_locales (simp_all add: drift_step_def)

interpretation rate_mean: ewma rate_step rate_accepts 16 16
proof
  fix e x :: int
  assume a: "rate_accepts x"
  show "min e x \<le> rate_step e x" "rate_step e x \<le> max e x"
    using a div_step_hull [of 16 e x] by (simp_all add: rate_step_def)
  show "16 \<le> x - e \<Longrightarrow> e < rate_step e x"
    using a div_step_rises [of 16 x e] by (simp add: rate_step_def)
  show "16 \<le> e - x \<Longrightarrow> rate_step e x < e"
    using a div_step_falls [of 16 e x] by (simp add: rate_step_def)
  show "rate_step e x = e" if "x - e < 16" "e - x < 16"
  proof (cases "e = 0")
    case True
    from a obtain k where "x = 256 * k" by (auto simp: rate_accepts_def)
    with True that have "x = 0" by simp
    with True show ?thesis by (simp add: rate_step_def)
  next
    case False
    with a that div_step_rests [of 16 x e] show ?thesis by (simp add: rate_step_def)
  qed
qed (simp_all add: rate_step_def)

lemma drift_step_bounded: "\<bar>e\<bar> \<le> 12544 \<Longrightarrow> \<bar>drift_step e x\<bar> \<le> 12544"
  using drift_mean.learn_all_hull [of "- 12544" e 12544 "[x]"] by (simp add: drift_accepts_def abs_le_iff)

lemma rate_step_bounded: "\<bar>e\<bar> < 25600000 \<Longrightarrow> \<bar>rate_step e x\<bar> < 25600000"
proof -
  assume "\<bar>e\<bar> < 25600000"
  then have "- 25599999 \<le> e" "e \<le> 25599999" by simp_all
  then have "- 25599999 \<le> foldl rate_step e [x] \<and> foldl rate_step e [x] \<le> 25599999"
    by (rule rate_mean.learn_all_hull) (auto simp: rate_accepts_def)
  then show ?thesis by (simp add: abs_less_iff)
qed

subsection \<open>The invariant\<close>

definition anchor_inv :: "gps_pps \<Rightarrow> bool" where
  "anchor_inv s \<longleftrightarrow> even (ac_seq (gp_anchor s)) \<and>
     (pa_epoch (ac_anchor (gp_anchor s)) \<noteq> 0 \<longrightarrow> gp_pps_synced s) \<and>
     \<bar>pa_drift_ppb (ac_anchor (gp_anchor s))\<bar> < 100000"

definition sync_inv :: "gps_pps \<Rightarrow> bool" where
  "sync_inv s \<longleftrightarrow> (gp_pps_synced s \<longrightarrow> gp_gps_time_valid s) \<and> (gp_gps_time_valid s \<longrightarrow> gp_has_gps_time s)"

definition mean_inv :: "gps_pps \<Rightarrow> bool" where
  "mean_inv s \<longleftrightarrow> \<bar>gp_drift_mean_x256 s\<bar> \<le> 12544 \<and> \<bar>gp_cap_ppb_mean_x256 s\<bar> < 25600000"

definition health_inv :: "gps_pps \<Rightarrow> bool" where
  "health_inv s \<longleftrightarrow> gp_bad_streak s \<le> 3 \<and> gp_good_streak s \<le> 10 \<and>
     (gp_bad_streak s = 0 \<or> gp_good_streak s = 0) \<and>
     (gp_bad_streak s = 3 \<longrightarrow> \<not> gp_period_healthy s) \<and>
     (gp_good_streak s = 10 \<longrightarrow> gp_period_healthy s)"

definition gps_inv :: "gps_pps \<Rightarrow> bool" where
  "gps_inv s \<longleftrightarrow> anchor_inv s \<and> sync_inv s \<and> mean_inv s \<and> health_inv s"

lemmas gps_inv_defs = gps_inv_def anchor_inv_def sync_inv_def mean_inv_def health_inv_def

lemma sdiv_256_bound: "\<bar>k\<bar> < 256 * n \<Longrightarrow> \<bar>k sdiv 256\<bar> < (n :: int)"
  by (simp add: sdiv_pos) linarith

lemma anchor_rate_bounded:
  assumes "mean_inv s"
  shows "\<bar>anchor_rate s\<bar> < 100000"
proof -
  have "\<bar>gp_cap_ppb_mean_x256 s sdiv 256\<bar> < 100000" "\<bar>gp_drift_mean_x256 s sdiv 256\<bar> < 50"
    using assms by (intro sdiv_256_bound; simp add: mean_inv_def)+
  then show ?thesis
    by (simp add: anchor_rate_def pps_capture_ppb_mean_def to_i32_id abs_mult)
qed

lemma reset_sync_inv: "gps_inv s \<Longrightarrow> gps_inv (reset_sync s)"
  by (simp add: gps_inv_defs reset_sync_def publish_anchor_def publish_pps_anchor_eq)

lemma judge_period_inv: "gps_inv s \<Longrightarrow> gps_inv (judge_period b s)"
  by (auto simp: gps_inv_defs judge_period_def Let_def pps_consts)

lemma track_inv: "gps_inv s \<Longrightarrow> gps_inv (track_isr_latency t b s)"
  by (simp add: gps_inv_defs track_isr_latency_def Let_def)

lemma learn_inv: "gps_inv s \<Longrightarrow> gps_inv (learn_rate (learn_drift s))"
proof -
  assume i: "gps_inv s"
  let ?t = "learn_rate (learn_drift s)"
  have "mean_inv ?t"
    using i drift_step_bounded rate_step_bounded
    by (simp add: mean_inv_def gps_inv_def learn_rate_mean)
      (simp add: learn_rate_def learn_drift_mean Let_def, simp add: learn_drift_def)
  moreover have "anchor_inv ?t \<longleftrightarrow> anchor_inv s" "sync_inv ?t \<longleftrightarrow> sync_inv s" "health_inv ?t \<longleftrightarrow> health_inv s"
    by (simp_all add: gps_inv_defs learn_rate_def learn_drift_def Let_def)
  ultimately show ?thesis using i by (simp add: gps_inv_def)
qed

lemma predict_error_inv: "gps_inv s \<Longrightarrow> gps_inv (predict_error t e s)"
  by (simp add: gps_inv_defs predict_error_def Let_def split: option.split)

lemma fine_correction_inv:
  assumes "gps_inv s" "gp_pps_synced s"
  shows "gps_inv (fst (fine_correction t e s))"
proof -
  let ?l = "learn_rate (learn_drift s)"
  have l: "gps_inv ?l" using assms(1) by (rule learn_inv)
  have sy: "gp_pps_synced ?l" using assms(2) by (simp add: learn_rate_def learn_drift_def Let_def)
  have "gps_inv (predict_error t e ?l)" using l by (rule predict_error_inv)
  moreover have "gp_pps_synced (predict_error t e ?l)"
    using sy by (simp add: predict_error_def Let_def split: option.split)
  moreover have "\<bar>anchor_rate ?l\<bar> < 100000" using l by (simp add: anchor_rate_bounded gps_inv_def)
  ultimately show ?thesis
    by (simp add: fine_correction_def Let_def gps_inv_defs publish_anchor_def publish_pps_anchor_eq)
qed

lemma discipline_inv:
  assumes "gps_inv s" "gp_gps_time_valid s"
  shows "gps_inv (fst (discipline t e s))"
  unfolding discipline_def using assms reset_sync_inv [OF assms(1)] fine_correction_inv [OF assms(1)]
  by (simp add: gps_inv_def anchor_inv_def sync_inv_def mean_inv_def health_inv_def)

lemma judge_track_valid:
  "gp_gps_time_valid (judge_period b s) = gp_gps_time_valid s"
  "gp_gps_time_valid (track_isr_latency t c s) = gp_gps_time_valid s"
  by (simp_all add: judge_period_def track_isr_latency_def Let_def)

lemma gps_inv_cong_fields [simp]:
  "gps_inv (s\<lparr>gp_prev_pps_micros := a\<rparr>) = gps_inv s"
  "gps_inv (s\<lparr>gp_last_gps_epoch := e\<rparr>) = gps_inv s"
  "gps_inv (s\<lparr>gp_last_drift_us := d\<rparr>) = gps_inv s"
  "gps_inv (s\<lparr>gp_pps_count := c, gp_last_pps_millis := m\<rparr>) = gps_inv s"
  "gps_inv (s\<lparr>gp_pps_count := c\<rparr>) = gps_inv s"
  "gps_inv (s\<lparr>gp_last_pps_millis := m\<rparr>) = gps_inv s"
  "gps_inv (s\<lparr>gp_pps_flag := f\<rparr>) = gps_inv s"
  "gps_inv (s\<lparr>gp_epoch_error_streak := k\<rparr>) = gps_inv s"
  by (simp_all add: gps_inv_defs)

lemma measure_edge_inv:
  assumes "gps_inv s" "gp_gps_time_valid s"
  shows "gps_inv (fst (measure_edge t raw s))"
  unfolding measure_edge_def Let_def
  using assms by (intro discipline_inv) (simp_all add: judge_track_valid track_inv judge_period_inv)

lemma apply_pps_correction_inv: "gps_inv s \<Longrightarrow> gps_inv (fst (apply_pps_correction r s))"
proof -
  assume i: "gps_inv s"
  have "gps_inv (no_fix r s)" using i reset_sync_inv [OF i] by (simp add: no_fix_def Let_def)
  then show ?thesis
    using i by (auto simp: apply_pps_correction_def Let_def intro!: measure_edge_inv)
qed

lemma pps_isr_inv: "gps_inv s \<Longrightarrow> gps_inv (pps_isr now s)"
  by (simp add: pps_isr_def gps_inv_defs)

lemma gps_loop_inv: "gps_inv s \<Longrightarrow> gps_inv (fst (gps_loop r isr s))"
  by (auto simp: gps_loop_def Let_def split: option.split
      intro!: apply_pps_correction_inv pps_isr_inv)

lemma on_update_inv:
  assumes "gps_inv s"
  shows "gps_inv (fst (on_update n tv fix_tv s))"
proof (cases "nm_timestamp n")
  case None
  then show ?thesis
    using assms by (simp add: on_update_def Let_def gps_inv_defs update_satellites_def)
next
  case (Some t)
  define s1 where "s1 = (update_satellites n s)\<lparr>gp_gps_time_valid := True\<rparr>"
  define s2 where "s2 = fst (check_epoch tv fix_tv t s1)"
  define s3 where "s3 = manage_epoch t s2"
  text \<open>Only the coarse flag may lag behind until the end of the call.\<close>
  let ?I = "\<lambda>s. anchor_inv s \<and> mean_inv s \<and> health_inv s \<and>
    (gp_pps_synced s \<longrightarrow> gp_gps_time_valid s \<and> gp_has_gps_time s)"
  have "?I s1"
    using assms by (auto simp: s1_def gps_inv_defs update_satellites_def)
  then have "?I s2"
    by (simp add: s2_def check_epoch_def Let_def anchor_inv_def mean_inv_def health_inv_def)
  then have "?I s3"
    by (auto simp: s3_def manage_epoch_def Let_def anchor_inv_def mean_inv_def health_inv_def
        reset_sync_def publish_anchor_def publish_pps_anchor_eq)
  then have "gps_inv (fst (coarse_set t s3))"
    by (auto simp: coarse_set_def gps_inv_defs)
  moreover have "fst (on_update n tv fix_tv s) = fst (coarse_set t s3)"
    by (simp add: on_update_def Some Let_def s1_def s2_def s3_def split_beta)
  ultimately show ?thesis by simp
qed

lemma gps_step_inv: "gps_step s s' \<Longrightarrow> gps_inv s \<Longrightarrow> gps_inv s'"
  by (erule gps_stepE) (simp_all add: pps_isr_inv gps_loop_inv on_update_inv,
      simp_all add: gps_inv_defs on_capture_def drain_latency_def set_use_hw_rate_def Let_def)

lemma gps_init_inv: "gps_inv gps_init"
  by (simp add: gps_inv_defs gps_init_def anchor_cell_init_def no_anchor_def)

lemma gps_reachable_inv: "gps_reachable s \<Longrightarrow> gps_inv s"
  by (induction rule: gps_reachable.induct) (auto simp: gps_init_inv intro: gps_step_inv)

subsection \<open>The health of the pulse\<close>

definition trailing :: "bool \<Rightarrow> bool list \<Rightarrow> nat" where
  "trailing b bs = length (takeWhile (\<lambda>x. x = b) (rev bs))"

lemma trailing_snoc: "trailing b (bs @ [x]) = (if x = b then Suc (trailing b bs) else 0)"
  by (simp add: trailing_def)

definition judged :: "bool list \<Rightarrow> gps_pps" where
  "judged bs = fold judge_period bs gps_init"

lemma judged_streaks:
  "gp_bad_streak (judged bs) = min 3 (trailing False bs) \<and>
   gp_good_streak (judged bs) = min 10 (trailing True bs) \<and>
   (3 \<le> trailing False bs \<longrightarrow> \<not> gp_period_healthy (judged bs)) \<and>
   (10 \<le> trailing True bs \<longrightarrow> gp_period_healthy (judged bs))"
proof (induction bs rule: rev_induct)
  case Nil
  then show ?case by (simp add: judged_def gps_init_def trailing_def)
next
  case (snoc b bs)
  have "judged (bs @ [b]) = judge_period b (judged bs)" by (simp add: judged_def)
  with snoc show ?case
    by (cases b) (auto simp: judge_period_def Let_def trailing_snoc pps_consts min_def)
qed

lemma judged_snoc:
  "gp_period_healthy (judged (bs @ [b])) =
     (if 3 \<le> trailing False (bs @ [b]) then False
      else if 10 \<le> trailing True (bs @ [b]) then True
      else gp_period_healthy (judged bs))"
proof -
  have "judged (bs @ [b]) = judge_period b (judged bs)" by (simp add: judged_def)
  then show ?thesis
    using judged_streaks [of bs]
    by (cases b) (auto simp: judge_period_def Let_def trailing_snoc pps_consts min_def)
qed

text \<open>
  C8: The server goes off the air exactly at the third consecutive pulse whose period is out of
  specification and comes back exactly at the tenth consecutive good one; in between nothing
  changes its mind, so a single late interrupt never stops it and a flapping pulse never
  restarts it.
\<close>

theorem health_hysteresis:
  "gp_period_healthy (judged (bs @ [b])) =
     (if 3 \<le> trailing False (bs @ [b]) then False
      else if 10 \<le> trailing True (bs @ [b]) then True
      else gp_period_healthy (judged bs))"
  by (rule judged_snoc)

subsection \<open>Seconds per edge\<close>

lemma extra_epochs_int:
  "uint iv + 500000 < 4294967296 \<Longrightarrow> extra_epochs iv = (uint iv + 500000) div 1000000 - 1"
  by (simp add: extra_epochs_def uint_div uint_word_ariths)

lemma extra_epochs_whole:
  "\<bar>uint iv - k * 1000000\<bar> < 500000 \<Longrightarrow> uint iv + 500000 < 4294967296 \<Longrightarrow> extra_epochs iv + 1 = k"
proof -
  assume a: "\<bar>uint iv - k * 1000000\<bar> < 500000" "uint iv + 500000 < 4294967296"
  then have "(uint iv + 500000) div 1000000 = k"
    by (intro int_div_pos_eq [where r = "uint iv + 500000 - 1000000 * k"]) auto
  with a(2) show ?thesis by (simp add: extra_epochs_int)
qed

lemma i32_uint: "i32 w = (if uint w < 2147483648 then uint w else uint w - 4294967296)"
proof -
  have w: "to_u32 (uint w) = w" by (simp add: to_u32_def)
  have a: "i32 w = to_i32 (uint w)" using i32_to_u32 [of "uint w"] by (simp only: w)
  have "to_u32 4294967296 = 0" by (simp add: to_u32_def)
  then have b: "i32 w = to_i32 (uint w - 4294967296)"
    using clock_diff [of "uint w" 4294967296] by (simp only: w diff_zero)
  have u: "0 \<le> uint w" "uint w < 4294967296" using uint_bounded [of w] by simp_all
  show ?thesis
  proof (cases "uint w < 2147483648")
    case True
    then have "to_i32 (uint w) = uint w" using u by (intro to_i32_id) linarith+
    with True a show ?thesis by simp
  next
    case False
    then have "to_i32 (uint w - 4294967296) = uint w - 4294967296" using u by (intro to_i32_id) simp_all
    with False b show ?thesis by simp
  qed
qed

lemma in_spec_residual:
  assumes "period_in_spec iv"
  shows "0 \<le> extra_epochs iv" "\<bar>uint iv - (extra_epochs iv + 1) * 1000000\<bar> \<le> 20000"
proof -
  from assms show x: "0 \<le> extra_epochs iv" by (simp add: period_in_spec_def)
  have "uint iv < 2147483648"
  proof (rule ccontr)
    assume "\<not> uint iv < 2147483648"
    then have "i32 iv < 0" using uint_bounded [of iv] by (simp add: i32_uint)
    moreover from assms have "i32 iv \<ge> (extra_epochs iv + 1) * 1000000 - 20000"
      by (simp add: period_in_spec_def period_residual_us_def pps_consts)
    ultimately show False using x by (simp add: algebra_simps)
  qed
  with assms show "\<bar>uint iv - (extra_epochs iv + 1) * 1000000\<bar> \<le> 20000"
    by (auto simp: period_in_spec_def period_residual_us_def pps_consts i32_uint abs_le_iff)
qed

text \<open>
  Edges in specification keep the epoch counter within 2 % of the microsecond clock. Over any
  run of intervals that all pass the period check, missed pulses included, the seconds counted
  and the microseconds elapsed differ by at most 20 ms per edge, and every edge counts at
  least one second.
\<close>

theorem in_spec_rate_bound:
  assumes "\<forall>iv \<in> set ivs. period_in_spec iv"
  shows "\<bar>sum_list (map uint ivs) - 1000000 * sum_list (map (\<lambda>iv. extra_epochs iv + 1) ivs)\<bar>
      \<le> 20000 * int (length ivs) \<and>
    int (length ivs) \<le> sum_list (map (\<lambda>iv. extra_epochs iv + 1) ivs)"
  using assms
proof (induction ivs)
  case (Cons iv ivs)
  then have "period_in_spec iv" by simp
  from in_spec_residual [OF this] Cons show ?case by (simp add: abs_le_iff)
qed simp

theorem in_spec_rate_bound_witness:
  "\<bar>sum_list (map uint [1010000, 2985000 :: u32]) -
      1000000 * sum_list (map (\<lambda>iv. extra_epochs iv + 1) [1010000, 2985000])\<bar> \<le> 40000"
  using in_spec_rate_bound [of "[1010000, 2985000]"]
  by (simp add: period_in_spec_def period_residual_us_def extra_epochs_def pps_consts i32_def)

lemma concat_replicate_snoc: "concat (replicate (Suc n) r) = concat (replicate n r) @ r"
  by (induction n) simp_all

text \<open>
  The period check does not bound the served rate by itself. A pulse that is 40 % slow twice
  and right once, for ever, never trips the streak: after \<open>n\<close> rounds the server is still
  healthy and has counted \<open>3 n\<close> seconds while \<open>3.8 n\<close> seconds elapsed.
\<close>

theorem intermittent_bad_pulses_stay_healthy:
  "let ivs = concat (replicate n [1400000, 1400000, 1000000 :: u32]) in
   gp_period_healthy (judged (map period_in_spec ivs)) \<and>
   sum_list (map (\<lambda>iv. extra_epochs iv + 1) ivs) = 3 * int n \<and>
   sum_list (map uint ivs) = 3800000 * int n"
proof (induction n)
  case 0
  then show ?case by (simp add: judged_def gps_init_def)
next
  case (Suc n)
  let ?r = "[1400000, 1400000, 1000000 :: u32]"
  let ?ivs = "concat (replicate n ?r)"
  have e: "concat (replicate (Suc n) ?r) = ?ivs @ ?r"
    by (rule concat_replicate_snoc)
  have b: "period_in_spec 1400000 = False" "period_in_spec 1000000 = True"
    by (simp_all add: period_in_spec_def period_residual_us_def extra_epochs_def pps_consts i32_def)
  have t: "trailing False (map period_in_spec ?ivs) = 0"
    by (cases n) (simp_all add: trailing_def b replicate_append_same [symmetric])
  have "judged (map period_in_spec (?ivs @ ?r)) =
      judged (((map period_in_spec ?ivs @ [False]) @ [False]) @ [True])"
    by (simp add: b)
  moreover have "gp_period_healthy (judged (((map period_in_spec ?ivs @ [False]) @ [False]) @ [True]))"
    using Suc t by (simp only: judged_snoc trailing_snoc Let_def) simp
  ultimately show ?case
    using Suc unfolding Let_def e by (simp add: extra_epochs_def)
qed

subsection \<open>What an edge publishes\<close>

text \<open>
  The slew request is the correction. The pair handed to \<open>adjtime\<close> names exactly the
  requested number of microseconds, of either sign, with a microsecond field the platform reads
  correctly.
\<close>

theorem adjtime_delta_exact:
  "tv_sec (adjtime_delta c) * 1000000 + tv_usec (adjtime_delta c) = c \<and>
   0 \<le> tv_usec (adjtime_delta c) \<and> tv_usec (adjtime_delta c) < 1000000"
proof -
  have "adjtime_delta c = (case (let sec = c sdiv 1000000; usec = c smod 1000000 in
      if usec < 0 then (sec - 1, usec + 1000000) else (sec, usec)) of
      (s, u) \<Rightarrow> \<lparr>tv_sec = s, tv_usec = u\<rparr>)"
    by (simp add: adjtime_delta_def Let_def)
  also have "\<dots> = \<lparr>tv_sec = c div 1000000, tv_usec = c mod 1000000\<rparr>"
    unfolding floor_of_truncation by simp
  finally show ?thesis by simp
qed

lemma judge_track_keep:
  "gp_last_gps_epoch (judge_period b s) = gp_last_gps_epoch s"
  "gp_last_gps_epoch (track_isr_latency t c s) = gp_last_gps_epoch s"
  "gp_pps_synced (judge_period b s) = gp_pps_synced s"
  "gp_pps_synced (track_isr_latency t c s) = gp_pps_synced s"
  "gp_anchor (judge_period b s) = gp_anchor s"
  "gp_anchor (track_isr_latency t c s) = gp_anchor s"
  "gp_drift_mean_x256 (judge_period b s) = gp_drift_mean_x256 s"
  "gp_drift_mean_x256 (track_isr_latency t c s) = gp_drift_mean_x256 s"
  by (simp_all add: judge_period_def track_isr_latency_def Let_def)

lemma learn_predict_keep:
  "gp_last_gps_epoch (learn_drift s) = gp_last_gps_epoch s" "gp_anchor (learn_drift s) = gp_anchor s"
  "gp_last_gps_epoch (learn_rate s) = gp_last_gps_epoch s" "gp_anchor (learn_rate s) = gp_anchor s"
  "gp_last_gps_epoch (predict_error t e s) = gp_last_gps_epoch s"
  "gp_anchor (predict_error t e s) = gp_anchor s"
  by (simp_all add: learn_drift_def learn_rate_def predict_error_def Let_def split: option.split)

text \<open>The anchor an edge leaves.\<close>

lemma edge_publishes_anchor:
  assumes "gps_inv s" "gp_pps_synced s" "edge < 18446744073709551616" "0 \<le> edge"
    and "\<bar>uint (to_u32 edge - gp_prev_pps_micros s) - k * 1000000\<bar> < 500000"
    and "uint (to_u32 edge - gp_prev_pps_micros s) + 500000 < 4294967296"
    and "\<bar>raw - isr_latency (to_u32 edge - gp_prev_pps_micros s) -
          (gp_last_gps_epoch s + k) * 1000000\<bar> \<le> 100000"
    and "gp_last_gps_epoch s + k \<noteq> 0"
  shows "let (s', acts) = measure_edge (to_u32 edge) raw s in
    gp_last_gps_epoch s' = gp_last_gps_epoch s + k \<and>
    acts = [Adjtime (adjtime_delta ((gp_last_gps_epoch s + k) * 1000000 -
      (raw - isr_latency (to_u32 edge - gp_prev_pps_micros s)) - gp_drift_mean_x256 s sdiv 256))] \<and>
    (\<exists>a. get_pps_anchor_now (gp_anchor s') = Some a \<and> pa_epoch a = gp_last_gps_epoch s + k \<and>
      pa_micros a = to_u32 edge \<and> \<bar>pa_drift_ppb a\<bar> < 100000)"
proof -
  let ?iv = "to_u32 edge - gp_prev_pps_micros s"
  let ?e = "gp_last_gps_epoch s + k"
  have k: "extra_epochs ?iv + 1 = k" by (rule extra_epochs_whole [OF assms(5,6)])
  define s1 where "s1 = (track_isr_latency (to_u32 edge) (period_in_spec ?iv \<and> extra_epochs ?iv = 0)
      (judge_period (period_in_spec ?iv) (s\<lparr>gp_prev_pps_micros := to_u32 edge\<rparr>)))
      \<lparr>gp_last_gps_epoch := ?e, gp_last_drift_us := raw - isr_latency ?iv - ?e * 1000000\<rparr>"
  have e: "gp_last_gps_epoch s + 1 + extra_epochs ?iv = ?e" using k by simp
  have m: "measure_edge (to_u32 edge) raw s = discipline (to_u32 edge) ?e s1"
    by (simp add: measure_edge_def Let_def judge_track_keep e s1_def del: distrib_right_numeral)
  have s1: "gp_pps_synced s1" "\<bar>gp_last_drift_us s1\<bar> \<le> 100000" "gp_last_gps_epoch s1 = ?e"
    "gp_anchor s1 = gp_anchor s" "gp_drift_mean_x256 s1 = gp_drift_mean_x256 s"
    "gp_last_drift_us s1 = raw - isr_latency ?iv - ?e * 1000000"
    using assms(2,7) by (simp_all add: s1_def judge_track_keep)
  then have f: "discipline (to_u32 edge) ?e s1 = fine_correction (to_u32 edge) ?e s1"
    by (simp add: discipline_def not_less abs_le_iff)
  have i: "gps_inv s1"
    using assms(1) by (simp add: s1_def track_inv judge_period_inv)
  then have "even (ac_seq (gp_anchor s1))" by (simp add: gps_inv_def anchor_inv_def)
  moreover have "\<bar>anchor_rate (learn_rate (learn_drift s1))\<bar> < 100000"
    using learn_inv [OF i] by (simp add: anchor_rate_bounded gps_inv_def)
  ultimately show ?thesis
    unfolding m f using assms(8) s1
    by (simp add: fine_correction_def Let_def publish_anchor_def learn_predict_keep
        publish_pps_anchor_eq get_pps_anchor_now_eq)
qed

text \<open>
  C7: A disciplined edge publishes the whole second it marks. With the clock synchronised and
  within 100 ms of the GPS second, an edge that comes a whole number \<open>k\<close> of seconds after the
  last one, give or take half a second, advances the epoch by exactly \<open>k\<close>, requests one slew, by
  the microseconds the clock is short of that second (its reading less the detected interrupt latency),
  less the mean drift of a period so that the error averages out until the next edge, and leaves an anchor from which the server derives exactly that second at the edge's instant,
  whatever the loop's delay was.
\<close>

theorem edge_publishes_its_second:
  assumes "gps_inv s" "gp_pps_synced s" "edge < 18446744073709551616" "0 \<le> edge"
    and "\<bar>uint (to_u32 edge - gp_prev_pps_micros s) - k * 1000000\<bar> < 500000"
    and "uint (to_u32 edge - gp_prev_pps_micros s) + 500000 < 4294967296"
    and "\<bar>raw - isr_latency (to_u32 edge - gp_prev_pps_micros s) -
          (gp_last_gps_epoch s + k) * 1000000\<bar> \<le> 100000"
    and "gp_last_gps_epoch s + k \<noteq> 0"
  shows "let (s', acts) = measure_edge (to_u32 edge) raw s in
    gp_last_gps_epoch s' = gp_last_gps_epoch s + k \<and>
    (\<exists>d. acts = [Adjtime d] \<and> 0 \<le> tv_usec d \<and> tv_usec d < 1000000 \<and>
      tv_sec d * 1000000 + tv_usec d = (gp_last_gps_epoch s + k) * 1000000 -
        (raw - isr_latency (to_u32 edge - gp_prev_pps_micros s)) - gp_drift_mean_x256 s sdiv 256) \<and>
    anchor_epoch_us (get_pps_anchor_now (gp_anchor s')) edge =
      Some ((gp_last_gps_epoch s + k) * 1000000)"
proof -
  have "undrift 0 d = 0" for d by (simp add: undrift_def sdiv_pos)
  then show ?thesis
    using edge_publishes_anchor [OF assms] assms(3,4) adjtime_delta_exact
    by (auto simp: Let_def case_prod_beta anchor_at_instant)
qed

definition synced_state :: gps_pps where
  "synced_state = gps_init\<lparr>gp_pps_synced := True, gp_gps_time_valid := True, gp_has_gps_time := True,
     gp_last_gps_epoch := 1800000000, gp_prev_pps_micros := 4294000000\<rparr>"

theorem edge_publishes_its_second_witness:
  "anchor_epoch_us (get_pps_anchor_now (gp_anchor
      (fst (measure_edge (to_u32 4296000123) 1800000002000040 synced_state)))) 4296000123 =
    Some 1800000002000000"
proof -
  have i: "gps_inv synced_state"
    by (simp add: synced_state_def gps_inv_defs gps_init_def anchor_cell_init_def no_anchor_def)
  show ?thesis
    using edge_publishes_its_second [OF i, of 4296000123 2 1800000002000040]
    by (simp add: synced_state_def to_u32_def isr_latency_def extra_epochs_def Let_def split_beta)
qed

text \<open>
  C4: Serving from the anchor means being synchronised. In every state the firmware can reach,
  whatever the order of interrupts, NMEA sentences, loop calls and switches, an instant the
  anchor translates implies that PPS discipline is active on a valid GPS time, and that the
  drift rate the server applies is inside its own guard, so the correction is never skipped.
\<close>

theorem serving_anchor_implies_sync:
  assumes "gps_reachable s" "anchor_epoch_us (get_pps_anchor_now (gp_anchor s)) t = Some x"
  shows "gp_pps_synced s \<and> gp_gps_time_valid s \<and> gp_has_gps_time s \<and>
    (let a = ac_anchor (gp_anchor s); e = uint (to_u32 t - pa_micros a) in
     \<bar>pa_drift_ppb a\<bar> < 100000 \<and>
     x = pa_epoch a * 1000000 + e - (e * pa_drift_ppb a) sdiv 1000000000)"
proof -
  have i: "gps_inv s" by (rule gps_reachable_inv [OF assms(1)])
  then have ev: "even (ac_seq (gp_anchor s))" by (simp add: gps_inv_def anchor_inv_def)
  have ne: "pa_epoch (ac_anchor (gp_anchor s)) \<noteq> 0"
    using assms(2) by (auto simp: get_pps_anchor_now_eq [OF ev] anchor_epoch_us_def split: if_splits)
  have d: "\<bar>pa_drift_ppb (ac_anchor (gp_anchor s))\<bar> < 100000"
    using i by (simp add: gps_inv_def anchor_inv_def)
  have "x = pa_epoch (ac_anchor (gp_anchor s)) * 1000000 +
      undrift (uint (to_u32 t - pa_micros (ac_anchor (gp_anchor s)))) (pa_drift_ppb (ac_anchor (gp_anchor s)))"
    using assms(2) ne by (simp add: get_pps_anchor_now_eq [OF ev] anchor_epoch_us_eq split: if_splits)
  with i ne d show ?thesis
    by (auto simp: gps_inv_def anchor_inv_def sync_inv_def undrift_def Let_def)
qed

text \<open>A concrete start: a first fix and three pulses bring the anchor up.\<close>

definition first_fix :: nmea where
  "first_fix = \<lparr>nm_satellites = Some 9, nm_gps = None, nm_glonass = None, nm_galileo = None,
     nm_beidou_gb = None, nm_beidou_bd = None, nm_timestamp = Some 1800000000\<rparr>"

definition edge_at :: "u32 \<Rightarrow> int \<Rightarrow> gps_pps \<Rightarrow> gps_pps" where
  "edge_at now sec s = fst (gps_loop \<lparr>pr_tv = \<lparr>tv_sec = sec, tv_usec = 25\<rparr>, pr_micros = now + 20,
     pr_millis = now div 1000, pr_millis2 = 0\<rparr> None (pps_isr now s))"

definition third_edge :: gps_pps where
  "third_edge = edge_at 3000000 1800000002 (edge_at 2000000 1800000001 (edge_at 1000000 1800000000
     (fst (on_update first_fix \<lparr>tv_sec = 0, tv_usec = 0\<rparr> \<lparr>tv_sec = 0, tv_usec = 0\<rparr> gps_init))))"

lemma edge_at_reachable: "gps_reachable s \<Longrightarrow> gps_reachable (edge_at now sec s)"
  unfolding edge_at_def by (intro gps_reachable.Step [OF _ gps_step.Loop] gps_reachable.Step [OF _ gps_step.Isr])

lemma third_edge_reachable: "gps_reachable third_edge"
  unfolding third_edge_def
  by (intro edge_at_reachable gps_reachable.Step [OF gps_reachable.Init gps_step.Nmea])

theorem serving_anchor_implies_sync_witness:
  "gp_pps_synced third_edge \<and>
   anchor_epoch_us (get_pps_anchor_now (gp_anchor third_edge)) 3500000 = Some 1800000002500000"
proof -
  have x: "anchor_epoch_us (get_pps_anchor_now (gp_anchor third_edge)) 3500000 = Some 1800000002500000"
    by code_simp
  show ?thesis using serving_anchor_implies_sync [OF third_edge_reachable x] x by simp
qed

text \<open>
  Synchronised is not the same as right: when three NMEA sentences in a row say that the epoch counter is
  a second out, \<open>check_epoch\<close> steps the counter and the system clock, but neither withdraws the
  anchor nor publishes a new one, so the old second is served until the next pulse.
\<close>

lemma epoch_fix_keeps_old_anchor:
  assumes "gp_pps_synced s" "2 \<le> gp_epoch_error_streak s" "gp_epoch_error_last s = err" "err \<noteq> 0"
    and "epoch_err_s ((tv_sec tv - timestamp) * 1000 + tv_usec tv sdiv 1000) = err"
  shows "gp_last_gps_epoch (fst (check_epoch tv fix_tv timestamp s)) = gp_last_gps_epoch s - err"
    "gp_anchor (fst (check_epoch tv fix_tv timestamp s)) = gp_anchor s"
  using assms by (simp_all add: check_epoch_def EPOCH_FIX_STREAK_def Let_def)

text \<open>
  The diagnostic of the anchor's prediction is pinned to the serving arithmetic: whenever it
  records a sample, the sample is what the server would have served from the previous anchor at
  this edge, minus the second the edge marks.
\<close>

lemma pred_error_pinned:
  assumes "gp_pred_error_valid (predict_error (to_u32 t) epoch s)" "\<not> gp_pred_error_valid s"
  shows "anchor_epoch_us (get_pps_anchor_now (gp_anchor s)) t =
    Some (gp_pred_error_us (predict_error (to_u32 t) epoch s) + epoch * 1000000)"
proof -
  from assms obtain a where a: "get_pps_anchor_now (gp_anchor s) = Some a"
    "\<not> gp_pred_error_skip_next s" "to_u32 t - pa_micros a > 900000" "to_u32 t - pa_micros a < 1100000"
    by (auto simp: predict_error_def Let_def split: option.splits if_splits)
  then have "uint (to_u32 t - pa_micros a) \<le> 2000000" by (simp add: word_less_alt)
  with a show ?thesis
    by (simp add: predict_error_def Let_def anchor_epoch_us_eq undrift_def)
qed

text \<open>
  The 900 ms guard of the interrupt: once an edge at a non-zero counter reading is accepted,
  nothing is accepted for 900 ms, across the wrap of the counter.
\<close>

lemma isr_guard:
  assumes "gp_isr_anchor_micros s = to_u32 a" "to_u32 a \<noteq> 0" "a \<le> t" "t < a + 4294967296"
  shows "t - a < 900000 \<Longrightarrow> pps_isr (to_u32 t) s = s"
    "900000 \<le> t - a \<Longrightarrow> gp_last_pps_micros (pps_isr (to_u32 t) s) = to_u32 t \<and> gp_pps_flag (pps_isr (to_u32 t) s)"
  using assms clock_elapsed_exact [of t a] by (auto simp: pps_isr_def word_less_alt)

text \<open>
  The epoch error is cast to eight bits: a clock that is off by a multiple of 256 s reads as
  correct.
\<close>

lemma epoch_err_alias: "epoch_err_s 256000 = 0"
  by code_simp

end
