(* ===== verification/NtpResponse.thy ===== *)
theory NtpResponse
  imports RxHook PpsClock
begin

text \<open>
  The reply: \<open>build_ntp_response_\<close> and the post-write callback \<open>build_patch_t3_\<close> of
  \<open>components/ntp_server/ntp_server.cpp\<close>. The time source is the state of the GPS/PPS component
  (none when none is configured), read while its main loop publishes nothing; clock readings are
  arguments in the order the code takes them.
\<close>

subsection \<open>Single precision\<close>

text \<open>
  The root dispersion is computed in single precision. Every value that occurs is a multiple of
  \<open>2^-40\<close>, far inside the normal range, so a \<open>float\<close> is the natural number of such units and
  rounding (to 24 significant bits, ties to even) does not depend on the unit.
\<close>

fun bit_len :: "nat \<Rightarrow> nat" where
  "bit_len k = (if k = 0 then 0 else Suc (bit_len (k div 2)))"

declare bit_len.simps [simp del]

definition f32_round :: "nat \<Rightarrow> nat" where
  "f32_round k =
     (let s = bit_len k - 24 in
      if s = 0 then k
      else let q = k div 2 ^ s; r = k mod 2 ^ s; h = 2 ^ (s - 1) in
        (if r > h \<or> r = h \<and> odd q then q + 1 else q) * 2 ^ s)"

lemma bit_len_bounds: "0 < k \<Longrightarrow> 2 ^ (bit_len k - 1) \<le> k \<and> k < 2 ^ bit_len k"
proof (induction k rule: bit_len.induct)
  case (1 k)
  show ?case
  proof (cases "k = 1")
    case True
    then show ?thesis by (simp add: bit_len.simps [of "Suc 0"] bit_len.simps [of 0])
  next
    case False
    with 1 have "0 < k div 2" by simp
    with 1 have "2 ^ (bit_len (k div 2) - 1) \<le> k div 2" "k div 2 < 2 ^ bit_len (k div 2)" by auto
    moreover have "0 < bit_len (k div 2)" using \<open>0 < k div 2\<close> by (simp add: bit_len.simps [of "k div 2"])
    then obtain j where "bit_len (k div 2) = Suc j" by (cases "bit_len (k div 2)") auto
    ultimately have "2 ^ j \<le> k div 2" "k div 2 < 2 * 2 ^ j" "bit_len k = Suc (Suc j)"
      using \<open>0 < k\<close> by (simp_all add: bit_len.simps [of k])
    moreover from this have "2 * 2 ^ j \<le> k" "k < 2 * (2 * 2 ^ j)" by linarith+
    ultimately show ?thesis by simp
  qed
qed

text \<open>Rounding is exact up to 24 bits and off by at most half a unit in the last place.\<close>

lemma f32_round_small: "k < 16777216 \<Longrightarrow> f32_round k = k"
proof -
  assume k: "k < 16777216"
  have "bit_len k \<le> 24"
  proof (rule ccontr)
    assume "\<not> bit_len k \<le> 24"
    then have "(2 :: nat) ^ 24 \<le> 2 ^ (bit_len k - 1)" by (intro power_increasing) auto
    moreover have "0 < k" using \<open>\<not> bit_len k \<le> 24\<close> by (cases k) (auto simp: bit_len.simps [of 0])
    ultimately show False using bit_len_bounds [of k] k by simp
  qed
  then show ?thesis by (simp add: f32_round_def)
qed

lemma f32_round_error:
  "f32_round k * 16777216 \<le> k * 16777217 \<and> k * 16777215 \<le> f32_round k * 16777216"
proof (cases "bit_len k - 24 = 0")
  case True
  then show ?thesis by (simp add: f32_round_def)
next
  case False
  define s where "s = bit_len k - 24"
  define h :: nat where "h = 2 ^ (s - 1)"
  define q where "q = k div 2 ^ s"
  define r where "r = k mod 2 ^ s"
  have s: "0 < s" using False by (simp add: s_def)
  then have p: "2 ^ s = 2 * h" unfolding h_def by (cases s) simp_all
  have k: "k = q * (2 * h) + r" using div_mult_mod_eq [of k "2 ^ s"] by (simp add: q_def r_def p)
  have r: "r < 2 * h" by (simp add: r_def p [symmetric])
  have "0 < k" using False by (cases k) (auto simp: bit_len.simps [of 0])
  then have "2 ^ (bit_len k - 1) \<le> k" using bit_len_bounds by blast
  moreover have "bit_len k - 1 = 24 + (s - 1)" using False by (simp add: s_def)
  ultimately have big: "16777216 * h \<le> k" by (simp add: h_def power_add)
  have f: "f32_round k = (if r > h \<or> r = h \<and> odd q then q + 1 else q) * (2 * h)"
    using False by (simp add: f32_round_def Let_def s_def [symmetric] q_def r_def h_def p)
  show ?thesis
  proof (cases "r > h \<or> r = h \<and> odd q")
    case True
    then have "f32_round k = k + (2 * h - r)" using f k r by (simp add: algebra_simps)
    moreover have "(2 * h - r) * 16777216 \<le> k" using True big by auto
    ultimately show ?thesis by (simp add: algebra_simps)
  next
    case False
    then have "(if r > h \<or> r = h \<and> odd q then q + 1 else q) = q" by (rule if_not_P)
    then have "f32_round k + r = k" using f k by simp
    moreover have "r * 16777216 \<le> k" using False big by auto
    ultimately show ?thesis by linarith
  qed
qed

subsection \<open>Root dispersion\<close>

definition ROOT_DISP_BASE :: nat where "ROOT_DISP_BASE = 8589935 * 2 ^ 5"
definition ROOT_DISP_ANCHOR :: nat where "ROOT_DISP_ANCHOR = 13743895 * 2 ^ 3"
definition ROOT_DISP_RATE :: nat where "ROOT_DISP_RATE = 10995116"

lemmas disp_consts = ROOT_DISP_BASE_def ROOT_DISP_ANCHOR_def ROOT_DISP_RATE_def

text \<open>
  \<open>disp_s\<close> in units of \<open>2^-40\<close> s. C++ lets the compiler contract the product and the sum into one
  rounding; \<open>fused\<close> says whether it does.
\<close>

definition disp_units :: "bool \<Rightarrow> bool \<Rightarrow> u32 \<Rightarrow> u32 \<Rightarrow> nat" where
  "disp_units fused use_anchor ref_seconds rec_seconds =
     (let disp = (if use_anchor then ROOT_DISP_ANCHOR else ROOT_DISP_BASE) in
      if ref_seconds \<noteq> 0 then
        let age = f32_round (unat (rec_seconds - ref_seconds)) in
        if fused then f32_round (disp + age * ROOT_DISP_RATE)
        else f32_round (disp + f32_round (age * ROOT_DISP_RATE))
      else disp)"

text \<open>Scaling by \<open>2^16\<close> is exact; the cast truncates.\<close>

definition root_dispersion :: "bool \<Rightarrow> bool \<Rightarrow> u32 \<Rightarrow> u32 \<Rightarrow> u32" where
  "root_dispersion fused use_anchor ref_seconds rec_seconds =
     of_nat (disp_units fused use_anchor ref_seconds rec_seconds * 2 ^ 16 div 2 ^ 40)"

definition disp_base_e5 :: "bool \<Rightarrow> nat" where
  "disp_base_e5 use_anchor = (if use_anchor then 10 else 25)"

lemma disp_units_near:
  assumes "ref \<noteq> 0 \<or> a = 0" "a = (if ref = 0 then 0 else unat (rec - ref))"
  shows "disp_units fused use ref rec * 100000 * 1048576 \<le>
      (disp_base_e5 use + a) * 1099511627776 * 1048577 \<and>
    (disp_base_e5 use + a) * 1099511627776 * 1048575 \<le> disp_units fused use ref rec * 100000 * 1048576"
proof -
  define B where "B = (if use then ROOT_DISP_ANCHOR else ROOT_DISP_BASE)"
  define b where "b = disp_base_e5 use"
  have B: "B * 100000 * 16777216 \<le> b * 1099511627776 * 16777217"
    "b * 1099511627776 * 16777215 \<le> B * 100000 * 16777216"
    by (simp_all add: B_def b_def disp_base_e5_def disp_consts)
  show ?thesis
  proof (cases "ref = 0")
    case True
    with B assms(2) show ?thesis by (simp add: disp_units_def Let_def B_def [symmetric] b_def [symmetric])
  next
    case False
    define A where "A = f32_round a"
    define Q where "Q = (if fused then A * ROOT_DISP_RATE else f32_round (A * ROOT_DISP_RATE))"
    define D where "D = f32_round (B + Q)"
    have D: "disp_units fused use ref rec = D"
      using False assms(2) by (simp add: disp_units_def Let_def D_def Q_def A_def B_def)
    have "A * 16777216 \<le> a * 16777217" "a * 16777215 \<le> A * 16777216"
      using f32_round_error [of a] by (simp_all add: A_def)
    moreover have "Q * 16777216 \<le> A * 10995116 * 16777217" "A * 10995116 * 16777215 \<le> Q * 16777216"
      using f32_round_error [of "A * ROOT_DISP_RATE"] by (simp_all add: Q_def ROOT_DISP_RATE_def)
    moreover have "D * 16777216 \<le> (B + Q) * 16777217" "(B + Q) * 16777215 \<le> D * 16777216"
      using f32_round_error [of "B + Q"] by (simp_all add: D_def)
    ultimately show ?thesis
      using B unfolding D b_def [symmetric] by (simp add: algebra_simps)
  qed
qed

text \<open>
  The seconds fields are unsigned: a request dated before the last correction, which the receive
  hook allows around a second boundary, has an age just below \<open>2^32\<close>.
\<close>

lemma root_dispersion_nat:
  assumes "disp_units fused use ref rec * 65536 div 1099511627776 < 4294967296"
  shows "unat (root_dispersion fused use ref rec) = disp_units fused use ref rec * 65536 div 1099511627776"
  using assms by (simp add: root_dispersion_def unat_of_nat)

lemma root_dispersion_near:
  fixes R :: nat
  assumes "a = (if ref = 0 then 0 else unat (rec - ref))" "R = unat (root_dispersion fused use ref rec)"
  shows "R * 100000 * 1048576 \<le> (disp_base_e5 use + a) * 65536 * 1048577 \<and>
    (disp_base_e5 use + a) * 65536 * 1048575 < (R + 1) * 100000 * 1048576"
proof -
  define D where "D = disp_units fused use ref rec"
  define Q where "Q = D * 65536 div 1099511627776"
  define b where "b = disp_base_e5 use"
  have D: "D * 100000 * 1048576 \<le> (b + a) * 1099511627776 * 1048577"
    "(b + a) * 1099511627776 * 1048575 \<le> D * 100000 * 1048576"
    using disp_units_near [of ref a "rec" fused use] assms(1) unfolding D_def b_def by auto
  have "a < 4294967296" "b \<le> 25" using assms(1) by (auto simp: b_def disp_base_e5_def)
  then have "(b + a) * 1099511627776 * 1048577 \<le> 4294967320 * 1099511627776 * 1048577"
    by (intro mult_right_mono) auto
  then have lt: "Q < 4294967296" using D unfolding Q_def by linarith
  have Q: "Q * 16777216 \<le> D" "D < (Q + 1) * 16777216" unfolding Q_def by simp_all
  have R: "R = Q" using root_dispersion_nat [of fused use ref "rec"] lt assms(2) by (simp add: Q_def D_def)
  show ?thesis using D Q unfolding R b_def [symmetric] by linarith
qed

text \<open>
  C27: The advertised root dispersion, for all inputs. It is the fixed term (0.1 ms on the anchor,
  0.25 ms on the system clock) plus 10 us for every second of age, in units of \<open>2^-16\<close> s, to one unit
  and one part in \<open>2^20\<close>, whichever way the compiler contracts the single-precision sum. The age is 0
  without a correction and the seconds since the last correction for a request that is not dated before it;
  but it is a difference of unsigned seconds, so that a request dated before it (the pulse was processed
  between arrival and reply) has an age just below \<open>2^32\<close> and is served with at least 21474 s.
\<close>

theorem root_dispersion_budget:
  "let R = unat (root_dispersion fused use ref rec);
       age = (if ref = 0 then 0 else if ref \<le> rec then unat rec - unat ref else unat rec + 4294967296 - unat ref);
       B = (disp_base_e5 use + age) * 65536 in
    R * 100000 * 1048576 \<le> B * 1048577 \<and> B * 1048575 < (R + 1) * 100000 * 1048576 \<and>
    (rec < ref \<and> unat ref - unat rec \<le> 2147483648 \<longrightarrow> 21474 * 65536 < R)"
proof -
  define R where "R = unat (root_dispersion fused use ref rec)"
  define age where "age = (if ref = 0 then 0 else if ref \<le> rec then unat rec - unat ref else unat rec + 4294967296 - unat ref)"
  have "age = (if ref = 0 then 0 else unat (rec - ref))"
    by (simp add: age_def unat_sub_if_size word_size word_le_nat_alt)
  from root_dispersion_near [OF this R_def]
  have near: "R * 100000 * 1048576 \<le> (disp_base_e5 use + age) * 65536 * 1048577"
    "(disp_base_e5 use + age) * 65536 * 1048575 < (R + 1) * 100000 * 1048576" by simp_all
  have "21474 * 65536 < R" if "rec < ref" "unat ref - unat rec \<le> 2147483648"
  proof -
    have "\<not> ref \<le> rec" "ref \<noteq> 0" "unat rec < unat ref"
      using that(1) by (auto simp: word_less_nat_alt word_le_nat_alt)
    then have "2147483648 \<le> age" using that(2) by (simp add: age_def)
    with near(2) show ?thesis by simp
  qed
  with near show ?thesis unfolding Let_def R_def [symmetric] age_def [symmetric] by simp
qed

theorem root_dispersion_budget_witness:
  "21474 * 65536 < unat (root_dispersion False True 3900000001 3900000000) \<and>
   (let R = unat (root_dispersion True True 3000000000 3000000010); B = 20 * 65536 in
    R * 100000 * 1048576 \<le> B * 1048577 \<and> B * 1048575 < (R + 1) * 100000 * 1048576)"
  using root_dispersion_budget [of False True 3900000001 3900000000] root_dispersion_budget [of True True 3000000000 3000000010]
  by (simp add: disp_base_e5_def Let_def word_le_nat_alt word_less_nat_alt)

subsection \<open>The reply\<close>

definition W5500_TX_STAMP_EARLY_US :: int where "W5500_TX_STAMP_EARLY_US = 57"

definition is_time_synchronized :: "u32 \<Rightarrow> gps_pps option \<Rightarrow> bool" where
  "is_time_synchronized now_ms src = (case src of None \<Rightarrow> False | Some g \<Rightarrow> is_synchronized now_ms g)"

definition ref_seconds :: "gps_pps option \<Rightarrow> u32" where
  "ref_seconds src = (case src of None \<Rightarrow> 0
    | Some g \<Rightarrow> let last_sync = get_last_sync_epoch g in
        if last_sync > 0 then to_u32 last_sync + NTP_UNIX_OFFSET else 0)"

text \<open>The shifts and masks by which a 32-bit field is written.\<close>

definition field32 :: "u32 \<Rightarrow> u8 list" where
  "field32 w = [ucast (drop_bit 24 w AND 0xFF), ucast (drop_bit 16 w AND 0xFF),
     ucast (drop_bit 8 w AND 0xFF), ucast (w AND 0xFF)]"

lemma field32_be32: "field32 w = be32 w"
  by (simp add: field32_def be32_def and_0xFF)

text \<open>
  What one reply reads from outside: \<open>millis\<close> and the time source at the synchronisation check,
  the time source at the reference time, the anchor as \<open>get_pps_anchor\<close> returned it, and the
  clocks. Each is read at its own moment, so the source may differ between the reads.
\<close>

record reply_reads =
  rp_millis :: u32
  rp_src :: "gps_pps option"
  rp_src_ref :: "gps_pps option"
  rp_anchor :: "pps_anchor option"
  rp_clock_us :: int
  rp_tv :: timeval
  rp_clock2_us :: int
  rp_fused :: bool

definition t3_offset_us :: "ntp_server \<Rightarrow> int" where
  "t3_offset_us s = estimate_us (sv_send_estimator s) +
     (if sv_chip_latency s then W5500_TX_STAMP_EARLY_US else 0)"

definition build_ntp_response ::
  "u8 list \<Rightarrow> ntp_timestamp \<Rightarrow> reply_reads \<Rightarrow> ntp_server \<Rightarrow> u8 list \<times> ntp_server" where
  "build_ntp_response request receive_ts r s =
     (let b = replicate NTP_PACKET_SIZE 0;
          vn = drop_bit 3 (request ! 0) AND 0x07;
          synced = is_time_synchronized (rp_millis r) (rp_src r);
          b = (if synced then put b 0 [push_bit 3 vn OR 4, 1]
               else put b 0 [push_bit 6 3 OR push_bit 3 vn OR 4, 16]);
          b = put b 2 [request ! 2,
                word_of_int (if sv_use_pps_anchor s then sv_precision_anchor s else sv_precision s)];
          b = put b 12 [0x47, 0x50, 0x53, 0];
          ref_seconds = ref_seconds (rp_src_ref r);
          b = put b 16 (field32 ref_seconds);
          root_disp = root_dispersion (rp_fused r) (sv_use_pps_anchor s) ref_seconds
            (ts_seconds receive_ts);
          b = put b 8 (field32 root_disp);
          b = put b 24 (take 8 (drop 40 request));
          b = put b 32 (field32 (ts_seconds receive_ts) @ field32 (ts_fraction receive_ts));
          (transmit_ts, t3_clock_read_us) = get_ntp_timestamp (sv_use_pps_anchor s) (rp_anchor r)
            (t3_offset_us s) (rp_clock_us r) (rp_tv r) (rp_clock2_us r) in
      (put b 40 (encode_ntp_timestamp transmit_ts), s\<lparr>sv_last_t3_clock_read_us := t3_clock_read_us\<rparr>))"

text \<open>A reply, read back by its fields.\<close>

definition reply_time :: "nat \<Rightarrow> u8 list \<Rightarrow> ntp_timestamp" where
  "reply_time i b = decode_ntp_timestamp (take 8 (drop i b))"

lemma low3_cases:
  fixes v :: u8
  obtains "v AND 0x07 = 0" | "v AND 0x07 = 1" | "v AND 0x07 = 2" | "v AND 0x07 = 3"
    | "v AND 0x07 = 4" | "v AND 0x07 = 5" | "v AND 0x07 = 6" | "v AND 0x07 = 7"
proof -
  define w where "w = v AND 0x07"
  have "unat w < 8" using word_and_le1 [of v "0x07"] by (simp add: w_def word_le_nat_alt)
  then have "unat w \<in> {0, 1, 2, 3, 4, 5, 6, 7}" by auto
  then have "w \<in> {0, 1, 2, 3, 4, 5, 6, 7}" by (simp add: word_unat_eq_iff)
  then show thesis using that unfolding w_def [symmetric] by blast
qed

lemma flags_byte:
  fixes v :: u8
  shows "(push_bit 3 (v AND 0x07) OR 4) AND 0x07 = 4"
    "drop_bit 6 (push_bit 3 (v AND 0x07) OR 4) = 0"
    "drop_bit 3 (push_bit 3 (v AND 0x07) OR 4) AND 0x07 = v AND 0x07"
    "(push_bit 6 3 OR push_bit 3 (v AND 0x07) OR 4) AND 0x07 = 4"
    "drop_bit 6 (push_bit 6 3 OR push_bit 3 (v AND 0x07) OR 4) = 3"
    "drop_bit 3 (push_bit 6 3 OR push_bit 3 (v AND 0x07) OR 4) AND 0x07 = v AND 0x07"
  by (cases v rule: low3_cases; simp)+

definition field_at :: "nat \<Rightarrow> nat \<Rightarrow> u8 list \<Rightarrow> u8 list" where
  "field_at i n b = take n (drop i b)"

lemma put_get: "i + length xs \<le> length b \<Longrightarrow> n = length xs \<Longrightarrow> field_at i n (put b i xs) = xs"
  using put_same by (simp add: field_at_def)

lemma put_other:
  assumes "i + length xs \<le> length b" "j + n \<le> i \<or> i + length xs \<le> j"
  shows "field_at j n (put b i xs) = field_at j n b"
  unfolding field_at_def
proof (rule nth_equalityI)
  show "length (take n (drop j (put b i xs))) = length (take n (drop j b))" using assms(1) by simp
  fix k
  assume "k < length (take n (drop j (put b i xs)))"
  then have k: "k < n" "j + k < length b" using assms(1) by auto
  then show "take n (drop j (put b i xs)) ! k = take n (drop j b) ! k"
    using put_nth [OF assms(1) k(2)] assms by auto
qed

text \<open>The fields of a reply, by position, in one place for the proofs below.\<close>

lemma reply_fields:
  fixes request :: "u8 list"
  assumes "length request = 48" "build_ntp_response request rts r s = (b, s')"
    "get_ntp_timestamp (sv_use_pps_anchor s) (rp_anchor r) (t3_offset_us s) (rp_clock_us r) (rp_tv r)
       (rp_clock2_us r) = (t3, c)"
  shows "length b = 48 \<and>
    take 2 b = (if is_time_synchronized (rp_millis r) (rp_src r)
      then [push_bit 3 (drop_bit 3 (request ! 0) AND 0x07) OR 4, 1]
      else [push_bit 6 3 OR push_bit 3 (drop_bit 3 (request ! 0) AND 0x07) OR 4, 16]) \<and>
    take 2 (drop 2 b) = [request ! 2,
      word_of_int (if sv_use_pps_anchor s then sv_precision_anchor s else sv_precision s)] \<and>
    take 4 (drop 4 b) = [0, 0, 0, 0] \<and>
    take 4 (drop 8 b) = be32 (root_dispersion (rp_fused r) (sv_use_pps_anchor s)
      (ref_seconds (rp_src_ref r)) (ts_seconds rts)) \<and>
    take 4 (drop 12 b) = [0x47, 0x50, 0x53, 0] \<and>
    take 8 (drop 16 b) = be32 (ref_seconds (rp_src_ref r)) @ be32 0 \<and>
    take 8 (drop 24 b) = take 8 (drop 40 request) \<and>
    take 8 (drop 32 b) = be32 (ts_seconds rts) @ be32 (ts_fraction rts) \<and>
    take 8 (drop 40 b) = encode_ntp_timestamp t3 \<and>
    s' = s\<lparr>sv_last_t3_clock_read_us := c\<rparr>"
proof -
  have split: "take 8 (drop 16 b) = take 4 (drop 16 b) @ take 4 (drop 20 b)"
    using take_add [of 4 4 "drop 16 b"] by simp
  define flags where "flags = (if is_time_synchronized (rp_millis r) (rp_src r)
      then [push_bit 3 (drop_bit 3 (request ! 0) AND 0x07) OR 4, 1]
      else [push_bit 6 3 OR push_bit 3 (drop_bit 3 (request ! 0) AND 0x07) OR 4, 16])"
  define z :: "u8 list" where "z = replicate NTP_PACKET_SIZE 0"
  define orig where "orig = take 8 (drop 40 request)"
  define prec :: u8 where
    "prec = word_of_int (if sv_use_pps_anchor s then sv_precision_anchor s else sv_precision s)"
  have b: "b = put (put (put (put (put (put (put (put z 0 flags)
      2 [request ! 2, prec]) 12 [0x47, 0x50, 0x53, 0]) 16 (be32 (ref_seconds (rp_src_ref r))))
      8 (be32 (root_dispersion (rp_fused r) (sv_use_pps_anchor s) (ref_seconds (rp_src_ref r)) (ts_seconds rts))))
      24 orig) 32 (be32 (ts_seconds rts) @ be32 (ts_fraction rts))) 40 (encode_ntp_timestamp t3)"
    and s': "s' = s\<lparr>sv_last_t3_clock_read_us := c\<rparr>"
    using assms(2,3) by (auto simp: build_ntp_response_def Let_def field32_be32 flags_def orig_def prec_def z_def)
  have l: "length flags = 2" "length z = 48" "length orig = 8"
    using assms(1) by (simp_all add: flags_def NTP_PACKET_SIZE_def orig_def z_def)
  have zero: "field_at i n z = replicate n 0" if "i + n \<le> 48" for i n
    using that by (simp add: field_at_def NTP_PACKET_SIZE_def z_def)
  note pieces = put_get put_other l zero
  have "length b = 48" unfolding b using l by simp
  moreover have "field_at 0 2 b = flags" unfolding b by (simp add: pieces)
  moreover have "field_at 2 2 b = [request ! 2, prec]"
    unfolding b by (simp add: pieces)
  moreover have "field_at 4 4 b = replicate 4 0" "field_at 20 4 b = replicate 4 0"
    unfolding b by (simp_all add: pieces)
  moreover have "field_at 8 4 b = be32 (root_dispersion (rp_fused r) (sv_use_pps_anchor s)
      (ref_seconds (rp_src_ref r)) (ts_seconds rts))"
    "field_at 12 4 b = [0x47, 0x50, 0x53, 0]" "field_at 16 4 b = be32 (ref_seconds (rp_src_ref r))"
    unfolding b by (simp_all add: pieces)
  moreover have "field_at 24 8 b = orig"
    "field_at 32 8 b = be32 (ts_seconds rts) @ be32 (ts_fraction rts)"
    "field_at 40 8 b = encode_ntp_timestamp t3"
    unfolding b by (simp_all add: pieces)
  moreover have "replicate 4 (0 :: u8) = [0, 0, 0, 0]" "be32 0 = [0, 0, 0, 0]"
    by (simp_all add: numeral_eq_Suc be32_def)
  ultimately show ?thesis
    by (simp only: split s' flags_def orig_def prec_def field_at_def drop_0 simp_thms)
qed

lemma reply_well_formed_aux:
  assumes "length request = 48"
  shows "let (b, s') = build_ntp_response request rts r s;
             synced = is_time_synchronized (rp_millis r) (rp_src r);
             (t3, c) = get_ntp_timestamp (sv_use_pps_anchor s) (rp_anchor r) (t3_offset_us s)
               (rp_clock_us r) (rp_tv r) (rp_clock2_us r) in
    length b = 48 \<and> b ! 0 AND 0x07 = 4 \<and>
    drop_bit 3 (b ! 0) AND 0x07 = drop_bit 3 (request ! 0) AND 0x07 \<and>
    (drop_bit 6 (b ! 0), b ! 1) = (if synced then (0, 1) else (3, 16)) \<and> b ! 2 = request ! 2 \<and>
    b ! 3 = word_of_int (if sv_use_pps_anchor s then sv_precision_anchor s else sv_precision s) \<and>
    field_at 4 4 b = [0, 0, 0, 0] \<and>
    field_at 8 4 b = be32 (root_dispersion (rp_fused r) (sv_use_pps_anchor s) (ref_seconds (rp_src_ref r)) (ts_seconds rts)) \<and>
    field_at 12 4 b = [0x47, 0x50, 0x53, 0] \<and> field_at 24 8 b = field_at 40 8 request \<and>
    reply_time 16 b = \<lparr>ts_seconds = ref_seconds (rp_src_ref r), ts_fraction = 0\<rparr> \<and>
    reply_time 32 b = rts \<and> reply_time 40 b = t3 \<and>
    s' = s\<lparr>sv_last_t3_clock_read_us := c\<rparr>"
proof -
  obtain b s' where b: "build_ntp_response request rts r s = (b, s')" by fastforce
  obtain t3 c where t: "get_ntp_timestamp (sv_use_pps_anchor s) (rp_anchor r) (t3_offset_us s)
      (rp_clock_us r) (rp_tv r) (rp_clock2_us r) = (t3, c)" by fastforce
  note f = reply_fields [OF assms b t]
  define flags where "flags = (if is_time_synchronized (rp_millis r) (rp_src r)
      then [push_bit 3 (drop_bit 3 (request ! 0) AND 0x07) OR 4, 1]
      else [push_bit 6 3 OR push_bit 3 (drop_bit 3 (request ! 0) AND 0x07) OR 4, 16])"
  have flags: "flags ! 0 AND 0x07 = 4"
    "drop_bit 3 (flags ! 0) AND 0x07 = drop_bit 3 (request ! 0) AND 0x07"
    "(drop_bit 6 (flags ! 0), flags ! 1) = (if is_time_synchronized (rp_millis r) (rp_src r) then (0, 1) else (3, 16))"
    unfolding flags_def using flags_byte [of "drop_bit 3 (request ! 0)"] by simp_all
  have n: "b ! 0 = flags ! 0" "b ! 1 = flags ! 1" "b ! 2 = request ! 2"
    "b ! 3 = word_of_int (if sv_use_pps_anchor s then sv_precision_anchor s else sv_precision s)"
    using f nth_take [of 0 2 b] nth_take [of 1 2 b] nth_take [of 0 2 "drop 2 b"] nth_take [of 1 2 "drop 2 b"]
    unfolding flags_def [symmetric] by simp_all
  have "reply_time 16 b = \<lparr>ts_seconds = ref_seconds (rp_src_ref r), ts_fraction = 0\<rparr>"
    "reply_time 32 b = rts" "reply_time 40 b = t3"
    using f by (simp_all add: reply_time_def decode_be32)
  with f flags n show ?thesis
    unfolding b t Let_def case_prod_conv field_at_def by (simp only: simp_thms)
qed

text \<open>
  C11: A reply is well formed, whatever the request holds. For any 48 request bytes it has 48 bytes,
  server mode, the client's version and poll, the client's transmit timestamp as origin, the
  given receive timestamp and the transmit timestamp of the chosen clock, bit for bit on the
  wire; leap and stratum are 0 and 1 when the source is synchronised at the check, 3 and 16 when
  not; the precision is the one measured for the clock in use, the root delay 0, the root dispersion
  the one of the age of the last correction, the reference identifier GPS, the reference time whole
  seconds. Only the note of the clock read changes in the server.
\<close>

theorem reply_well_formed:
  assumes "length request = 48"
  shows "let (b, s') = build_ntp_response request rts r s;
             synced = is_time_synchronized (rp_millis r) (rp_src r);
             (t3, c) = get_ntp_timestamp (sv_use_pps_anchor s) (rp_anchor r) (t3_offset_us s)
               (rp_clock_us r) (rp_tv r) (rp_clock2_us r) in
    length b = 48 \<and> b ! 0 AND 0x07 = 4 \<and>
    drop_bit 3 (b ! 0) AND 0x07 = drop_bit 3 (request ! 0) AND 0x07 \<and>
    (drop_bit 6 (b ! 0), b ! 1) = (if synced then (0, 1) else (3, 16)) \<and> b ! 2 = request ! 2 \<and>
    b ! 3 = word_of_int (if sv_use_pps_anchor s then sv_precision_anchor s else sv_precision s) \<and>
    field_at 4 4 b = [0, 0, 0, 0] \<and>
    field_at 8 4 b = be32 (root_dispersion (rp_fused r) (sv_use_pps_anchor s) (ref_seconds (rp_src_ref r)) (ts_seconds rts)) \<and>
    field_at 12 4 b = [0x47, 0x50, 0x53, 0] \<and> field_at 24 8 b = field_at 40 8 request \<and>
    reply_time 16 b = \<lparr>ts_seconds = ref_seconds (rp_src_ref r), ts_fraction = 0\<rparr> \<and>
    reply_time 32 b = rts \<and> reply_time 40 b = t3 \<and>
    s' = s\<lparr>sv_last_t3_clock_read_us := c\<rparr>"
  using assms by (rule reply_well_formed_aux)

theorem reply_well_formed_witness:
  "length (fst (build_ntp_response (replicate 48 0x23) \<lparr>ts_seconds = 1, ts_fraction = 2\<rparr>
     \<lparr>rp_millis = 0, rp_src = None, rp_src_ref = None, rp_anchor = None, rp_clock_us = 0,
       rp_tv = \<lparr>tv_sec = 0, tv_usec = 0\<rparr>, rp_clock2_us = 0, rp_fused = False\<rparr> (ntp_server_init 123))) = 48"
  using reply_well_formed [of "replicate 48 0x23" "\<lparr>ts_seconds = 1, ts_fraction = 2\<rparr>"
      "\<lparr>rp_millis = 0, rp_src = None, rp_src_ref = None, rp_anchor = None, rp_clock_us = 0,
       rp_tv = \<lparr>tv_sec = 0, tv_usec = 0\<rparr>, rp_clock2_us = 0, rp_fused = False\<rparr>" "ntp_server_init 123"]
  by (simp add: Let_def split: prod.splits)

subsection \<open>The post-write transmit timestamp\<close>

text \<open>
  \<open>now_us\<close> is the driver's reading a few instructions ago, \<open>esp_now_us\<close> the 64-bit clock on entry;
  the anchor and the fallback clocks are read as in \<open>hook_to_ntp_timestamp\<close>.
\<close>

definition build_patch_t3 ::
  "u32 \<Rightarrow> u32 \<Rightarrow> gps_pps option \<Rightarrow> int \<Rightarrow> pps_anchor option \<Rightarrow> timeval \<Rightarrow> int \<Rightarrow> ntp_server \<Rightarrow> u8 list option" where
  "build_patch_t3 now_us now_ms src esp_now_us anchor tv clock2_us s =
     (if \<not> is_time_synchronized now_ms src then None
      else
        let elapsed_since_patch_us = i32 (to_u32 esp_now_us - now_us);
            patch_instant_us = esp_now_us - elapsed_since_patch_us;
            predicted_send_us = patch_instant_us + pd_estimate_us (sv_patch_delay s);
            predicted_send_us = (if sv_chip_latency s then predicted_send_us + W5500_TX_STAMP_EARLY_US
              else predicted_send_us) in
        Some (encode_ntp_timestamp
          (hook_to_ntp_timestamp (sv_use_pps_anchor s) anchor tv clock2_us predicted_send_us)))"

lemma undrift_diff:
  assumes "\<bar>e' - e\<bar> < 10000"
  shows "\<bar>undrift e' d - undrift e d - (e' - e)\<bar> \<le> 2"
proof (cases "d > - 100000 \<and> d < 100000")
  case True
  have "\<bar>(e' - e) * d\<bar> \<le> 9999 * 100000" unfolding abs_mult using assms True by (intro mult_mono) auto
  then have "\<bar>e' * d - e * d\<bar> \<le> 999900000" by (simp add: algebra_simps)
  with sdiv_bounds [of "e * d"] sdiv_bounds [of "e' * d"] True show ?thesis
    by (simp add: undrift_def)
qed (auto simp: undrift_def)

lemma hook_on_anchor:
  assumes "pa_micros a = to_u32 edge" "edge \<le> t" "t \<le> edge + 2000000"
  shows "hook_to_ntp_timestamp True (Some a) tv c2 t =
    micros_epoch_to_ntp_timestamp (pa_epoch a * 1000000 + undrift (t - edge) (pa_drift_ppb a))"
  using assms by (simp add: hook_to_ntp_timestamp_def anchor_at_instant [OF assms(1)])

lemma get_on_anchor:
  assumes "pa_micros a = to_u32 edge" "edge \<le> t" "t \<le> edge + 2000000"
  shows "get_ntp_timestamp True (Some a) offset t tv c2 =
    (micros_epoch_to_ntp_timestamp (pa_epoch a * 1000000 + undrift (t - edge) (pa_drift_ppb a) + offset), t)"
  using assms by (simp add: get_ntp_timestamp_def anchor_at_instant [OF assms(1)])

text \<open>
  C26: The two ways to write T3 agree. The patch reconstructs the 64-bit instant of the driver's
  wrapped 32-bit reading, and on the same anchor the timestamp it writes over the one built
  before the send names the same moment to 2 us, plus the disagreement of the two learned
  predictions of the send itself. Without synchronisation it writes nothing.
\<close>

theorem t3_paths_agree:
  assumes "pa_micros a = to_u32 edge" "edge \<le> built" "built \<le> edge + 2000000"
    "\<bar>esp_now - patched\<bar> < 2147483648" "sv_use_pps_anchor s" "rp_anchor r = Some a" "rp_clock_us r = built"
    "offset = pd_estimate_us (sv_patch_delay s) + (if sv_chip_latency s then 57 else 0)"
    "edge \<le> patched + offset" "patched + offset \<le> edge + 2000000"
    "\<bar>t3_offset_us s\<bar> \<le> 5057" "\<bar>(patched + offset) - (built + t3_offset_us s)\<bar> \<le> 4000"
    "length request = 48"
  shows "\<exists>x y. reply_time 40 (fst (build_ntp_response request rts r s)) = micros_epoch_to_ntp_timestamp x \<and>
    build_patch_t3 (to_u32 patched) now_ms src esp_now (Some a) tv c2 s =
      (if is_time_synchronized now_ms src then Some (encode_ntp_timestamp (micros_epoch_to_ntp_timestamp y))
       else None) \<and>
    \<bar>y - x\<bar> \<le> \<bar>(patched + offset) - (built + t3_offset_us s)\<bar> + 2"
proof -
  define E where "E = pa_epoch a * 1000000"
  define x where "x = E + undrift (built - edge) (pa_drift_ppb a) + t3_offset_us s"
  define y where "y = E + undrift (patched + offset - edge) (pa_drift_ppb a)"
  have t: "get_ntp_timestamp (sv_use_pps_anchor s) (rp_anchor r) (t3_offset_us s) (rp_clock_us r)
      (rp_tv r) (rp_clock2_us r) = (micros_epoch_to_ntp_timestamp x, built)"
    using assms(5-7) get_on_anchor [OF assms(1-3)] by (simp add: x_def E_def)
  obtain b s' where b: "build_ntp_response request rts r s = (b, s')" by fastforce
  have "reply_time 40 b = micros_epoch_to_ntp_timestamp x"
    using reply_fields [OF assms(13) b t] by (simp add: reply_time_def)
  moreover have "i32 (to_u32 esp_now - to_u32 patched) = esp_now - patched"
    using assms(4) by (intro clock_diff_exact) auto
  moreover have "hook_to_ntp_timestamp True (Some a) tv c2 (patched + offset) = micros_epoch_to_ntp_timestamp y"
    using hook_on_anchor [OF assms(1,9,10)] by (simp add: y_def E_def)
  moreover have "\<bar>y - x\<bar> \<le> \<bar>(patched + offset) - (built + t3_offset_us s)\<bar> + 2"
  proof -
    have "\<bar>undrift (patched + offset - edge) (pa_drift_ppb a) - undrift (built - edge) (pa_drift_ppb a) -
        ((patched + offset - edge) - (built - edge))\<bar> \<le> 2"
      using assms(11,12) by (intro undrift_diff) linarith
    then show ?thesis unfolding x_def y_def by linarith
  qed
  ultimately show ?thesis
    using assms(5,8) b
    by (intro exI [of _ x] exI [of _ y])
      (auto simp: build_patch_t3_def Let_def W5500_TX_STAMP_EARLY_US_def add.assoc)
qed

theorem t3_paths_agree_witness:
  "let a = \<lparr>pa_epoch = 7, pa_micros = to_u32 4294967000, pa_drift_ppb = 10000\<rparr>;
       s = ntp_server_init 123;
       r = \<lparr>rp_millis = 0, rp_src = None, rp_src_ref = None, rp_anchor = Some a, rp_clock_us = 4295467000,
         rp_tv = \<lparr>tv_sec = 0, tv_usec = 0\<rparr>, rp_clock2_us = 0, rp_fused = False\<rparr> in
   \<exists>x y. reply_time 40 (fst (build_ntp_response (replicate 48 0) \<lparr>ts_seconds = 1, ts_fraction = 2\<rparr> r s)) =
       micros_epoch_to_ntp_timestamp x \<and>
     build_patch_t3 (to_u32 4295467200) 0 (Some (gps_init\<lparr>gp_pps_synced := True\<rparr>)) 4295467210 (Some a)
         \<lparr>tv_sec = 0, tv_usec = 0\<rparr> 0 s = Some (encode_ntp_timestamp (micros_epoch_to_ntp_timestamp y)) \<and>
     \<bar>y - x\<bar> \<le> 262"
proof -
  define a where "a = \<lparr>pa_epoch = 7, pa_micros = to_u32 4294967000, pa_drift_ppb = 10000\<rparr>"
  define s where "s = ntp_server_init 123"
  define r where "r = \<lparr>rp_millis = 0, rp_src = None, rp_src_ref = None, rp_anchor = Some a,
    rp_clock_us = 4295467000, rp_tv = \<lparr>tv_sec = 0, tv_usec = 0\<rparr>, rp_clock2_us = 0, rp_fused = False\<rparr>"
  have s: "sv_use_pps_anchor s" "sv_chip_latency s" "pd_estimate_us (sv_patch_delay s) = 60"
    "t3_offset_us s = 57"
    by (simp_all add: s_def ntp_server_init_def patch_delay_init_def PD_INITIAL_US_def t3_offset_us_def
        send_estimator_init_def W5500_TX_STAMP_EARLY_US_def)
  have sync: "is_time_synchronized 0 (Some (gps_init\<lparr>gp_pps_synced := True\<rparr>))"
    by (simp add: is_time_synchronized_def is_synchronized_def gps_init_def PPS_TIMEOUT_MS_def)
  show ?thesis
    unfolding Let_def s_def [symmetric] a_def [symmetric] r_def [symmetric]
    using t3_paths_agree [of a 4294967000 4295467000 4295467210 4295467200 s r 117 "replicate 48 0"
        "\<lparr>ts_seconds = 1, ts_fraction = 2\<rparr>" 0 "Some (gps_init\<lparr>gp_pps_synced := True\<rparr>)"
        "\<lparr>tv_sec = 0, tv_usec = 0\<rparr>" 0] s sync
    by (simp add: a_def r_def)
qed

text \<open>
  A served exchange is in order and its span is true. When the request's instant and the clock
  read of the reply lie on the anchor of the last correction, reference, receive and transmit
  time are \<open>T_ref \<le> T2 \<le> T3\<close>, and \<open>T3 - T2\<close> is the time between the two instants plus the predicted
  send delay, to 2 us for spans up to 10 ms.
\<close>

theorem served_times_ordered:
  assumes "pa_micros a = to_u32 edge" "edge \<le> t2" "t2 \<le> built" "built \<le> edge + 2000000"
    "sv_use_pps_anchor s" "rp_anchor r = Some a" "rp_clock_us r = built" "0 \<le> t3_offset_us s"
    "rp_src_ref r = Some g" "get_last_sync_epoch g = pa_epoch a" "0 < pa_epoch a" "length request = 48"
  shows "\<exists>x2 x3. let rts = hook_to_ntp_timestamp True (Some a) tv c2 t2;
      b = fst (build_ntp_response request rts r s) in
    reply_time 16 b = micros_epoch_to_ntp_timestamp (pa_epoch a * 1000000) \<and>
    reply_time 32 b = micros_epoch_to_ntp_timestamp x2 \<and>
    reply_time 40 b = micros_epoch_to_ntp_timestamp x3 \<and>
    pa_epoch a * 1000000 \<le> x2 \<and> x2 \<le> x3 \<and>
    (built - t2 < 10000 \<longrightarrow> \<bar>(x3 - x2) - (built - t2 + t3_offset_us s)\<bar> \<le> 2)"
proof -
  define E where "E = pa_epoch a * 1000000"
  define d where "d = pa_drift_ppb a"
  define x2 where "x2 = E + undrift (t2 - edge) d"
  define x3 where "x3 = E + undrift (built - edge) d + t3_offset_us s"
  define rts where "rts = hook_to_ntp_timestamp True (Some a) tv c2 t2"
  obtain b s' where b: "build_ntp_response request rts r s = (b, s')" by fastforce
  have t: "get_ntp_timestamp (sv_use_pps_anchor s) (rp_anchor r) (t3_offset_us s) (rp_clock_us r)
      (rp_tv r) (rp_clock2_us r) = (micros_epoch_to_ntp_timestamp x3, built)"
    using assms(2-7) get_on_anchor [OF assms(1), of built] by (simp add: x3_def E_def d_def)
  note f = reply_fields [OF assms(12) b t]
  have r2: "rts = micros_epoch_to_ntp_timestamp x2"
    using assms(2-4) hook_on_anchor [OF assms(1), of t2] by (simp add: x2_def E_def d_def rts_def)
  have r1: "micros_epoch_to_ntp_timestamp E = \<lparr>ts_seconds = ref_seconds (rp_src_ref r), ts_fraction = 0\<rparr>"
    using assms(9-11) by (simp add: E_def timestamp_floor ref_seconds_def Let_def to_u32_def NTP_UNIX_OFFSET_def)
  have "reply_time 16 b = micros_epoch_to_ntp_timestamp E" "reply_time 32 b = micros_epoch_to_ntp_timestamp x2"
    "reply_time 40 b = micros_epoch_to_ntp_timestamp x3"
    using f by (simp_all add: reply_time_def decode_be32 r1 flip: r2)
  moreover have "undrift 0 d = 0" by (cases "- 100000 < d \<and> d < 100000") (simp_all add: undrift_def sdiv_pos)
  then have "E \<le> x2" using assms(2) undrift_mono [of 0 "t2 - edge" d] by (simp add: x2_def)
  moreover have "undrift (t2 - edge) d \<le> undrift (built - edge) d" using assms(2,3) by (intro undrift_mono) auto
  then have "x2 \<le> x3" using assms(8) by (simp add: x2_def x3_def)
  moreover have "\<bar>(x3 - x2) - (built - t2 + t3_offset_us s)\<bar> \<le> 2" if "built - t2 < 10000"
    using undrift_diff [of "built - edge" "t2 - edge" d] that assms(3) unfolding x2_def x3_def by linarith
  ultimately show ?thesis
    unfolding Let_def rts_def [symmetric] E_def [symmetric] b fst_conv by blast
qed

theorem served_times_ordered_witness:
  "let a = \<lparr>pa_epoch = 1800000000, pa_micros = to_u32 4294967000, pa_drift_ppb = 10000\<rparr>;
       r = \<lparr>rp_millis = 0, rp_src = None,
         rp_src_ref = Some (gps_init\<lparr>gp_pps_synced := True, gp_last_gps_epoch := 1800000000\<rparr>),
         rp_anchor = Some a, rp_clock_us = 4295467900, rp_tv = \<lparr>tv_sec = 0, tv_usec = 0\<rparr>,
         rp_clock2_us = 0, rp_fused = False\<rparr> in
   \<exists>x2 x3. 1800000000000000 \<le> x2 \<and> x2 \<le> x3 \<and> \<bar>(x3 - x2) - (900 + t3_offset_us (ntp_server_init 123))\<bar> \<le> 2"
  using served_times_ordered [of "\<lparr>pa_epoch = 1800000000, pa_micros = to_u32 4294967000, pa_drift_ppb = 10000\<rparr>"
      4294967000 4295467000 4295467900 "ntp_server_init 123"
      "\<lparr>rp_millis = 0, rp_src = None,
         rp_src_ref = Some (gps_init\<lparr>gp_pps_synced := True, gp_last_gps_epoch := 1800000000\<rparr>),
         rp_anchor = Some \<lparr>pa_epoch = 1800000000, pa_micros = to_u32 4294967000, pa_drift_ppb = 10000\<rparr>,
         rp_clock_us = 4295467900, rp_tv = \<lparr>tv_sec = 0, tv_usec = 0\<rparr>,
         rp_clock2_us = 0, rp_fused = False\<rparr>"
      "gps_init\<lparr>gp_pps_synced := True, gp_last_gps_epoch := 1800000000\<rparr>" "replicate 48 0"
      "\<lparr>tv_sec = 0, tv_usec = 0\<rparr>" 0]
  by (auto simp: Let_def ntp_server_init_def t3_offset_us_def send_estimator_init_def
      W5500_TX_STAMP_EARLY_US_def get_last_sync_epoch_def)

end
