(* ===== verification/RecvTask.thy ===== *)
theory RecvTask
  imports NtpResponse
begin

text \<open>
  The serving task: one iteration of \<open>NTPServer::recv_task_\<close> of
  \<open>components/ntp_server/ntp_server.cpp\<close>, from the return of \<open>recvfrom\<close> to the last diagnostics
  field. What it reads from outside (the datagram, clocks, the time source, lwIP's ARP cache, the
  driver's SEND stamps) is one record of inputs in the order the code takes them; the hook ring is
  read while the hook writes nothing (\<open>HookRing\<close> treats the interleavings).
\<close>

subsection \<open>Inputs and outcomes\<close>

record clock_reads =
  ck_anchor :: "pps_anchor option"
  ck_clock_us :: int
  ck_tv :: timeval
  ck_clock2_us :: int

record recv_reads =
  rv_received :: int
  rv_buffer :: "u8 list"
  rv_ip :: u32
  rv_port :: u16
  rv_at_return :: clock_reads
  rv_lookup_now_us :: int
  rv_at_hook :: clock_reads
  rv_latency_now_us :: int
  rv_check_ms :: u32
  rv_check_src :: "gps_pps option"
  rv_diag_now_us :: int
  rv_netif :: "netif option"
  rv_arp_lookup :: "nat \<Rightarrow> bool"
  rv_arp_now :: "nat \<Rightarrow> int"
  rv_lock_start_us :: int
  rv_lock_end_us :: int
  rv_reply :: reply_reads
  rv_before :: send_stamp
  rv_t0 :: int
  rv_t_after :: int
  rv_after :: send_stamp

datatype recv_outcome = Retry | Dropped | Refused refuse_reason | Served "u8 list"

definition ARP_WAIT_MAX_US :: int where "ARP_WAIT_MAX_US = 20000"

subsection \<open>Receive timestamp\<close>

definition hook_answer :: "recv_reads \<Rightarrow> ntp_server \<Rightarrow> hook_info option" where
  "hook_answer v s = hr_lookup (take 8 (drop 40 (rv_buffer v))) (rv_ip v) (rv_port v)
     (rv_lookup_now_us v) (sv_hook_ring s)"

definition receive_time :: "recv_reads \<Rightarrow> hook_info option \<Rightarrow> ntp_server \<Rightarrow> ntp_timestamp" where
  "receive_time v hook s = (case hook of
     None \<Rightarrow> (let c = rv_at_return v in
       fst (get_ntp_timestamp (sv_use_pps_anchor s) (ck_anchor c) 0 (ck_clock_us c) (ck_tv c) (ck_clock2_us c)))
   | Some h \<Rightarrow> (let c = rv_at_hook v in
       hook_to_ntp_timestamp (sv_use_pps_anchor s) (ck_anchor c) (ck_tv c) (ck_clock2_us c) (hi_t h)))"

definition note_latency :: "recv_reads \<Rightarrow> hook_info option \<Rightarrow> ntp_server \<Rightarrow> ntp_server \<times> int" where
  "note_latency v hook s = (case hook of
     None \<Rightarrow> (s, - 1)
   | Some h \<Rightarrow> (let hook_latency_us = to_i32 (rv_latency_now_us v - hi_t h) in
       (s\<lparr>sv_hook_latency_win := window_add hook_latency_us (sv_hook_latency_win s)\<rparr>, hook_latency_us)))"

definition flag_if :: "bool \<Rightarrow> u16 \<Rightarrow> diag_record \<Rightarrow> diag_record" where
  "flag_if c f d = (if c then d\<lparr>dg_flags := dg_flags d OR f\<rparr> else d)"

definition new_diag :: "recv_reads \<Rightarrow> hook_info option \<Rightarrow> int \<Rightarrow> ntp_server \<Rightarrow> diag_record" where
  "new_diag v hook hook_latency_us s =
     (let d = diag_record_zero\<lparr>
         dg_t2_us := (case hook of Some h \<Rightarrow> hi_t h | None \<Rightarrow> rv_diag_now_us v),
         dg_client_tx := take 8 (drop 40 (rv_buffer v)),
         dg_flags := (if hook \<noteq> None then DIAG_HOOK_HIT else 0)\<rparr>;
       d = flag_if (case hook of Some h \<Rightarrow> hi_t2_from_edge h | None \<Rightarrow> False) DIAG_INT_EDGE_T2 d;
       d = flag_if (case hook of Some h \<Rightarrow> hi_t2_from_frame_start h | None \<Rightarrow> False) DIAG_T2_FRAME_START d;
       d = flag_if (case hook of Some h \<Rightarrow> hi_t2_chip_latency h | None \<Rightarrow> False) DIAG_CHIP_LATENCY_T2 d in
      d\<lparr>dg_int_lead_us := (case hook of Some h \<Rightarrow> hi_int_lead_us h | None \<Rightarrow> - 1),
        dg_rx_gap_us := (case hook of Some h \<Rightarrow> hi_rx_gap_us h | None \<Rightarrow> - 1),
        dg_hook_latency_us := hook_latency_us,
        dg_rx_rsr := (case hook of Some h \<Rightarrow> hi_rx_rsr h | None \<Rightarrow> - 1),
        dg_frame_len := (case hook of Some h \<Rightarrow> hi_frame_len h | None \<Rightarrow> - 1),
        dg_send_us := - 1, dg_sendto_us := - 1, dg_lock_wait_us := - 1,
        dg_estimate_us := estimate_us (sv_send_estimator s), dg_arp_wait_us := - 1,
        dg_refuse_reason := REFUSE_NONE, dg_send_class := None, dg_tx_write_start_us := - 1,
        dg_tx_write_end_us := - 1, dg_patched := False, dg_patch_to_send_us := - 1,
        dg_patch_pred_us := - 1, dg_t3_calc_to_t0_us := - 1, dg_sendok_interval_us := - 1\<rparr>)"

subsection \<open>Admission\<close>

definition admission :: "hook_info option \<Rightarrow> ntp_server \<Rightarrow> refuse_reason" where
  "admission hook s =
     (if sv_hooked s \<and> hook = None then REFUSE_HOOK_MISS
      else case hook of None \<Rightarrow> REFUSE_NONE
      | Some h \<Rightarrow>
         (let queued = queued_behind_bytes (hi_rx_rsr h) (hi_frame_len h);
              verdict = rx_admission (hi_capture_armed h) (hi_edge_usable h) (hi_lead_us h)
                (sv_strict_rx_admission s) (sv_short_wait_effective s) queued (hi_rx_gap_us h) in
          case verdict of OLD_EDGE \<Rightarrow> REFUSE_OLD_EDGE | NO_EDGE \<Rightarrow> REFUSE_NO_EDGE
          | ACCEPT \<Rightarrow> REFUSE_NONE))"

text \<open>\<open>diag\<close> is present when diagnostics were on as the iteration began.\<close>

definition store_diag :: "diag_record option \<Rightarrow> ntp_server \<Rightarrow> ntp_server" where
  "store_diag diag s = (case diag of None \<Rightarrow> s | Some d \<Rightarrow> diag_record_op d s)"

definition refuse :: "refuse_reason \<Rightarrow> diag_record option \<Rightarrow> ntp_server \<Rightarrow> ntp_server" where
  "refuse reason diag s =
     store_diag (map_option (\<lambda>d.
         (flag_if (reason = REFUSE_OLD_EDGE \<or> reason = REFUSE_NO_EDGE) DIAG_RX_STALLED
           (flag_if True DIAG_REFUSED d))\<lparr>dg_refuse_reason := reason\<rparr>) diag)
       (s\<lparr>sv_refused := sv_refused s + 1\<rparr>)"

subsection \<open>ARP\<close>

definition arp_hop :: "recv_reads \<Rightarrow> ntp_server \<Rightarrow> u32" where
  "arp_hop v s = (if sv_hooked s then (case rv_netif v of None \<Rightarrow> 0
     | Some nif \<Rightarrow> next_hop_ipv4 (rv_ip v) (if_ip nif) (if_netmask nif) (if_gateway nif)) else 0)"

text \<open>
  The result of the wait when there is a hop to resolve. The fuel is \<open>ARP_WAIT_MAX_US\<close>: every
  sleep of 1 ms advances the clock by at least 1 us.
\<close>

definition arp_step :: "recv_reads \<Rightarrow> ntp_server \<Rightarrow> (arp_wait_result option) option" where
  "arp_step v s =
     (if arp_hop v s = 0 then Some None
      else map_option (\<lambda>(r, _, _). Some r)
        (wait_for_arp (nat ARP_WAIT_MAX_US) (rv_arp_lookup v) (rv_arp_now v) ARP_WAIT_MAX_US))"

definition refuse_arp :: "arp_wait_result \<Rightarrow> diag_record option \<Rightarrow> ntp_server \<Rightarrow> ntp_server" where
  "refuse_arp res diag s =
     store_diag (map_option (\<lambda>d. (flag_if True (DIAG_REFUSED OR DIAG_ARP_MISS) d)
           \<lparr>dg_arp_wait_us := aw_waited_us res, dg_refuse_reason := REFUSE_ARP_UNRESOLVED\<rparr>) diag)
       (s\<lparr>sv_refused := sv_refused s + 1\<rparr>)"

subsection \<open>Learning from the SEND\<close>

record send_lesson =
  sl_actual_us :: int
  sl_learned :: learn_result
  sl_not_ntp :: bool
  sl_patch_pred_us :: int
  sl_sendok_interval_us :: int

definition no_lesson :: send_lesson where
  "no_lesson = \<lparr>sl_actual_us = - 1, sl_learned = IGNORED, sl_not_ntp = False, sl_patch_pred_us = - 1,
     sl_sendok_interval_us = - 1\<rparr>"

definition learn_own_send :: "int \<Rightarrow> send_stamp \<Rightarrow> ntp_server \<Rightarrow> ntp_server \<times> send_lesson" where
  "learn_own_send t0 after s =
     (let actual_us = i32 (ss_send_cmd_us after - to_u32 t0);
          s = (if actual_us > 0 \<and> actual_us < US_MAX
               then s\<lparr>sv_t3_error_win := window_add (actual_us - estimate_us (sv_send_estimator s))
                  (sv_t3_error_win s)\<rparr> else s);
          (est, learned) = learn (sv_send_estimator s) actual_us t0;
          s = s\<lparr>sv_send_estimator := est\<rparr>;
          l = no_lesson\<lparr>sl_actual_us := actual_us, sl_learned := learned,
            sl_sendok_interval_us := (if ss_sendok_seq after = ss_seq after
              then i32 (ss_sendok_us after - ss_send_cmd_us after) else - 1)\<rparr> in
      if ss_patched after \<and> ss_patch_us after \<noteq> 0 then
        let patch_to_send_us = i32 (ss_send_cmd_us after - ss_patch_us after);
            l = l\<lparr>sl_patch_pred_us := pd_estimate_us (sv_patch_delay s)\<rparr> in
        (s\<lparr>sv_patch_delay := pd_learn patch_to_send_us (sv_patch_delay s)\<rparr>, l)
      else (s, l))"

definition learn_from_send ::
  "send_stamp \<Rightarrow> int \<Rightarrow> int \<Rightarrow> send_stamp \<Rightarrow> ntp_server \<Rightarrow> ntp_server \<times> send_lesson" where
  "learn_from_send before t0 t_after after s =
     (if ss_seq after \<noteq> ss_seq before then
        (if ss_frame_class after = FC_NTP then learn_own_send t0 after s
         else (s, no_lesson\<lparr>sl_not_ntp := True\<rparr>))
      else (s\<lparr>sv_send_estimator := learn_fallback (sv_send_estimator s) (to_i32 (t_after - t0))\<rparr>, no_lesson))"

definition finish_diag ::
  "send_stamp \<Rightarrow> int \<Rightarrow> int \<Rightarrow> send_stamp \<Rightarrow> send_lesson \<Rightarrow> diag_record \<Rightarrow> diag_record" where
  "finish_diag before t0 t_after after l d =
     (let dur = to_i32 (t_after - t0);
          sent = (ss_seq after \<noteq> ss_seq before);
          own = (sent \<and> ss_frame_class after = FC_NTP);
          d = d\<lparr>dg_send_us := sl_actual_us l, dg_sendto_us := dur,
            dg_sendok_interval_us := sl_sendok_interval_us l,
            dg_send_class := (if sent then Some (ss_frame_class after) else None)\<rparr>;
          d = (if own \<and> ss_txbuf_start_us after \<noteq> 0 \<and> ss_txbuf_end_us after \<noteq> 0
               then d\<lparr>dg_tx_write_start_us := i32 (ss_txbuf_start_us after - to_u32 t0),
                      dg_tx_write_end_us := i32 (ss_txbuf_end_us after - to_u32 t0)\<rparr> else d);
          d = (if own \<and> ss_patched after
               then d\<lparr>dg_patched := True,
                 dg_patch_to_send_us := (if ss_patch_us after \<noteq> 0
                   then i32 (ss_send_cmd_us after - ss_patch_us after) else - 1),
                 dg_patch_pred_us := sl_patch_pred_us l\<rparr> else d);
          d = flag_if (sl_not_ntp l) DIAG_SEND_NOT_NTP d;
          d = flag_if (sl_actual_us l \<ge> US_MAX \<or> dur \<ge> US_MAX) DIAG_SEND_LONG d;
          d = flag_if (sl_learned l = RESEEDED) DIAG_RESEEDED d in
      flag_if (sl_learned l = IGNORED \<and> \<not> sent) DIAG_FALLBACK d)"

subsection \<open>One iteration\<close>

text \<open>From the resolved next hop on: build, send, learn, record.\<close>

definition serve ::
  "recv_reads \<Rightarrow> ntp_timestamp \<Rightarrow> diag_record option \<Rightarrow> ntp_server \<Rightarrow> recv_outcome \<times> ntp_server" where
  "serve v receive_ts diag s =
     (let (response, s) = build_ntp_response (rv_buffer v) receive_ts (rv_reply v) s;
          gap = to_i32 (rv_t0 v - sv_last_t3_clock_read_us s);
          (s, l) = learn_from_send (rv_before v) (rv_t0 v) (rv_t_after v) (rv_after v) s;
          diag = map_option (\<lambda>d. finish_diag (rv_before v) (rv_t0 v) (rv_t_after v) (rv_after v) l
            (d\<lparr>dg_lock_wait_us := to_i32 (rv_lock_end_us v - rv_lock_start_us v), dg_t3_calc_to_t0_us := gap\<rparr>)) diag in
      (Served response, store_diag diag s))"

definition serve_admitted ::
  "recv_reads \<Rightarrow> ntp_timestamp \<Rightarrow> diag_record option \<Rightarrow> ntp_server \<Rightarrow> (recv_outcome \<times> ntp_server) option" where
  "serve_admitted v receive_ts diag s =
     (let s = s\<lparr>sv_arp := note_arp_client (rv_ip v) (sv_arp s)\<rparr> in
      case arp_step v s of None \<Rightarrow> None
      | Some None \<Rightarrow> Some (serve v receive_ts (map_option (\<lambda>d. d\<lparr>dg_arp_wait_us := - 1\<rparr>) diag) s)
      | Some (Some res) \<Rightarrow>
         (let s = (if aw_missed res then s\<lparr>sv_arp_waits := sv_arp_waits s + 1\<rparr> else s) in
          if \<not> aw_resolved res then Some (Refused REFUSE_ARP_UNRESOLVED, refuse_arp res diag s)
          else Some (serve v receive_ts (map_option (\<lambda>d. (flag_if (aw_missed res) DIAG_ARP_MISS d)
              \<lparr>dg_arp_wait_us := aw_waited_us res\<rparr>) diag) s)))"

definition recv_iteration :: "recv_reads \<Rightarrow> ntp_server \<Rightarrow> (recv_outcome \<times> ntp_server) option" where
  "recv_iteration v s =
     (if rv_received v < 0 then Some (Retry, s)
      else if rv_received v < int NTP_PACKET_SIZE then Some (Dropped, s)
      else
        let hook = hook_answer v s;
            receive_ts = receive_time v hook s;
            (s, hook_latency_us) = note_latency v hook s in
        if \<not> is_time_synchronized (rv_check_ms v) (rv_check_src v) then Some (Dropped, s)
        else
          let diag = (if sv_diagnostics s then Some (new_diag v hook hook_latency_us s) else None);
              refuse_reason = admission hook s in
          if refuse_reason \<noteq> REFUSE_NONE then Some (Refused refuse_reason, refuse refuse_reason diag s)
          else serve_admitted v receive_ts diag s)"

subsection \<open>What each part leaves alone\<close>

text \<open>The part of the server no iteration of the task writes.\<close>

definition settings :: "ntp_server \<Rightarrow> (u16 \<times> int \<times> int \<times> bool \<times> bool \<times> hook_ring) \<times>
    (bool \<times> bool \<times> bool \<times> bool \<times> u32) \<times> (bool \<times> bool \<times> u16 \<times> bool \<times> u32)" where
  "settings s = ((sv_port s, sv_precision s, sv_precision_anchor s, sv_use_pps_anchor s, sv_hooked s,
      sv_hook_ring s),
    (sv_strict_rx_admission s, sv_int_edge_t2 s, sv_t2_frame_start s, sv_chip_latency s,
      sv_last_int_edge_seq_for_t2 s),
    (sv_diagnostics s, sv_short_int_wait_policy s, sv_last_int_level_readback s,
      sv_short_wait_effective s, sv_int_level_recheck_ms s))"

definition counters :: "ntp_server \<Rightarrow> u32 \<times> u32 \<times> arp_clients" where
  "counters s = (sv_refused s, sv_arp_waits s, sv_arp s)"

definition estimators :: "ntp_server \<Rightarrow> send_estimator \<times> patch_delay_estimator" where
  "estimators s = (sv_send_estimator s, sv_patch_delay s)"

lemmas parts = settings_def counters_def estimators_def

lemma diag_fields_parts:
  "settings (s\<lparr>sv_diag_ring := ring, sv_diag_next := n\<rparr>) = settings s"
  "counters (s\<lparr>sv_diag_ring := ring, sv_diag_next := n\<rparr>) = counters s"
  "estimators (s\<lparr>sv_diag_ring := ring, sv_diag_next := n\<rparr>) = estimators s"
  by (simp_all add: parts)

lemma store_diag_cases:
  obtains "store_diag diag s = s" | ring n where "store_diag diag s = s\<lparr>sv_diag_ring := ring, sv_diag_next := n\<rparr>"
proof (cases "diag = None \<or> sv_diag_ring s = None \<or> \<not> sv_diagnostics s")
  case True
  then have "store_diag diag s = s"
    by (cases diag; cases "sv_diag_ring s") (auto simp: store_diag_def diag_record_op_def)
  then show ?thesis by (rule that(1))
next
  case False
  then obtain d ring where "diag = Some d" "sv_diag_ring s = Some ring" "sv_diagnostics s" by auto
  then show ?thesis by (intro that(2)) (simp only: store_diag_def diag_record_op_def option.case if_True simp_thms if_False)
qed

lemma store_diag_parts [simp]:
  "settings (store_diag d s) = settings s" "counters (store_diag d s) = counters s"
  "estimators (store_diag d s) = estimators s"
proof -
  show "settings (store_diag d s) = settings s"
    by (cases d s rule: store_diag_cases) (simp_all only: diag_fields_parts)
  show "counters (store_diag d s) = counters s"
    by (cases d s rule: store_diag_cases) (simp_all only: diag_fields_parts)
  show "estimators (store_diag d s) = estimators s"
    by (cases d s rule: store_diag_cases) (simp_all only: diag_fields_parts)
qed

lemma note_latency_parts:
  "settings (fst (note_latency v hook s)) = settings s"
  "counters (fst (note_latency v hook s)) = counters s"
  "estimators (fst (note_latency v hook s)) = estimators s"
  by (simp_all add: note_latency_def Let_def parts split: option.split)

lemma admission_cong: "settings s' = settings s \<Longrightarrow> admission hook s' = admission hook s"
  by (cases hook) (simp_all add: admission_def settings_def)

lemma arp_step_cong: "settings s' = settings s \<Longrightarrow> arp_step v s' = arp_step v s"
  by (simp add: arp_step_def arp_hop_def settings_def)

lemma build_cong:
  assumes "settings s' = settings s" "estimators s' = estimators s"
  shows "fst (build_ntp_response q rts r s') = fst (build_ntp_response q rts r s)"
  using assms
  by (simp add: build_ntp_response_def t3_offset_us_def settings_def estimators_def Let_def
      split: prod.split)

lemma build_parts:
  "settings (snd (build_ntp_response q rts r s)) = settings s"
  "counters (snd (build_ntp_response q rts r s)) = counters s"
  "estimators (snd (build_ntp_response q rts r s)) = estimators s"
  by (simp_all add: build_ntp_response_def parts Let_def split: prod.split)

text \<open>The diagnostics ring is indexed in bounds and holds only complete records.\<close>

definition diag_safe :: "ntp_server \<Rightarrow> bool" where
  "diag_safe s \<longleftrightarrow> sv_diag_next s < DIAG_RING_SIZE \<and> (case sv_diag_ring s of None \<Rightarrow> True
     | Some ring \<Rightarrow> length ring = DIAG_RING_SIZE \<and> (\<forall>d \<in> set ring. even (ds_seq d)))"

lemma diag_safe_cong:
  "sv_diag_ring s' = sv_diag_ring s \<Longrightarrow> sv_diag_next s' = sv_diag_next s \<Longrightarrow> diag_safe s' = diag_safe s"
  by (simp add: diag_safe_def)

lemma diag_safe_record: "diag_safe s \<Longrightarrow> diag_safe (diag_record_op d s)"
proof (cases "sv_diagnostics s \<and> sv_diag_ring s \<noteq> None")
  case True
  assume s: "diag_safe s"
  then have "diag_ok s" using True by (auto simp: diag_safe_def diag_ok_def)
  then have "diag_ok (diag_record_op d s)" by (rule diag.push_ok) simp
  then show ?thesis by (auto simp: diag_safe_def diag_ok_def split: option.splits)
next
  case False
  then have "diag_record_op d s = s" by (auto simp: diag_record_op_def split: option.split)
  then show "diag_safe s \<Longrightarrow> ?thesis" by simp
qed

lemma diag_safe_store: "diag_safe s \<Longrightarrow> diag_safe (store_diag d s)"
  by (cases d) (simp_all add: store_diag_def diag_safe_record)

lemma diag_safe_keeps:
  "diag_safe (fst (note_latency v hook s)) = diag_safe s"
  "diag_safe (snd (build_ntp_response q rts r s)) = diag_safe s"
  "diag_safe (s\<lparr>sv_refused := k\<rparr>) = diag_safe s" "diag_safe (s\<lparr>sv_arp := a\<rparr>) = diag_safe s"
  "diag_safe (s\<lparr>sv_arp_waits := k\<rparr>) = diag_safe s"
proof -
  show "diag_safe (fst (note_latency v hook s)) = diag_safe s"
    by (rule diag_safe_cong) (simp_all add: note_latency_def Let_def split: option.split)
  show "diag_safe (snd (build_ntp_response q rts r s)) = diag_safe s"
    by (rule diag_safe_cong) (simp_all add: build_ntp_response_def Let_def split: prod.split)
qed (simp_all add: diag_safe_def)

text \<open>What the stamps around a send teach the estimators, as functions of the stamps alone.\<close>

definition taught :: "send_stamp \<Rightarrow> int \<Rightarrow> int \<Rightarrow> send_stamp \<Rightarrow> send_estimator \<Rightarrow> send_estimator" where
  "taught before t0 t_after after e =
     (if ss_seq after = ss_seq before then learn_fallback e (to_i32 (t_after - t0))
      else if ss_frame_class after = FC_NTP then fst (learn e (i32 (ss_send_cmd_us after - to_u32 t0)) t0)
      else e)"

definition taught_delay :: "send_stamp \<Rightarrow> send_stamp \<Rightarrow> patch_delay_estimator \<Rightarrow> patch_delay_estimator" where
  "taught_delay before after e =
     (if ss_seq after \<noteq> ss_seq before \<and> ss_frame_class after = FC_NTP \<and> ss_patched after \<and>
         ss_patch_us after \<noteq> 0
      then pd_learn (i32 (ss_send_cmd_us after - ss_patch_us after)) e else e)"

lemma learn_own_send_parts:
  "settings (fst (learn_own_send t0 after s)) = settings s"
  "counters (fst (learn_own_send t0 after s)) = counters s"
  "estimators (fst (learn_own_send t0 after s)) =
    (fst (learn (sv_send_estimator s) (i32 (ss_send_cmd_us after - to_u32 t0)) t0),
     if ss_patched after \<and> ss_patch_us after \<noteq> 0
     then pd_learn (i32 (ss_send_cmd_us after - ss_patch_us after)) (sv_patch_delay s) else sv_patch_delay s)"
  by (cases "learn (sv_send_estimator s) (i32 (ss_send_cmd_us after - to_u32 t0)) t0",
      simp add: learn_own_send_def Let_def parts)+

lemma learn_from_send_parts:
  "settings (fst (learn_from_send before t0 t_after after s)) = settings s"
  "counters (fst (learn_from_send before t0 t_after after s)) = counters s"
  "estimators (fst (learn_from_send before t0 t_after after s)) =
    (taught before t0 t_after after (sv_send_estimator s), taught_delay before after (sv_patch_delay s))"
  by (simp_all add: learn_from_send_def learn_own_send_parts taught_def taught_delay_def)
    (simp_all add: parts)

lemma diag_safe_learn: "diag_safe (fst (learn_from_send before t0 t_after after s)) = diag_safe s"
proof (rule diag_safe_cong)
  obtain e r where l: "learn (sv_send_estimator s) (i32 (ss_send_cmd_us after - to_u32 t0)) t0 = (e, r)"
    by fastforce
  show "sv_diag_ring (fst (learn_from_send before t0 t_after after s)) = sv_diag_ring s"
    "sv_diag_next (fst (learn_from_send before t0 t_after after s)) = sv_diag_next s"
    by (simp_all add: learn_from_send_def learn_own_send_def Let_def l)
qed

lemma serve_parts:
  assumes "serve v rts diag s = (o', s')"
  shows "o' = Served (fst (build_ntp_response (rv_buffer v) rts (rv_reply v) s)) \<and>
    settings s' = settings s \<and> counters s' = counters s \<and>
    estimators s' = (taught (rv_before v) (rv_t0 v) (rv_t_after v) (rv_after v) (sv_send_estimator s),
      taught_delay (rv_before v) (rv_after v) (sv_patch_delay s)) \<and>
    (diag_safe s \<longrightarrow> diag_safe s')"
proof -
  obtain b s1 where b: "build_ntp_response (rv_buffer v) rts (rv_reply v) s = (b, s1)" by fastforce
  obtain s2 l where l: "learn_from_send (rv_before v) (rv_t0 v) (rv_t_after v) (rv_after v) s1 = (s2, l)"
    by fastforce
  from assms obtain diag' where s': "o' = Served b" "s' = store_diag diag' s2"
    by (auto simp: serve_def b l)
  have "settings s1 = settings s" "counters s1 = counters s" "estimators s1 = estimators s"
    using build_parts [of "rv_buffer v" rts "rv_reply v" s] by (simp_all add: b)
  moreover have "settings s2 = settings s1" "counters s2 = counters s1"
    "estimators s2 = (taught (rv_before v) (rv_t0 v) (rv_t_after v) (rv_after v) (sv_send_estimator s1),
      taught_delay (rv_before v) (rv_after v) (sv_patch_delay s1))"
    using learn_from_send_parts [of "rv_before v" "rv_t0 v" "rv_t_after v" "rv_after v" s1] by (simp_all add: l)
  moreover have "diag_safe s1 = diag_safe s" "diag_safe s2 = diag_safe s1"
    using diag_safe_keeps(2) [of "rv_buffer v" rts "rv_reply v" s]
      diag_safe_learn [of "rv_before v" "rv_t0 v" "rv_t_after v" "rv_after v" s1] by (simp_all add: b l)
  ultimately show ?thesis unfolding s' store_diag_parts by (simp add: b estimators_def diag_safe_store)
qed

subsection \<open>What an iteration does\<close>

lemma refuse_parts:
  "settings (refuse reason diag s) = settings s" "estimators (refuse reason diag s) = estimators s"
  "counters (refuse reason diag s) = (sv_refused s + 1, sv_arp_waits s, sv_arp s)"
  "settings (refuse_arp res diag s) = settings s" "estimators (refuse_arp res diag s) = estimators s"
  "counters (refuse_arp res diag s) = (sv_refused s + 1, sv_arp_waits s, sv_arp s)"
  by (simp_all add: refuse_def refuse_arp_def) (simp_all add: parts)

lemma refuse_safe:
  "diag_safe s \<Longrightarrow> diag_safe (refuse reason diag s)" "diag_safe s \<Longrightarrow> diag_safe (refuse_arp res diag s)"
  by (simp_all add: refuse_def refuse_arp_def diag_safe_store diag_safe_keeps)

lemma update_parts:
  "settings (s\<lparr>sv_arp := a\<rparr>) = settings s" "estimators (s\<lparr>sv_arp := a\<rparr>) = estimators s"
  "settings (s\<lparr>sv_arp_waits := n\<rparr>) = settings s" "estimators (s\<lparr>sv_arp_waits := n\<rparr>) = estimators s"
  by (simp_all add: parts)

definition learned_estimators :: "recv_reads \<Rightarrow> ntp_server \<Rightarrow> send_estimator \<times> patch_delay_estimator" where
  "learned_estimators v s =
     (taught (rv_before v) (rv_t0 v) (rv_t_after v) (rv_after v) (sv_send_estimator s),
      taught_delay (rv_before v) (rv_after v) (sv_patch_delay s))"

text \<open>An admitted request is answered, or refused because its next hop does not resolve.\<close>

lemma serve_admitted_cases:
  assumes "serve_admitted v rts diag s = Some (o', s')"
  obtains "o' = Served (fst (build_ntp_response (rv_buffer v) rts (rv_reply v) s))"
      "settings s' = settings s" "sv_refused s' = sv_refused s"
      "sv_arp s' = note_arp_client (rv_ip v) (sv_arp s)" "estimators s' = learned_estimators v s"
      "diag_safe s \<longrightarrow> diag_safe s'"
      "arp_hop v s = 0 \<or> (\<exists>r q n. wait_for_arp 20000 (rv_arp_lookup v) (rv_arp_now v) 20000 = Some (r, q, n) \<and>
         aw_resolved r)"
  | "o' = Refused REFUSE_ARP_UNRESOLVED" "settings s' = settings s" "estimators s' = estimators s"
      "sv_refused s' = sv_refused s + 1" "sv_arp s' = note_arp_client (rv_ip v) (sv_arp s)"
      "diag_safe s \<longrightarrow> diag_safe s'"
      "arp_hop v s \<noteq> 0 \<and> (\<exists>r q n. wait_for_arp 20000 (rv_arp_lookup v) (rv_arp_now v) 20000 = Some (r, q, n) \<and>
         \<not> aw_resolved r)"
proof -
  define s1 where "s1 = s\<lparr>sv_arp := note_arp_client (rv_ip v) (sv_arp s)\<rparr>"
  have s1: "settings s1 = settings s" "estimators s1 = estimators s" "sv_refused s1 = sv_refused s"
    "sv_arp s1 = note_arp_client (rv_ip v) (sv_arp s)" "diag_safe s1 = diag_safe s"
    by (simp_all add: s1_def update_parts diag_safe_keeps)
  have step: "arp_step v s1 = arp_step v s" using s1(1) by (rule arp_step_cong)
  have served: "o' = Served (fst (build_ntp_response (rv_buffer v) rts (rv_reply v) s)) \<and>
      settings s' = settings s \<and> sv_refused s' = sv_refused s \<and>
      sv_arp s' = note_arp_client (rv_ip v) (sv_arp s) \<and> estimators s' = learned_estimators v s \<and>
      (diag_safe s \<longrightarrow> diag_safe s')"
    if "serve v rts d t = (o', s')" "settings t = settings s1" "estimators t = estimators s1"
      "sv_refused t = sv_refused s1" "sv_arp t = sv_arp s1" "diag_safe t = diag_safe s1" for d t
  proof -
    note p = serve_parts [OF that(1)]
    have "estimators t = estimators s" "settings t = settings s" using that s1 by simp_all
    with p that s1 build_cong [of t s] show ?thesis
      by (simp add: counters_def learned_estimators_def) (simp add: estimators_def)
  qed
  show ?thesis
  proof (cases "arp_hop v s = 0")
    case True
    then have "arp_step v s1 = Some None" unfolding step by (simp add: arp_step_def)
    with assms obtain d where "serve v rts d s1 = (o', s')"
      by (auto simp: serve_admitted_def Let_def simp flip: s1_def)
    from served [OF this] True that(1) show ?thesis by simp
  next
    case False
    then have st: "arp_step v s1 = map_option (\<lambda>(r, _, _). Some r)
        (wait_for_arp 20000 (rv_arp_lookup v) (rv_arp_now v) 20000)"
      unfolding step by (simp add: arp_step_def ARP_WAIT_MAX_US_def)
    moreover have "arp_step v s1 \<noteq> None"
      using assms unfolding serve_admitted_def Let_def s1_def [symmetric] by (cases "arp_step v s1") simp_all
    ultimately obtain r q n where w: "wait_for_arp 20000 (rv_arp_lookup v) (rv_arp_now v) 20000 = Some (r, q, n)"
      by auto
    with st have a: "arp_step v s1 = Some (Some r)" by simp
    define t where "t = (if aw_missed r then s1\<lparr>sv_arp_waits := sv_arp_waits s1 + 1\<rparr> else s1)"
    have t: "settings t = settings s1" "estimators t = estimators s1" "sv_refused t = sv_refused s1"
      "sv_arp t = sv_arp s1" "diag_safe t = diag_safe s1"
      by (simp_all add: t_def update_parts diag_safe_keeps)
    show ?thesis
    proof (cases "aw_resolved r")
      case True
      with assms a obtain d where "serve v rts d t = (o', s')"
        by (auto simp: serve_admitted_def Let_def simp flip: s1_def t_def)
      from served [OF this t] w True that(1) show ?thesis by auto
    next
      case False
      with assms a have "o' = Refused REFUSE_ARP_UNRESOLVED" "s' = refuse_arp r diag t"
        by (auto simp: serve_admitted_def Let_def simp flip: s1_def t_def)
      moreover have "counters (refuse_arp r diag t) = (sv_refused t + 1, sv_arp_waits t, sv_arp t)"
        by (rule refuse_parts)
      ultimately show ?thesis
        using that(2) w False \<open>arp_hop v s \<noteq> 0\<close> s1 t refuse_parts(4,5) [of r diag t] refuse_safe(2) [of t r diag]
        by (simp add: counters_def)
    qed
  qed
qed

lemma recv_iteration_cases:
  assumes "recv_iteration v s = Some (o', s')"
  obtains "o' = Retry" "rv_received v < 0" "s' = s"
  | "o' = Dropped" "0 \<le> rv_received v" "rv_received v < 48" "s' = s"
  | "o' = Dropped" "48 \<le> rv_received v" "\<not> is_time_synchronized (rv_check_ms v) (rv_check_src v)"
      "s' = fst (note_latency v (hook_answer v s) s)"
  | diag where "48 \<le> rv_received v" "is_time_synchronized (rv_check_ms v) (rv_check_src v)"
      "admission (hook_answer v s) s \<noteq> REFUSE_NONE" "o' = Refused (admission (hook_answer v s) s)"
      "s' = refuse (admission (hook_answer v s) s) diag (fst (note_latency v (hook_answer v s) s))"
  | diag where "48 \<le> rv_received v" "is_time_synchronized (rv_check_ms v) (rv_check_src v)"
      "admission (hook_answer v s) s = REFUSE_NONE"
      "serve_admitted v (receive_time v (hook_answer v s) s) diag
         (fst (note_latency v (hook_answer v s) s)) = Some (o', s')"
proof -
  obtain s1 lat where n: "note_latency v (hook_answer v s) s = (s1, lat)" by fastforce
  have a: "admission (hook_answer v s) s1 = admission (hook_answer v s) s"
    using note_latency_parts(1) [of v "hook_answer v s" s] by (intro admission_cong) (simp add: n)
  show ?thesis
    using assms that unfolding recv_iteration_def n Let_def NTP_PACKET_SIZE_def
    by (auto simp: a split: if_splits)
qed

lemma served_reply:
  assumes "recv_iteration v s = Some (Served b, s')"
  shows "b = fst (build_ntp_response (rv_buffer v) (receive_time v (hook_answer v s) s) (rv_reply v) s)"
proof (cases rule: recv_iteration_cases [OF assms])
  case (5 diag)
  let ?s = "fst (note_latency v (hook_answer v s) s)"
  have n: "settings ?s = settings s" "estimators ?s = estimators s" by (rule note_latency_parts)+
  from 5(4) show ?thesis by (cases rule: serve_admitted_cases) (simp_all add: build_cong [OF n])
qed simp_all

text \<open>
  C3: What a reply vouches for. When an iteration sends a reply, 48 bytes were received and the time
  source was synchronised, and the reply is the one built for this request and this receive time. If the
  hook has recorded the request, the receive time is the hook's and the record passes
  admission: in the strict regime its interrupt edge precedes the read by less than 200 us, or it has
  none because no edge was ever captured or, under the short interrupt wait, because it opened a fresh
  burst behind nothing; otherwise an edge precedes the read by less than 1 ms. If it has not, no hook is
  installed and the receive time is the one taken when \<open>recvfrom\<close> returned. And with the hook
  installed a next hop that there is to resolve was resolved before the reply was built; there is none
  without a network interface and for a client outside the subnet without a gateway.
\<close>

theorem served_only_verified:
  assumes "recv_iteration v s = Some (Served b, s')" "length (rv_buffer v) = 48"
  shows "48 \<le> rv_received v \<and> is_time_synchronized (rv_check_ms v) (rv_check_src v) \<and>
    b = fst (build_ntp_response (rv_buffer v) (receive_time v (hook_answer v s) s) (rv_reply v) s) \<and>
    (case hook_answer v s of
       Some h \<Rightarrow> reply_time 32 b = hook_to_ntp_timestamp (sv_use_pps_anchor s) (ck_anchor (rv_at_hook v))
           (ck_tv (rv_at_hook v)) (ck_clock2_us (rv_at_hook v)) (hi_t h) \<and>
         (if sv_strict_rx_admission s then
            (if hi_edge_usable h then hi_lead_us h < 200
             else \<not> hi_capture_armed h \<or> sv_short_wait_effective s \<and>
               queued_behind_bytes (hi_rx_rsr h) (hi_frame_len h) \<in> {0..<60} \<and> 800 \<le> hi_rx_gap_us h)
          else hi_edge_usable h \<longrightarrow> hi_lead_us h < 1000)
     | None \<Rightarrow> \<not> sv_hooked s \<and> reply_time 32 b = (let c = rv_at_return v in
         fst (get_ntp_timestamp (sv_use_pps_anchor s) (ck_anchor c) 0 (ck_clock_us c) (ck_tv c) (ck_clock2_us c)))) \<and>
    (\<forall>nif. sv_hooked s \<and> rv_netif v = Some nif \<and>
        next_hop_ipv4 (rv_ip v) (if_ip nif) (if_netmask nif) (if_gateway nif) \<noteq> 0 \<longrightarrow>
      (\<exists>r q n. wait_for_arp 20000 (rv_arp_lookup v) (rv_arp_now v) 20000 = Some (r, q, n) \<and> aw_resolved r))"
proof (cases rule: recv_iteration_cases [OF assms(1)])
  case (5 diag)
  let ?s = "fst (note_latency v (hook_answer v s) s)"
  let ?rts = "receive_time v (hook_answer v s) s"
  have n: "settings ?s = settings s" "estimators ?s = estimators s" by (rule note_latency_parts)+
  have hop: "arp_hop v ?s = arp_hop v s" using n(1) by (simp add: arp_hop_def settings_def)
  have b: "b = fst (build_ntp_response (rv_buffer v) ?rts (rv_reply v) s)" using assms(1) by (rule served_reply)
  from 5(4) have "arp_hop v s = 0 \<or> (\<exists>r q n. wait_for_arp 20000 (rv_arp_lookup v) (rv_arp_now v) 20000 =
      Some (r, q, n) \<and> aw_resolved r)"
    by (cases rule: serve_admitted_cases) (simp_all add: hop)
  then have arp: "\<exists>r q n. wait_for_arp 20000 (rv_arp_lookup v) (rv_arp_now v) 20000 = Some (r, q, n) \<and> aw_resolved r"
    if "sv_hooked s" "rv_netif v = Some nif"
      "next_hop_ipv4 (rv_ip v) (if_ip nif) (if_netmask nif) (if_gateway nif) \<noteq> 0" for nif
    using that by (simp add: arp_hop_def)
  obtain b' s2 where b2: "build_ntp_response (rv_buffer v) ?rts (rv_reply v) s = (b', s2)" by fastforce
  obtain t3 c where "get_ntp_timestamp (sv_use_pps_anchor s) (rp_anchor (rv_reply v)) (t3_offset_us s)
      (rp_clock_us (rv_reply v)) (rp_tv (rv_reply v)) (rp_clock2_us (rv_reply v)) = (t3, c)" by fastforce
  from reply_fields [OF assms(2) b2 this] have t2: "reply_time 32 b = ?rts"
    by (simp add: b b2 reply_time_def decode_be32)
  show ?thesis
  proof (cases "hook_answer v s")
    case None
    with 5(3) have "\<not> sv_hooked s" by (simp add: admission_def split: if_splits)
    with None 5 b t2 arp show ?thesis by (simp add: receive_time_def)
  next
    case (Some h)
    then have "rx_admission (hi_capture_armed h) (hi_edge_usable h) (hi_lead_us h) (sv_strict_rx_admission s)
        (sv_short_wait_effective s) (queued_behind_bytes (hi_rx_rsr h) (hi_frame_len h)) (hi_rx_gap_us h) = ACCEPT"
      using 5(3) by (simp add: admission_def Let_def split: rx_verdict.splits)
    then show ?thesis using Some 5 b t2 arp
      by (cases "sv_strict_rx_admission s")
        (auto simp: rx_admission_accept_strict rx_admission_accept_legacy receive_time_def Let_def split: if_splits)
  qed
qed simp_all

text \<open>The example: an installed hook, a recorded request, its next hop cached.\<close>

definition example_reads :: recv_reads where
  "example_reads = (let a = \<lparr>pa_epoch = 1800000000, pa_micros = 1000, pa_drift_ppb = 0\<rparr>;
      tv = \<lparr>tv_sec = 0, tv_usec = 0\<rparr>; g = gps_init\<lparr>gp_pps_synced := True, gp_last_gps_epoch := 1800000000\<rparr>;
      c = \<lparr>ck_anchor = Some a, ck_clock_us = 5000, ck_tv = tv, ck_clock2_us = 0\<rparr>;
      st = w5500_send_stamp w5500_init in
    \<lparr>rv_received = 48, rv_buffer = replicate 48 0x23, rv_ip = 5, rv_port = 6, rv_at_return = c,
     rv_lookup_now_us = 5000, rv_at_hook = c, rv_latency_now_us = 5010, rv_check_ms = 0,
     rv_check_src = Some g, rv_diag_now_us = 5020, rv_netif = Some \<lparr>if_ip = 7, if_netmask = 0, if_gateway = 0\<rparr>,
     rv_arp_lookup = (\<lambda>_. True), rv_arp_now = (\<lambda>k. int k), rv_lock_start_us = 0, rv_lock_end_us = 0,
     rv_reply = \<lparr>rp_millis = 0, rp_src = Some g, rp_src_ref = Some g, rp_anchor = Some a, rp_clock_us = 5100,
       rp_tv = tv, rp_clock2_us = 0, rp_fused = True\<rparr>,
     rv_before = st, rv_t0 = 5110, rv_t_after = 5400,
     rv_after = st\<lparr>ss_seq := 1, ss_frame_class := FC_NTP, ss_send_cmd_us := 5310\<rparr>\<rparr>)"

definition example_server :: ntp_server where
  "example_server = (ntp_server_init 123)\<lparr>sv_hooked := True,
     sv_hook_ring := hr_record (replicate 8 0x23) 5 6
       (hook_info_init\<lparr>hi_t := 4000, hi_edge_usable := True, hi_lead_us := 12, hi_capture_armed := True\<rparr>)
       hook_ring_init\<rparr>"

lemma example_answer:
  "hook_answer example_reads example_server =
     Some (hook_info_init\<lparr>hi_t := 4000, hi_edge_usable := True, hi_lead_us := 12, hi_capture_armed := True\<rparr>)"
  by code_simp

lemma serve_served: "\<exists>b s'. serve v rts diag s = (Served b, s')"
  by (auto simp: serve_def split: prod.split)

text \<open>Conversely, a verified request whose next hop is known is answered.\<close>

lemma recv_serves:
  assumes "48 \<le> rv_received v" "is_time_synchronized (rv_check_ms v) (rv_check_src v)"
    "admission (hook_answer v s) s = REFUSE_NONE" "arp_hop v s = 0 \<or> rv_arp_lookup v 0"
  shows "\<exists>b s'. recv_iteration v s = Some (Served b, s')"
proof -
  obtain s1 lat where n: "note_latency v (hook_answer v s) s = (s1, lat)" by fastforce
  have s1: "settings s1 = settings s" using note_latency_parts(1) [of v "hook_answer v s" s] by (simp add: n)
  have a: "admission (hook_answer v s) s1 = REFUSE_NONE" using admission_cong [OF s1] assms(3) by simp
  define s2 where "s2 = s1\<lparr>sv_arp := note_arp_client (rv_ip v) (sv_arp s1)\<rparr>"
  have "settings s2 = settings s" using s1 by (simp add: s2_def update_parts)
  then have "arp_step v s2 = arp_step v s" by (rule arp_step_cong)
  then have "arp_step v s2 \<in> {Some None, Some (Some \<lparr>aw_resolved = True, aw_missed = False, aw_waited_us = 0\<rparr>)}"
    using assms(4) by (auto simp: arp_step_def wait_for_arp_def)
  then have "\<exists>b s'. serve_admitted v rts diag s1 = Some (Served b, s')" for rts diag
    using serve_served by (auto simp: serve_admitted_def Let_def simp flip: s2_def)
  then show ?thesis
    using a assms(1,2) by (simp add: recv_iteration_def n Let_def NTP_PACKET_SIZE_def)
qed

lemma example_served: "\<exists>b s'. recv_iteration example_reads example_server = Some (Served b, s')"
proof (rule recv_serves)
  show "admission (hook_answer example_reads example_server) example_server = REFUSE_NONE"
    unfolding example_answer
    by (simp add: admission_def example_server_def ntp_server_init_def rx_admission_def rx_consts
        hook_info_init_def)
  show "is_time_synchronized (rv_check_ms example_reads) (rv_check_src example_reads)"
    by (simp add: example_reads_def Let_def is_time_synchronized_def is_synchronized_def gps_init_def
        PPS_TIMEOUT_MS_def)
qed (simp_all add: example_reads_def Let_def)

theorem served_only_verified_witness:
  "\<exists>b s'. recv_iteration example_reads example_server = Some (Served b, s') \<and>
     is_time_synchronized (rv_check_ms example_reads) (rv_check_src example_reads)"
proof -
  obtain b s' where b: "recv_iteration example_reads example_server = Some (Served b, s')"
    using example_served by blast
  have "length (rv_buffer example_reads) = 48" by (simp add: example_reads_def Let_def)
  with served_only_verified [OF b] b show ?thesis by blast
qed

text \<open>
  C20: Every iteration ends in exactly one of the four ways, and the refusal counter tells the
  truth. If the clock advances on every sleep of the ARP wait, by less than half an hour, the
  iteration returns: it retries when the socket failed, drops a runt or a request met while
  unsynchronised, refuses for the first failing check, or answers. The counter rises by one
  exactly when it refuses, and no setting of the server changes.
\<close>

theorem iteration_outcome:
  assumes "clock_advances d (rv_arp_now v)" "d \<le> 2147463648"
  shows "\<exists>o' s'. recv_iteration v s = Some (o', s') \<and>
    (case o' of Retry \<Rightarrow> rv_received v < 0
     | Dropped \<Rightarrow> 0 \<le> rv_received v \<and>
         (rv_received v < 48 \<or> \<not> is_time_synchronized (rv_check_ms v) (rv_check_src v))
     | Refused r \<Rightarrow> r = (if admission (hook_answer v s) s \<noteq> REFUSE_NONE
           then admission (hook_answer v s) s else REFUSE_ARP_UNRESOLVED)
     | Served b \<Rightarrow> admission (hook_answer v s) s = REFUSE_NONE) \<and>
    sv_refused s' = sv_refused s + (case o' of Refused _ \<Rightarrow> 1 | _ \<Rightarrow> 0) \<and> settings s' = settings s"
proof -
  have "\<exists>r q n. wait_for_arp (nat ARP_WAIT_MAX_US) (rv_arp_lookup v) (rv_arp_now v) ARP_WAIT_MAX_US = Some (r, q, n)"
    using wait_for_arp_terminates_aux [OF assms(1), of 20000 20000 "rv_arp_lookup v"] assms(2)
    by (auto simp: ARP_WAIT_MAX_US_def)
  then have arp: "\<exists>y. arp_step v t = Some y" for t by (auto simp: arp_step_def)
  have "serve_admitted v rts diag t \<noteq> None" for rts diag t
    using arp [of "t\<lparr>sv_arp := note_arp_client (rv_ip v) (sv_arp t)\<rparr>"]
    by (auto simp: serve_admitted_def Let_def split: option.split)
  then have "recv_iteration v s \<noteq> None"
    by (simp add: recv_iteration_def Let_def split: prod.split)
  then obtain o' s' where i: "recv_iteration v s = Some (o', s')" by auto
  let ?s = "fst (note_latency v (hook_answer v s) s)"
  have n: "settings ?s = settings s" "sv_refused ?s = sv_refused s"
    using note_latency_parts [of v "hook_answer v s" s] by (simp_all add: counters_def)
  have r: "sv_refused (refuse x d t) = sv_refused t + 1" for x d t
    using refuse_parts(3) [of x d t] by (simp add: counters_def)
  from i have "(case o' of Retry \<Rightarrow> rv_received v < 0
     | Dropped \<Rightarrow> 0 \<le> rv_received v \<and>
         (rv_received v < 48 \<or> \<not> is_time_synchronized (rv_check_ms v) (rv_check_src v))
     | Refused r \<Rightarrow> r = (if admission (hook_answer v s) s \<noteq> REFUSE_NONE
           then admission (hook_answer v s) s else REFUSE_ARP_UNRESOLVED)
     | Served b \<Rightarrow> admission (hook_answer v s) s = REFUSE_NONE) \<and>
    sv_refused s' = sv_refused s + (case o' of Refused _ \<Rightarrow> 1 | _ \<Rightarrow> 0) \<and> settings s' = settings s"
  proof (cases rule: recv_iteration_cases)
    case (5 diag)
    from 5(4) show ?thesis by (cases rule: serve_admitted_cases) (use 5(3) n in simp_all)
  qed (simp_all add: n r refuse_parts)
  with i show ?thesis by auto
qed

theorem iteration_outcome_witness:
  "\<exists>o' s'. recv_iteration example_reads example_server = Some (o', s') \<and>
     settings s' = settings example_server"
proof -
  have "clock_advances 1 (rv_arp_now example_reads)"
    by (simp add: clock_advances_def example_reads_def Let_def)
  from iteration_outcome [OF this] show ?thesis by fastforce
qed

text \<open>
  C12: What an iteration teaches the predictions. One that does not answer, or after which the driver's
  last SEND was a frame of another class than NTP (no port 123 in it), leaves both estimators as they
  were. After a reply and a SEND of class NTP the send estimate learns the time from the call
  to the SEND command, across the wrap of the 32-bit stamp, and the patch delay the time from
  the patch to the SEND exactly when the frame was patched (and the patch's stamp is not 0); without any SEND the send estimate learns the
  duration of \<open>sendto\<close> by the fallback rule. The class is all the task looks at: the SEND of another
  frame with port 123 would be learned as if it were the reply's.
\<close>

theorem iteration_teaches:
  assumes "recv_iteration v s = Some (o', s')"
  shows "((\<forall>b. o' \<noteq> Served b) \<or> ss_seq (rv_after v) \<noteq> ss_seq (rv_before v) \<and> ss_frame_class (rv_after v) \<noteq> FC_NTP
      \<longrightarrow> sv_send_estimator s' = sv_send_estimator s \<and> sv_patch_delay s' = sv_patch_delay s) \<and>
    (\<forall>b cmd. o' = Served b \<and> ss_seq (rv_after v) \<noteq> ss_seq (rv_before v) \<and>
        ss_frame_class (rv_after v) = FC_NTP \<and> ss_send_cmd_us (rv_after v) = to_u32 cmd \<and>
        \<bar>cmd - rv_t0 v\<bar> < 2147483648 \<longrightarrow>
      sv_send_estimator s' = fst (learn (sv_send_estimator s) (cmd - rv_t0 v) (rv_t0 v)) \<and>
      sv_patch_delay s' = (if ss_patched (rv_after v) \<and> ss_patch_us (rv_after v) \<noteq> 0
        then pd_learn (i32 (to_u32 cmd - ss_patch_us (rv_after v))) (sv_patch_delay s) else sv_patch_delay s)) \<and>
    (\<forall>b. o' = Served b \<and> ss_seq (rv_after v) = ss_seq (rv_before v) \<longrightarrow>
      sv_send_estimator s' = learn_fallback (sv_send_estimator s) (to_i32 (rv_t_after v - rv_t0 v)) \<and>
      sv_patch_delay s' = sv_patch_delay s)"
proof -
  let ?s = "fst (note_latency v (hook_answer v s) s)"
  have n: "estimators ?s = estimators s" by (rule note_latency_parts)
  have l: "learned_estimators v ?s = learned_estimators v s"
    using n by (simp add: learned_estimators_def estimators_def)
  have d: "i32 (to_u32 cmd - to_u32 (rv_t0 v)) = cmd - rv_t0 v" if "\<bar>cmd - rv_t0 v\<bar> < 2147483648" for cmd
    using that by (intro clock_diff_exact) auto
  from assms have "(\<exists>b. o' = Served b) \<and> estimators s' = learned_estimators v s \<or>
      (\<forall>b. o' \<noteq> Served b) \<and> estimators s' = estimators s"
  proof (cases rule: recv_iteration_cases)
    case (5 diag)
    from 5(4) show ?thesis by (cases rule: serve_admitted_cases) (simp_all add: n l)
  qed (simp_all add: n refuse_parts)
  then show ?thesis
    by (auto simp: learned_estimators_def estimators_def taught_def taught_delay_def d)
qed

theorem iteration_teaches_witness:
  "\<exists>b s'. recv_iteration example_reads example_server = Some (Served b, s') \<and>
     sv_send_estimator s' = fst (learn (sv_send_estimator example_server) 200 5110)"
proof -
  obtain b s' where b: "recv_iteration example_reads example_server = Some (Served b, s')"
    using example_served by blast
  have r: "ss_seq (rv_after example_reads) = 1" "ss_seq (rv_before example_reads) = 0" "rv_t0 example_reads = 5110"
    "ss_frame_class (rv_after example_reads) = FC_NTP" "ss_send_cmd_us (rv_after example_reads) = to_u32 5310"
    by (simp_all add: example_reads_def Let_def w5500_send_stamp_def w5500_init_def to_u32_def)
  from iteration_teaches [OF b]
  have "\<forall>b' cmd. Served b = Served b' \<and> ss_seq (rv_after example_reads) \<noteq> ss_seq (rv_before example_reads) \<and>
        ss_frame_class (rv_after example_reads) = FC_NTP \<and> ss_send_cmd_us (rv_after example_reads) = to_u32 cmd \<and>
        \<bar>cmd - rv_t0 example_reads\<bar> < 2147483648 \<longrightarrow>
      sv_send_estimator s' = fst (learn (sv_send_estimator example_server) (cmd - rv_t0 example_reads) (rv_t0 example_reads))"
    by blast
  from spec [OF spec [OF this, of b], of 5310] r b show ?thesis by simp
qed

end
