(* ===== verification/IntLevel.thy ===== *)
theory IntLevel
  imports Deadman RecvTask
begin

text \<open>
  The short interrupt wait of \<open>components/ntp_server/ntp_server.cpp\<close>: \<open>set_short_int_wait\<close>, the
  deferred enable and the guard in \<open>loop\<close> that re-reads the chip's INTLEVEL register. \<open>ms k\<close> is what the k-th call of \<open>millis\<close> in the text of \<open>loop\<close> returns. Any SPI
  transfer may fail; the driver may have rewritten the register since the last pass.
\<close>

definition W5500_INT_LEVEL_SHORT :: u16 where "W5500_INT_LEVEL_SHORT = 0x0FFF"
definition W5500_INT_LEVEL_DEFAULT :: u16 where "W5500_INT_LEVEL_DEFAULT = 0xFFFF"
definition SHORT_INT_WAIT_BOOT_DELAY_MS :: u32 where "SHORT_INT_WAIT_BOOT_DELAY_MS = 60000"
definition INT_LEVEL_RECHECK_MS :: u32 where "INT_LEVEL_RECHECK_MS = 60000"

lemmas level_consts = W5500_INT_LEVEL_SHORT_def W5500_INT_LEVEL_DEFAULT_def
  SHORT_INT_WAIT_BOOT_DELAY_MS_def INT_LEVEL_RECHECK_MS_def

text \<open>Write a level and read it back; nothing is read when the write failed.\<close>

definition write_and_read :: "spi_env \<Rightarrow> u16 \<Rightarrow> w5500 \<Rightarrow> w5500 \<times> u16 option" where
  "write_and_read env target w =
     (let (w, write_ok) = w5500_write_int_level env target w in
      if write_ok then w5500_read_int_level env w else (w, None))"

definition readback_or_0 :: "u16 option \<Rightarrow> u16" where
  "readback_or_0 rb = (case rb of None \<Rightarrow> 0 | Some v \<Rightarrow> v)"

definition set_short_int_wait :: "spi_env \<Rightarrow> u32 \<Rightarrow> bool \<Rightarrow> ntp_server \<times> w5500 \<Rightarrow> ntp_server \<times> w5500" where
  "set_short_int_wait env now_ms enable x = (case x of (s, w) \<Rightarrow>
     let s = s\<lparr>sv_short_int_wait_policy := enable\<rparr>;
         driver_default = (if w5500_driver_int_level w \<noteq> 0 then w5500_driver_int_level w
           else W5500_INT_LEVEL_DEFAULT);
         target = (if enable then W5500_INT_LEVEL_SHORT else driver_default);
         (w, readback) = write_and_read env target w;
         s = s\<lparr>sv_last_int_level_readback := readback_or_0 readback,
               sv_short_wait_effective := (enable \<and> readback = Some target)\<rparr> in
     (if sv_short_wait_effective s then s\<lparr>sv_int_level_recheck_ms := now_ms + INT_LEVEL_RECHECK_MS\<rparr> else s, w))"

definition boot_enable_due :: "(nat \<Rightarrow> u32) \<Rightarrow> ntp_server \<times> w5500 \<Rightarrow> bool" where
  "boot_enable_due ms x \<longleftrightarrow> (case x of (s, w) \<Rightarrow>
     sv_short_int_wait_policy s \<and> \<not> sv_short_wait_effective s \<and> ms 0 \<ge> SHORT_INT_WAIT_BOOT_DELAY_MS \<and>
     w5500_driver_int_level w \<noteq> 0 \<and> i32 (ms 1 - sv_int_level_recheck_ms s) \<ge> 0)"

definition loop_boot_enable :: "spi_env \<Rightarrow> (nat \<Rightarrow> u32) \<Rightarrow> ntp_server \<times> w5500 \<Rightarrow> ntp_server \<times> w5500" where
  "loop_boot_enable env ms x = (case x of (s, w) \<Rightarrow>
     if boot_enable_due ms (s, w)
     then set_short_int_wait env (ms 3) True
       (s\<lparr>sv_int_level_recheck_ms := ms 2 + INT_LEVEL_RECHECK_MS\<rparr>, w)
     else (s, w))"

definition recheck_due :: "(nat \<Rightarrow> u32) \<Rightarrow> ntp_server \<Rightarrow> bool" where
  "recheck_due ms s \<longleftrightarrow> sv_short_wait_effective s \<and> i32 (ms 4 - sv_int_level_recheck_ms s) \<ge> 0"

definition loop_recheck :: "spi_env \<Rightarrow> (nat \<Rightarrow> u32) \<Rightarrow> ntp_server \<times> w5500 \<Rightarrow> ntp_server \<times> w5500" where
  "loop_recheck env ms x = (case x of (s, w) \<Rightarrow>
     if recheck_due ms s then
       let s = s\<lparr>sv_int_level_recheck_ms := ms 5 + INT_LEVEL_RECHECK_MS\<rparr>;
           (w, readback) = w5500_read_int_level env w;
           s = s\<lparr>sv_last_int_level_readback := readback_or_0 readback\<rparr> in
       if int_level_still_short (readback \<noteq> None) (readback_or_0 readback) then (s, w)
       else if sv_short_int_wait_policy s then
         (let (w, reapplied) = write_and_read env W5500_INT_LEVEL_SHORT w in
          (s\<lparr>sv_last_int_level_readback := readback_or_0 reapplied,
             sv_short_wait_effective := (reapplied = Some W5500_INT_LEVEL_SHORT)\<rparr>, w))
       else (s\<lparr>sv_short_wait_effective := False\<rparr>, w)
     else (s, w))"

definition loop_int_level :: "spi_env \<Rightarrow> (nat \<Rightarrow> u32) \<Rightarrow> ntp_server \<times> w5500 \<Rightarrow> ntp_server \<times> w5500" where
  "loop_int_level env ms x = loop_recheck env ms (loop_boot_enable env ms x)"

subsection \<open>The flag and the register\<close>

lemma read_level:
  "w5500_read_int_level env w = (w', Some v) \<Longrightarrow> v = ch_int_level w \<and> ch_int_level w' = ch_int_level w"
  "w5500_read_int_level env w = (w', r) \<Longrightarrow> ch_int_level w' = ch_int_level w"
  by (auto simp: w5500_read_int_level_def spi_transfer_def Let_def split: if_splits)

lemma write_and_read_short:
  "write_and_read env target w = (w', Some target) \<Longrightarrow> ch_int_level w' = target"
  by (auto simp: write_and_read_def split: prod.splits if_splits dest: read_level)

lemma set_short_effective:
  "set_short_int_wait env now enable (s, w) = (s', w') \<Longrightarrow> sv_short_wait_effective s' \<Longrightarrow>
   enable \<and> ch_int_level w' = 0x0FFF"
  by (auto simp: set_short_int_wait_def Let_def level_consts dest!: write_and_read_short
      split: prod.splits if_splits)

lemma loop_recheck_effective:
  assumes "loop_recheck env ms (s, w) = (s', w')" "recheck_due ms s" "sv_short_wait_effective s'"
  shows "ch_int_level w' = 0x0FFF"
  using assms
  by (auto simp: loop_recheck_def Let_def int_level_still_short_def readback_or_0_def level_consts
      dest!: read_level(1) write_and_read_short split: prod.splits if_splits option.splits)

text \<open>
  C24: The flag that relaxes admission tells the truth about the chip. After a pass of \<open>loop\<close> at
  which the re-check was due, or which turned the short wait on, the flag being set means that
  the INTLEVEL register holds the short value, for every pattern of failing transfers and
  whatever the driver had written into it in the meantime.
\<close>

theorem effective_means_short:
  assumes "loop_int_level env ms (s, w) = (s', w')" "sv_short_wait_effective s'"
    "\<not> sv_short_wait_effective s \<or> i32 (ms 4 - sv_int_level_recheck_ms s) \<ge> 0"
  shows "ch_int_level w' = 0x0FFF"
proof -
  obtain s1 w1 where b: "loop_boot_enable env ms (s, w) = (s1, w1)" by fastforce
  with assms(1) have r: "loop_recheck env ms (s1, w1) = (s', w')" by (simp add: loop_int_level_def)
  show ?thesis
  proof (cases "recheck_due ms s1")
    case True
    with r assms(2) show ?thesis by (intro loop_recheck_effective)
  next
    case False
    with r have e: "s' = s1" "w' = w1" by (simp_all add: loop_recheck_def)
    show ?thesis
    proof (cases "boot_enable_due ms (s, w)")
      case True
      with b assms(2) e show ?thesis by (auto simp: loop_boot_enable_def dest: set_short_effective)
    next
      case False
      with b have "s1 = s" by (simp add: loop_boot_enable_def)
      with \<open>\<not> recheck_due ms s1\<close> assms(2,3) e show ?thesis by (simp add: recheck_due_def)
    qed
  qed
qed

theorem effective_means_short_witness:
  "let env = \<lparr>se_ok = (\<lambda>_. True), se_wait_us = (\<lambda>_. 0), se_now_us = (\<lambda>_. 0)\<rparr>;
       s = (ntp_server_init 123)\<lparr>sv_short_wait_effective := True, sv_int_level_recheck_ms := 4294967290\<rparr>;
       w = w5500_init\<lparr>w_spi_ctx := True, ch_int_level := 0xFFFF\<rparr>;
       (s', w') = loop_int_level env (\<lambda>k. 10 + of_nat k) (s, w) in
     sv_short_wait_effective s' \<and> ch_int_level w' = 0x0FFF"
proof -
  let ?env = "\<lparr>se_ok = (\<lambda>_. True), se_wait_us = (\<lambda>_. 0), se_now_us = (\<lambda>_. 0)\<rparr>"
  let ?s = "(ntp_server_init 123)\<lparr>sv_short_wait_effective := True, sv_int_level_recheck_ms := 4294967290\<rparr>"
  let ?w = "w5500_init\<lparr>w_spi_ctx := True, ch_int_level := 0xFFFF\<rparr>"
  obtain s' w' where x: "loop_int_level ?env (\<lambda>k. 10 + of_nat k) (?s, ?w) = (s', w')" by fastforce
  have e: "sv_short_wait_effective (fst (loop_int_level ?env (\<lambda>k. 10 + of_nat k) (?s, ?w)))"
    by code_simp
  then have "sv_short_wait_effective s'" by (simp only: x fst_conv)
  moreover have "i32 (10 + of_nat 4 - sv_int_level_recheck_ms ?s) \<ge> 0" by (simp add: i32_def)
  ultimately show ?thesis using effective_means_short [OF x] by (simp add: x)
qed

text \<open>
  Off means off, and the boot window is kept. Once the short wait was switched off no later
  pass of \<open>loop\<close> writes the register or sets the flag, however often it runs; and while the flag
  is not set no pass in the first minute after boot touches the chip, so every boot has a window
  with the driver's own setting.
\<close>

theorem short_wait_off_stays_off:
  assumes "set_short_int_wait env now False x = (s, w)"
  shows "fold (\<lambda>(env, ms) x. loop_int_level env ms x) passes (s, w) = (s, w) \<and>
    \<not> sv_short_wait_effective s \<and>
    (\<not> sv_short_wait_effective t \<and> ms 0 < 60000 \<longrightarrow> loop_int_level env' ms (t, u) = (t, u))"
proof -
  have s: "\<not> sv_short_wait_effective s" "\<not> sv_short_int_wait_policy s"
    using assms by (auto simp: set_short_int_wait_def Let_def split: prod.splits if_splits)
  have idle: "loop_int_level env' ms (t, u) = (t, u)"
    if "\<not> sv_short_wait_effective t" "\<not> sv_short_int_wait_policy t \<or> ms 0 < 60000" for env' ms t u
    using that by (auto simp: loop_int_level_def loop_boot_enable_def boot_enable_due_def
        loop_recheck_def recheck_due_def level_consts not_le)
  have "fold (\<lambda>(env, ms) x. loop_int_level env ms x) passes (s, w) = (s, w)"
    by (induction passes) (simp_all add: idle s split: prod.split)
  with s idle show ?thesis by auto
qed

theorem short_wait_off_stays_off_witness:
  "let env = \<lparr>se_ok = (\<lambda>_. True), se_wait_us = (\<lambda>_. 0), se_now_us = (\<lambda>_. 0)\<rparr>;
       (s, w) = set_short_int_wait env 5 False (ntp_server_init 123, w5500_init\<lparr>w_spi_ctx := True\<rparr>) in
   loop_int_level env (\<lambda>_. 70000) (s, w) = (s, w)"
proof -
  let ?env = "\<lparr>se_ok = (\<lambda>_. True), se_wait_us = (\<lambda>_. 0), se_now_us = (\<lambda>_. 0)\<rparr>"
  obtain s w where x: "set_short_int_wait ?env 5 False (ntp_server_init 123, w5500_init\<lparr>w_spi_ctx := True\<rparr>) = (s, w)"
    by fastforce
  from short_wait_off_stays_off [OF x, of "[(?env, \<lambda>_. 70000)]"] show ?thesis by (simp add: x)
qed

end
