(* ===== verification/Printf.thy ===== *)
theory Printf
  imports Prelude
begin

text \<open>
  What \<open>snprintf\<close> prints for the conversions the code uses, \<open>%u\<close>, \<open>%d\<close>, \<open>%x\<close> and their
  zero-padded forms, and how long it is: the bounds from which the users of a fixed buffer show
  that nothing is cut off.
\<close>

subsection \<open>Conversions\<close>

definition hex_digit :: "nat \<Rightarrow> char" where
  "hex_digit n = ''0123456789abcdef'' ! n"

fun digits :: "nat \<Rightarrow> nat \<Rightarrow> string" where
  "digits b n = (if n < b \<or> b < 2 then [hex_digit n] else digits b (n div b) @ [hex_digit (n mod b)])"

declare digits.simps [simp del]

definition fmt_u :: "nat \<Rightarrow> string" where "fmt_u n = digits 10 n"
definition fmt_x :: "nat \<Rightarrow> string" where "fmt_x n = digits 16 n"

definition fmt_d :: "int \<Rightarrow> string" where
  "fmt_d i = (if i < 0 then ''-'' @ digits 10 (nat (- i)) else digits 10 (nat i))"

text \<open>\<open>%0wx\<close>\<close>

definition fmt_0x :: "nat \<Rightarrow> nat \<Rightarrow> string" where
  "fmt_0x w n = replicate (w - length (fmt_x n)) (CHR ''0'') @ fmt_x n"

definition NL :: string where "NL = [CHR 0x0A]"

text \<open>Fields, each after a space.\<close>

definition spaced :: "string list \<Rightarrow> string" where
  "spaced xs = concat (map (\<lambda>x. '' '' @ x) xs)"

definition u32_field :: "u32 \<Rightarrow> string" where "u32_field w = fmt_u (unat w)"
definition u16_field :: "u16 \<Rightarrow> string" where "u16_field w = fmt_u (unat w)"

subsection \<open>Lengths\<close>


lemma digits_length: "n < b ^ k \<Longrightarrow> 0 < k \<Longrightarrow> 2 \<le> b \<Longrightarrow> length (digits b n) \<le> k"
proof (induction k arbitrary: n)
  case (Suc k)
  show ?case
  proof (cases "n < b")
    case True
    then show ?thesis by (simp add: digits.simps [of b n])
  next
    case False
    with Suc.prems have k: "0 < k" by (cases k) simp_all
    have "n div b < b ^ k"
      using Suc.prems by (simp add: div_less_iff_less_mult mult.commute)
    then show ?thesis
      using Suc.IH [of "n div b"] k Suc.prems False by (simp add: digits.simps [of b n])
  qed
qed simp

lemma digits_nonempty [simp]: "digits b n \<noteq> []"
  by (subst digits.simps) simp

lemma fmt_d_length:
  assumes "- (10 ^ k) < i" "i < 10 ^ m" "0 < k" "0 < m"
  shows "length (fmt_d i) \<le> (if i < 0 then Suc k else m)"
proof (cases "i < 0")
  case True
  with assms have "nat (- i) < 10 ^ k"
    by (simp add: nat_less_iff)
  with True assms show ?thesis using digits_length [of "nat (- i)" 10 k] by (simp add: fmt_d_def)
next
  case False
  with assms have "nat i < 10 ^ m"
    by (simp add: nat_less_iff)
  with False assms show ?thesis using digits_length [of "nat i" 10 m] by (simp add: fmt_d_def)
qed

lemma word_bounds: "unat (a :: u32) < 4294967296" "unat (b :: u16) < 65536" "unat (c :: u8) < 256"
  by (rule order_less_le_trans [OF unsigned_less]; simp)+

lemma u32_field_length: "length (u32_field w) \<le> 10"
  unfolding u32_field_def fmt_u_def
  by (rule digits_length [OF order_less_trans [OF word_bounds(1)]]) simp_all

lemma u16_field_length: "length (u16_field w) \<le> 5"
  unfolding u16_field_def fmt_u_def
  by (rule digits_length [OF order_less_trans [OF word_bounds(2)]]) simp_all

lemma fmt_x16_length: "length (fmt_x (unat (w :: u16))) \<le> 4"
  using word_bounds(2) [of w] digits_length [of "unat w" 16 4] by (simp add: fmt_x_def)

lemma fmt_02x_length: "length (fmt_0x 2 (unat (b :: u8))) = 2"
  using word_bounds(3) [of b] digits_length [of "unat b" 16 2] by (simp add: fmt_0x_def fmt_x_def)

lemma fmt_04x_length: "length (fmt_0x 4 (unat (w :: u16))) = 4"
  using fmt_x16_length [of w] by (simp add: fmt_0x_def)

lemma spaced_length: "\<forall>x \<in> set xs. length x \<le> k \<Longrightarrow> length (spaced xs) \<le> length xs * Suc k"
  by (induction xs) (auto simp: spaced_def)

lemma fmt_d_i32_length: "- 2147483648 \<le> i \<Longrightarrow> i < 2147483648 \<Longrightarrow> length (fmt_d i) \<le> 11"
  using fmt_d_length [of 10 i 10] by (simp split: if_splits)

lemma of_bool_length: "length (fmt_d (of_bool b)) = 1"
  by (cases b) (simp_all add: fmt_d_def digits.simps)

lemma fmt_u_u32_length: "length (fmt_u (unat (w :: u32))) \<le> 10"
  using u32_field_length [of w] by (simp add: u32_field_def)

end
