(* ===== verification/DiagPort.thy ===== *)
theory DiagPort
  imports IntLevel Printf
begin

text \<open>
  \<open>diag_serve_\<close> of \<open>components/ntp_server/ntp_server.cpp\<close>: the text protocol on the diagnostics
  port. A line is handed
  on with the length \<open>snprintf\<close> returns, so a line that did not fit its 240 bytes would be read
  past its end: \<open>None\<close>. Lines are packed into datagrams of at most 1400 bytes.

  The rings may be written while a dump runs (it sleeps between datagrams), so what each read
  returns is part of the input, \<open>diag_reads\<close>.
\<close>

subsection \<open>The lines\<close>

fun refuse_code :: "refuse_reason \<Rightarrow> int" where
  "refuse_code REFUSE_NONE = 0"
| "refuse_code REFUSE_OLD_EDGE = 1"
| "refuse_code REFUSE_NO_EDGE = 2"
| "refuse_code REFUSE_HOOK_MISS = 3"
| "refuse_code REFUSE_ARP_UNRESOLVED = 4"

definition send_class_code :: "frame_class option \<Rightarrow> int" where
  "send_class_code c = (case c of None \<Rightarrow> - 1 | Some c \<Rightarrow> int (fc_code c))"

definition clk_line :: "int \<Rightarrow> u32 \<Rightarrow> int \<Rightarrow> string" where
  "clk_line timer_us micros wall_us =
     ''CLK '' @ fmt_d timer_us @ '' '' @ u32_field micros @ '' '' @ fmt_d wall_us @ NL"

definition tx_hex :: "u8 list \<Rightarrow> string" where
  "tx_hex bs = concat (map (\<lambda>b. fmt_0x 2 (unat b)) bs)"

definition req_ints :: "diag_record \<Rightarrow> int list" where
  "req_ints r = [dg_int_lead_us r, dg_rx_gap_us r, dg_hook_latency_us r, dg_send_us r, dg_sendto_us r,
     dg_lock_wait_us r, dg_estimate_us r, dg_arp_wait_us r, refuse_code (dg_refuse_reason r),
     send_class_code (dg_send_class r), dg_tx_write_start_us r, dg_tx_write_end_us r, dg_rx_rsr r,
     dg_frame_len r, of_bool (dg_patched r), dg_patch_to_send_us r, dg_patch_pred_us r,
     dg_t3_calc_to_t0_us r, dg_sendok_interval_us r]"

definition req_line :: "diag_record \<Rightarrow> string" where
  "req_line r = ''R '' @ fmt_d (dg_t2_us r) @ '' '' @ tx_hex (dg_client_tx r) @ '' '' @
     fmt_x (unat (dg_flags r)) @ spaced (map fmt_d (req_ints r)) @ NL"

definition net_line :: "net_bin \<Rightarrow> string" where
  "net_line b = ''N '' @ u32_field (nb_start_us b) @ spaced (map u16_field (nb_tx b)) @
     spaced [u32_field (nb_tx_bytes b)] @ spaced (map u16_field (nb_rx b)) @
     spaced [u32_field (nb_rx_bytes b), u32_field (nb_lock_wait_max_us b), u16_field (nb_cr_retried b)] @ NL"

definition net_bin_empty :: "net_bin \<Rightarrow> bool" where
  "net_bin_empty b \<longleftrightarrow> nb_tx_bytes b = 0 \<and> nb_rx_bytes b = 0 \<and> nb_lock_wait_max_us b = 0 \<and> nb_cr_retried b = 0"

fun mac_text :: "u8 list \<Rightarrow> string" where
  "mac_text [] = []"
| "mac_text [b] = fmt_0x 2 (unat b)"
| "mac_text (b # c # bs) = fmt_0x 2 (unat b) @ '':'' @ mac_text (c # bs)"

definition talker_line :: "talker \<Rightarrow> string" where
  "talker_line t = ''T '' @ mac_text (tk_src_mac t) @ '' '' @ fmt_0x 4 (unat (tk_ethertype t)) @ '' '' @
     mac_text (tk_first_dst_mac t) @ spaced (map u32_field [tk_frames t, tk_burst_frames t, tk_bytes t,
       tk_first_us t, tk_last_us t]) @ NL"

definition int_line :: "u16 option \<Rightarrow> bool \<Rightarrow> int \<Rightarrow> string" where
  "int_line readback active remaining_ms =
     ''INT '' @ fmt_0x 4 (unat (readback_or_0 readback)) @ '' '' @ fmt_d (of_bool active) @ '' '' @
     fmt_u (if remaining_ms > 0 then nat remaining_ms div 1000 else 0) @ NL"

definition usage_line :: string where
  "usage_line = ''ERR usage: CLK | REQ | NET | TLK | INT'' @ NL"

text \<open>The command's first three bytes, as a C string.\<close>

definition kind_text :: "string \<Rightarrow> string" where
  "kind_text cmd = takeWhile (\<lambda>c. c \<noteq> CHR 0x00) (take 3 cmd)"

definition end_line :: "string \<Rightarrow> nat \<Rightarrow> string" where
  "end_line cmd n = ''END '' @ kind_text cmd @ '' '' @ fmt_u n @ NL"

subsection \<open>Packing lines into datagrams\<close>

definition BATCH_SIZE :: nat where "BATCH_SIZE = 1400"
definition LINE_SIZE :: nat where "LINE_SIZE = 240"

text \<open>The pending bytes and the datagrams sent so far.\<close>

type_synonym batch = "string \<times> string list"

definition batch_flush :: "batch \<Rightarrow> batch" where
  "batch_flush b = (case b of (used, sent) \<Rightarrow> if used = [] then b else ([], sent @ [used]))"

definition batch_emit :: "string \<Rightarrow> batch \<Rightarrow> batch option" where
  "batch_emit l b =
     (if l = [] \<or> length l \<ge> BATCH_SIZE then Some b
      else if length l \<ge> LINE_SIZE then None
      else let (used, sent) = (if length (fst b) + length l > BATCH_SIZE then batch_flush b else b) in
        Some (used @ l, sent))"

fun batch_all :: "string list \<Rightarrow> batch \<Rightarrow> batch option" where
  "batch_all [] b = Some b"
| "batch_all (l # ls) b = (case batch_emit l b of None \<Rightarrow> None | Some b \<Rightarrow> batch_all ls b)"

subsection \<open>Answers\<close>

record diag_reads =
  rd_timer_us :: int
  rd_micros :: u32
  rd_wall_us :: int
  rd_slot :: "nat \<Rightarrow> (u32 \<times> diag_record \<times> u32) list"
  rd_bin :: "nat \<Rightarrow> net_bin option"
  rd_talker :: "nat \<Rightarrow> talker option"
  rd_int_level :: "u16 option"
  rd_ms :: u32

definition is_cmd :: "string \<Rightarrow> string \<Rightarrow> bool" where
  "is_cmd name cmd \<longleftrightarrow> take 3 cmd = name"

definition req_lines :: "diag_reads \<Rightarrow> string list" where
  "req_lines rds = map req_line (List.map_filter (\<lambda>i. dump_slot (rd_slot rds i)) [0..<DIAG_RING_SIZE])"

definition net_lines :: "diag_reads \<Rightarrow> string list" where
  "net_lines rds = map net_line (filter (\<lambda>b. \<not> net_bin_empty b) (List.map_filter (rd_bin rds) [0..<NET_BINS]))"

definition talker_lines :: "diag_reads \<Rightarrow> string list" where
  "talker_lines rds = map talker_line (List.map_filter (rd_talker rds) [0..<TT_SIZE])"

text \<open>The lines of the answer before its last, and the count that the last one gives.\<close>

definition diag_body :: "diag_reads \<Rightarrow> ntp_server \<Rightarrow> string \<Rightarrow> string list \<times> nat" where
  "diag_body rds s cmd =
     (let counted = (\<lambda>ls. (ls, length ls)) in
      if is_cmd ''CLK'' cmd then counted [clk_line (rd_timer_us rds) (rd_micros rds) (rd_wall_us rds)]
      else if is_cmd ''REQ'' cmd \<and> sv_diag_ring s \<noteq> None then counted (req_lines rds)
      else if is_cmd ''NET'' cmd then counted (net_lines rds)
      else if is_cmd ''TLK'' cmd then counted (talker_lines rds)
      else if is_cmd ''INT'' cmd then
        counted [int_line (rd_int_level rds) (sv_short_wait_effective s) (i32 (sv_int_level_recheck_ms s - rd_ms rds))]
      else ([usage_line], 0))"

definition diag_answer :: "diag_reads \<Rightarrow> ntp_server \<Rightarrow> string \<Rightarrow> string list option" where
  "diag_answer rds s cmd =
     (let (body, n) = diag_body rds s cmd in
      case batch_all (body @ [end_line cmd n]) ([], []) of None \<Rightarrow> None
      | Some b \<Rightarrow> Some (snd (batch_flush b)))"

text \<open>
  The socket: opened when the diagnostics are on and it is not open yet, closed when they are off.
  \<open>dio_fd\<close>, \<open>dio_bound\<close> are what \<open>socket\<close> and \<open>bind\<close> return, \<open>dio_received\<close> what \<open>recvfrom\<close>
  delivers, which cuts the datagram to 15 bytes. INT reads the level from the chip.
\<close>

definition diag_socket_ready :: "int \<Rightarrow> int \<Rightarrow> int \<Rightarrow> int option" where
  "diag_socket_ready sock fd bound =
     (if sock \<ge> 0 then Some sock else if fd < 0 then None else if bound < 0 then None else Some fd)"

record diag_io =
  dio_fd :: int
  dio_bound :: int
  dio_received :: "string option"
  dio_reads :: diag_reads

definition diag_serve ::
  "spi_env \<Rightarrow> diag_io \<Rightarrow> ntp_server \<times> w5500 \<Rightarrow> (ntp_server \<times> w5500) \<times> string list option" where
  "diag_serve env io x = (case x of (s, w) \<Rightarrow>
     if \<not> sv_diagnostics s then
       ((if sv_diag_socket s \<ge> 0 then s\<lparr>sv_diag_socket := - 1\<rparr> else s, w), Some [])
     else case diag_socket_ready (sv_diag_socket s) (dio_fd io) (dio_bound io) of
       None \<Rightarrow> ((s, w), Some [])
     | Some sock \<Rightarrow>
         (let s = s\<lparr>sv_diag_socket := sock\<rparr> in
          case dio_received io of None \<Rightarrow> ((s, w), Some [])
          | Some d \<Rightarrow> if d = [] then ((s, w), Some [])
              else
                let cmd = take 15 d;
                    (w, level) = (if is_cmd ''INT'' cmd then w5500_read_int_level env w else (w, None)) in
                ((s, w), diag_answer ((dio_reads io)\<lparr>rd_int_level := level\<rparr>) s cmd)))"

lemma diag_serve_server:
  "fst (fst (diag_serve env io (s, w))) = s\<lparr>sv_diag_socket :=
     (if \<not> sv_diagnostics s then (if sv_diag_socket s \<ge> 0 then - 1 else sv_diag_socket s)
      else case diag_socket_ready (sv_diag_socket s) (dio_fd io) (dio_bound io) of
        None \<Rightarrow> sv_diag_socket s | Some sock \<Rightarrow> sock)\<rparr>"
  by (simp add: diag_serve_def Let_def split: prod.split option.split)

lemma diag_serve_chip:
  "snd (fst (diag_serve env io (s, w))) \<in> {w, fst (w5500_read_int_level env w)}"
  by (simp add: diag_serve_def Let_def split: prod.split option.split)

subsection \<open>Lengths\<close>

lemma tx_hex_length: "length (tx_hex bs) = 2 * length bs"
  by (induction bs) (simp_all add: tx_hex_def fmt_02x_length)

lemma mac_text_length: "length (mac_text bs) \<le> 3 * length bs"
  by (induction bs rule: mac_text.induct) (simp_all add: fmt_02x_length)

lemma refuse_code_length: "length (fmt_d (refuse_code r)) \<le> 1"
  by (cases r) (simp_all add: fmt_d_def digits.simps)

lemma send_class_length: "length (fmt_d (send_class_code c)) \<le> 2"
proof (cases c)
  case (Some f)
  then show ?thesis using fc_code_less [of f] fmt_d_length [of 1 "int (fc_code f)" 1]
    by (simp add: send_class_code_def FC_COUNT_def)
qed (simp add: send_class_code_def fmt_d_def digits.simps)

text \<open>
  What the code stores in a record: the microseconds of less than 31 years, 32-bit integers,
  and an eight-byte transmit field.
\<close>

definition i32_ok :: "int \<Rightarrow> bool" where
  "i32_ok i \<longleftrightarrow> - 2147483648 \<le> i \<and> i < 2147483648"

definition diag_record_sized :: "diag_record \<Rightarrow> bool" where
  "diag_record_sized r \<longleftrightarrow> 0 \<le> dg_t2_us r \<and> dg_t2_us r < 10 ^ 15 \<and> length (dg_client_tx r) = 8 \<and>
     (\<forall>i \<in> set (req_ints r). i32_ok i)"

lemma req_line_length: "diag_record_sized r \<Longrightarrow> length (req_line r) < LINE_SIZE"
proof -
  assume r: "diag_record_sized r"
  have t: "length (fmt_d (dg_t2_us r)) \<le> 15"
    using r fmt_d_length [of 1 "dg_t2_us r" 15] by (simp add: diag_record_sized_def)
  have x: "length (tx_hex (dg_client_tx r)) = 16"
    using r by (simp add: diag_record_sized_def tx_hex_length)
  have i: "\<forall>i \<in> set (req_ints r). length (fmt_d i) \<le> 11"
    using r fmt_d_i32_length by (auto simp: diag_record_sized_def i32_ok_def)
  have "length (spaced (map fmt_d (req_ints r))) \<le> 19 + 16 * 11 + 4"
    using i refuse_code_length [of "dg_refuse_reason r"] send_class_length [of "dg_send_class r"]
      of_bool_length [of "dg_patched r"]
    by (simp add: spaced_def req_ints_def)
  then show ?thesis
    using t x fmt_x16_length [of "dg_flags r"] by (simp add: req_line_def LINE_SIZE_def NL_def)
qed

lemma clk_line_length:
  assumes "- (10 ^ 19) < t" "t < 10 ^ 19" "- (10 ^ 19) < v" "v < 10 ^ 19"
  shows "length (clk_line t m v) < LINE_SIZE"
  using fmt_d_length [of 19 t 19] fmt_d_length [of 19 v 19] u32_field_length [of m] assms
  by (simp add: clk_line_def LINE_SIZE_def NL_def split: if_splits)

lemma net_line_length:
  assumes "length (nb_tx b) = FC_COUNT" "length (nb_rx b) = FC_COUNT"
  shows "length (net_line b) < LINE_SIZE"
proof -
  have u: "length (spaced (map u16_field ws)) \<le> length ws * 6" for ws
    using spaced_length [of "map u16_field ws" 5] u16_field_length by simp
  have "length (spaced [x]) = Suc (length x)" "length (spaced [x, y, z]) = length x + length y + length z + 3"
    for x y z by (simp_all add: spaced_def)
  then show ?thesis
    using u [of "nb_tx b"] u [of "nb_rx b"] u32_field_length [of "nb_start_us b"]
      u32_field_length [of "nb_tx_bytes b"] u32_field_length [of "nb_rx_bytes b"]
      u32_field_length [of "nb_lock_wait_max_us b"] u16_field_length [of "nb_cr_retried b"] assms
    by (simp add: net_line_def LINE_SIZE_def NL_def FC_COUNT_def)
qed

lemma talker_line_length:
  assumes "length (tk_src_mac t) = 6" "length (tk_first_dst_mac t) = 6"
  shows "length (talker_line t) < LINE_SIZE"
proof -
  have "length (spaced (map u32_field ws)) \<le> length ws * 11" for ws
    using spaced_length [of "map u32_field ws" 10] u32_field_length by simp
  from this [of "[tk_frames t, tk_burst_frames t, tk_bytes t, tk_first_us t, tk_last_us t]"]
  show ?thesis
    using mac_text_length [of "tk_src_mac t"] mac_text_length [of "tk_first_dst_mac t"] assms
      fmt_04x_length [of "tk_ethertype t"]
    by (simp add: talker_line_def LINE_SIZE_def NL_def)
qed

lemma int_line_length: "ms < 2 ^ 31 \<Longrightarrow> length (int_line rb a ms) < LINE_SIZE"
proof -
  assume "ms < 2 ^ 31"
  then have "nat ms div 1000 < 10 ^ 10" by (cases "ms < 0") (auto simp: nat_less_iff div_less_iff_less_mult)
  then have "length (fmt_u (if ms > 0 then nat ms div 1000 else 0)) \<le> 10"
    using digits_length [of _ 10 10] by (simp add: fmt_u_def)
  then show ?thesis
    using fmt_04x_length [of "readback_or_0 rb"] of_bool_length [of a]
    by (simp add: int_line_def LINE_SIZE_def NL_def)
qed

lemma usage_line_length: "length usage_line < LINE_SIZE"
  by (simp add: usage_line_def NL_def LINE_SIZE_def)

lemma end_line_length: "n < 10 ^ 10 \<Longrightarrow> length (end_line cmd n) < LINE_SIZE"
proof -
  assume "n < 10 ^ 10"
  then have "length (fmt_u n) \<le> 10" using digits_length [of n 10 10] by (simp add: fmt_u_def)
  moreover have "length (kind_text cmd) \<le> 3"
    using length_takeWhile_le [of "\<lambda>c. c \<noteq> CHR 0x00" "take 3 cmd"] by (simp add: kind_text_def)
  ultimately show ?thesis by (simp add: end_line_def LINE_SIZE_def NL_def)
qed

subsection \<open>Packing\<close>

text \<open>
  The pending bytes and the datagrams are the lines so far, in order and each in one piece; no
  datagram is empty or too long.
\<close>

definition packed :: "string list \<Rightarrow> batch \<Rightarrow> bool" where
  "packed ls b \<longleftrightarrow> (\<exists>groups pending. snd b = map concat groups \<and> fst b = concat pending \<and>
     concat groups @ pending = ls) \<and> length (fst b) \<le> BATCH_SIZE \<and>
     (\<forall>d \<in> set (snd b). d \<noteq> [] \<and> length d \<le> BATCH_SIZE)"

lemma packed_empty: "packed [] ([], [])"
  by (auto simp: packed_def intro!: exI [of _ "[]"])

lemma packed_flush:
  assumes "packed ls b" "b' = batch_flush b" "[] \<notin> set ls"
  shows "packed ls b' \<and> fst b' = []"
proof (cases "fst b = []")
  case True
  then show ?thesis using assms by (cases b) (simp add: batch_flush_def)
next
  case False
  from assms(1) obtain groups pending where g: "snd b = map concat groups" "fst b = concat pending"
    "concat groups @ pending = ls" by (auto simp: packed_def)
  have "snd b' = map concat (groups @ [pending])" "fst b' = []"
    using False assms(2) g by (cases b; simp add: batch_flush_def)+
  moreover have "concat (groups @ [pending]) @ [] = ls" using g by simp
  moreover have "fst b' = concat []" using False assms(2) by (cases b) (simp add: batch_flush_def)
  ultimately have "\<exists>groups pending. snd b' = map concat groups \<and> fst b' = concat pending \<and>
      concat groups @ pending = ls" by blast
  then show ?thesis
    using assms(1,2) False by (cases b) (auto simp: packed_def batch_flush_def)
qed

lemma packed_emit:
  assumes "packed ls b" "batch_emit l b = Some b'" "[] \<notin> set ls" "l \<noteq> []" "length l < BATCH_SIZE"
  shows "packed (ls @ [l]) b'"
proof -
  let ?c = "if length (fst b) + length l > BATCH_SIZE then batch_flush b else b"
  have c: "packed ls ?c" "length (fst ?c) + length l \<le> BATCH_SIZE"
    using assms packed_flush [OF assms(1) refl assms(3)] by auto
  have b': "b' = (fst ?c @ l, snd ?c)"
    using assms(2,4,5) by (auto simp: batch_emit_def Let_def split: if_splits prod.splits)
  from c(1) obtain groups pending where "snd ?c = map concat groups" "fst ?c = concat pending"
    "concat groups @ pending = ls" unfolding packed_def by blast
  then have "snd b' = map concat groups \<and> fst b' = concat (pending @ [l]) \<and>
      concat groups @ (pending @ [l]) = ls @ [l]"
    by (simp add: b')
  then show ?thesis
    using c unfolding packed_def b' by (metis (no_types, lifting) fst_conv length_append snd_conv)
qed

lemma batch_all_packed:
  "batch_all ls b = Some b' \<Longrightarrow> packed ls0 b \<Longrightarrow> [] \<notin> set (ls0 @ ls) \<Longrightarrow> \<forall>l \<in> set ls. length l < BATCH_SIZE \<Longrightarrow>
   packed (ls0 @ ls) b'"
proof (induction ls arbitrary: b ls0)
  case (Cons l ls)
  from Cons.prems(1) obtain b1 where b1: "batch_emit l b = Some b1" "batch_all ls b1 = Some b'"
    by (auto split: option.splits)
  have "packed (ls0 @ [l]) b1"
    by (rule packed_emit [OF Cons.prems(2) b1(1)]) (use Cons.prems in auto)
  with Cons.IH [OF b1(2)] Cons.prems show ?case by fastforce
qed simp

lemma batch_all_defined:
  "\<forall>l \<in> set ls. length l < LINE_SIZE \<Longrightarrow> \<exists>b'. batch_all ls b = Some b'"
proof (induction ls arbitrary: b)
  case (Cons l ls)
  have "\<exists>b1. batch_emit l b = Some b1"
    using Cons.prems by (auto simp: batch_emit_def Let_def split: prod.split)
  with Cons show ?case by auto
qed simp

subsection \<open>The answers\<close>

definition diag_reads_sized :: "diag_reads \<Rightarrow> bool" where
  "diag_reads_sized rds \<longleftrightarrow> \<bar>rd_timer_us rds\<bar> < 10 ^ 19 \<and> \<bar>rd_wall_us rds\<bar> < 10 ^ 19 \<and>
     (\<forall>i r. dump_slot (rd_slot rds i) = Some r \<longrightarrow> length (req_line r) < LINE_SIZE) \<and>
     (\<forall>i b. rd_bin rds i = Some b \<longrightarrow> length (nb_tx b) = FC_COUNT \<and> length (nb_rx b) = FC_COUNT) \<and>
     (\<forall>i t. rd_talker rds i = Some t \<longrightarrow> length (tk_src_mac t) = 6 \<and> length (tk_first_dst_mac t) = 6)"

lemma map_filter_lines:
  "(\<And>i x. f i = Some x \<Longrightarrow> P x) \<Longrightarrow> x \<in> set (List.map_filter f is) \<Longrightarrow> P x"
  by (auto simp: map_filter_def)

lemma map_filter_length: "length (List.map_filter f is) \<le> length is"
  by (simp add: map_filter_def)

lemma body_lines:
  assumes "diag_reads_sized rds" "l \<in> set (fst (diag_body rds s cmd))"
  shows "length l < LINE_SIZE \<and> l \<noteq> []"
proof -
  have req: "length l < LINE_SIZE \<and> l \<noteq> []" if l: "l \<in> set (req_lines rds)"
  proof -
    obtain i r where "dump_slot (rd_slot rds i) = Some r" "l = req_line r"
      using l by (auto simp: req_lines_def map_filter_def)
    with assms(1) have "length (req_line r) < LINE_SIZE" by (auto simp: diag_reads_sized_def)
    with \<open>l = req_line r\<close> show ?thesis by (simp add: req_line_def)
  qed
  have net: "length l < LINE_SIZE \<and> l \<noteq> []" if l: "l \<in> set (net_lines rds)"
  proof -
    obtain i b where "rd_bin rds i = Some b" "l = net_line b"
      using l by (auto simp: net_lines_def map_filter_def)
    moreover from this assms(1) have "length (nb_tx b) = FC_COUNT" "length (nb_rx b) = FC_COUNT"
      by (auto simp: diag_reads_sized_def)
    ultimately show ?thesis using net_line_length [of b] by (simp add: net_line_def)
  qed
  have tlk: "length l < LINE_SIZE \<and> l \<noteq> []" if l: "l \<in> set (talker_lines rds)"
  proof -
    obtain i t where "rd_talker rds i = Some t" "l = talker_line t"
      using l by (auto simp: talker_lines_def map_filter_def)
    moreover from this assms(1) have "length (tk_src_mac t) = 6" "length (tk_first_dst_mac t) = 6"
      by (auto simp: diag_reads_sized_def)
    ultimately show ?thesis using talker_line_length [of t] by (simp add: talker_line_def)
  qed
  have clk: "length (clk_line (rd_timer_us rds) m (rd_wall_us rds)) < LINE_SIZE" for m
    using assms(1) by (intro clk_line_length) (simp_all add: diag_reads_sized_def abs_less_iff)
  have int: "length (int_line rb a (i32 k)) < LINE_SIZE" for rb a k
    using i32_range [of k] by (intro int_line_length) simp
  have ne: "clk_line t m v \<noteq> []" "int_line rb a k \<noteq> []" "usage_line \<noteq> []" for t m v rb a k
    by (simp_all add: clk_line_def int_line_def usage_line_def)
  consider "l = clk_line (rd_timer_us rds) (rd_micros rds) (rd_wall_us rds)" | "l \<in> set (req_lines rds)"
    | "l \<in> set (net_lines rds)" | "l \<in> set (talker_lines rds)"
    | "l = int_line (rd_int_level rds) (sv_short_wait_effective s) (i32 (sv_int_level_recheck_ms s - rd_ms rds))"
    | "l = usage_line"
    using assms(2) unfolding diag_body_def Let_def by (simp split: if_split_asm)
  then show ?thesis
    by cases (simp_all add: req net tlk clk int usage_line_length ne)
qed

lemma body_count:
  "length (fst (diag_body rds s cmd)) < 2000 \<and> snd (diag_body rds s cmd) \<le> length (fst (diag_body rds s cmd))"
proof -
  have "length (req_lines rds) \<le> 1024" "length (talker_lines rds) \<le> 32"
    using map_filter_length [of "\<lambda>i. dump_slot (rd_slot rds i)" "[0..<DIAG_RING_SIZE]"]
      map_filter_length [of "rd_talker rds" "[0..<TT_SIZE]"]
    by (simp_all add: req_lines_def talker_lines_def DIAG_RING_SIZE_def TT_SIZE_def)
  moreover have "length (net_lines rds) \<le> 1200"
    using map_filter_length [of "rd_bin rds" "[0..<NET_BINS]"]
      length_filter_le [of "\<lambda>b. \<not> net_bin_empty b" "List.map_filter (rd_bin rds) [0..<NET_BINS]"]
    unfolding net_lines_def NET_BINS_def length_map length_upt by linarith
  ultimately show ?thesis by (simp add: diag_body_def Let_def)
qed

lemma answer_lines_sized:
  assumes "diag_reads_sized rds" "l \<in> set (fst (diag_body rds s cmd) @ [end_line cmd (snd (diag_body rds s cmd))])"
  shows "length l < LINE_SIZE \<and> l \<noteq> []"
proof -
  have "length (end_line cmd (snd (diag_body rds s cmd))) < LINE_SIZE"
    using body_count [of rds s cmd] by (intro end_line_length) simp
  with body_lines [OF assms(1)] assms(2) show ?thesis by (auto simp: end_line_def)
qed

lemma answer_packs_lines:
  assumes "diag_reads_sized rds"
  shows "\<exists>datagrams groups. diag_answer rds s cmd = Some datagrams \<and> datagrams = map concat groups \<and>
    concat groups = fst (diag_body rds s cmd) @ [end_line cmd (snd (diag_body rds s cmd))] \<and>
    (\<forall>d \<in> set datagrams. d \<noteq> [] \<and> length d \<le> BATCH_SIZE)"
proof -
  let ?ls = "fst (diag_body rds s cmd) @ [end_line cmd (snd (diag_body rds s cmd))]"
  have ls: "\<forall>l \<in> set ?ls. length l < LINE_SIZE \<and> l \<noteq> []"
    using answer_lines_sized [OF assms] by blast
  then obtain b where b: "batch_all ?ls ([], []) = Some b" using batch_all_defined by blast
  have "[] \<notin> set ?ls" using ls by blast
  moreover have "\<forall>l \<in> set ?ls. length l < BATCH_SIZE"
    using ls by (fastforce simp: LINE_SIZE_def BATCH_SIZE_def)
  ultimately have "packed ?ls b"
    using batch_all_packed [OF b packed_empty] by simp
  from packed_flush [OF this refl \<open>[] \<notin> set ?ls\<close>]
  have p: "packed ?ls (batch_flush b)" "fst (batch_flush b) = []" by auto
  have a: "diag_answer rds s cmd = Some (snd (batch_flush b))"
    using b by (simp add: diag_answer_def case_prod_beta)
  from p obtain groups pending where g: "snd (batch_flush b) = map concat groups"
    "concat pending = []" "concat groups @ pending = ?ls" by (auto simp: packed_def)
  have "pending = []"
  proof (rule ccontr)
    assume "pending \<noteq> []"
    then have "hd pending \<in> set ?ls" using g(3) by (metis hd_in_set in_set_conv_decomp append_assoc set_append UnCI)
    moreover have "hd pending = []" using g(2) \<open>pending \<noteq> []\<close> by (cases pending) auto
    ultimately show False using ls by auto
  qed
  with g p a show ?thesis by (auto simp: packed_def)
qed

text \<open>The last line counts the lines before it, or gives 0 after the usage message.\<close>

lemma body_counted:
  "snd (diag_body rds s cmd) = length (fst (diag_body rds s cmd)) \<or>
    fst (diag_body rds s cmd) = [usage_line] \<and> snd (diag_body rds s cmd) = 0"
  by (simp add: diag_body_def Let_def)

lemma diag_answer_cong:
  "sv_diag_ring s' = sv_diag_ring s \<Longrightarrow> sv_short_wait_effective s' = sv_short_wait_effective s \<Longrightarrow>
   sv_int_level_recheck_ms s' = sv_int_level_recheck_ms s \<Longrightarrow> diag_answer rds s' cmd = diag_answer rds s cmd"
  by (simp only: diag_answer_def diag_body_def)

definition idle_reads :: diag_reads where
  "idle_reads = \<lparr>rd_timer_us = 1000, rd_micros = 1000, rd_wall_us = 0, rd_slot = (\<lambda>_. []),
     rd_bin = (\<lambda>_. None), rd_talker = (\<lambda>_. None), rd_int_level = None, rd_ms = 0\<rparr>"

lemma idle_reads_sized: "diag_reads_sized idle_reads"
  by (simp add: diag_reads_sized_def idle_reads_def dump_slot_def)

text \<open>Reads of a ring that nobody writes during the dump.\<close>

definition settled_slots :: "ntp_server \<Rightarrow> nat \<Rightarrow> (u32 \<times> diag_record \<times> u32) list" where
  "settled_slots s i = (case sv_diag_ring s of None \<Rightarrow> []
     | Some ring \<Rightarrow> quiet_reads (ring ! ((sv_diag_next s + i) mod DIAG_RING_SIZE)))"

lemma settled_dump:
  "sv_diag_ring s \<noteq> None \<Longrightarrow>
   List.map_filter (\<lambda>i. dump_slot (settled_slots s i)) [0..<DIAG_RING_SIZE] = dump_requests s"
  by (auto simp: dump_requests_def settled_slots_def)

lemma req_dump_on_the_wire_aux:
  assumes fresh: "sv_diag_ring s = Some (replicate DIAG_RING_SIZE diag_slot_init)" "sv_diagnostics s"
      "sv_diag_next s < DIAG_RING_SIZE"
    and ds: "\<forall>d \<in> set ds. dg_t2_us d > 0 \<and> diag_record_sized d"
    and rds: "diag_reads_sized (rds\<lparr>rd_slot := \<lambda>_. []\<rparr>)"
      "rd_slot rds = settled_slots (fold diag_record_op ds s)"
    and cmd: "is_cmd ''REQ'' cmd"
  shows "\<exists>datagrams groups. diag_answer rds (fold diag_record_op ds s) cmd = Some datagrams \<and>
    datagrams = map concat groups \<and>
    concat groups = map req_line (drop (length ds - 1024) ds) @
      [''END REQ '' @ fmt_u (min 1024 (length ds)) @ NL] \<and>
    (\<forall>d \<in> set datagrams. d \<noteq> [] \<and> length d \<le> BATCH_SIZE)"
proof -
  let ?s = "fold diag_record_op ds s"
  have "diag_ok s" using fresh by (simp add: diag_ok_def diag_slot_init_def)
  then have "diag_ok ?s" by (rule diag.fold_ok) simp
  then have ring: "sv_diag_ring ?s \<noteq> None" by (auto simp: diag_ok_def split: option.splits)
  have dump: "dump_requests ?s = drop (length ds - 1024) ds"
    using ds by (intro dump_lists_last_requests fresh) auto
  have slots: "List.map_filter (\<lambda>i. dump_slot (rd_slot rds i)) [0..<DIAG_RING_SIZE] = drop (length ds - 1024) ds"
    using settled_dump [OF ring] dump by (simp add: rds(2))
  have per: "length (req_line r) < LINE_SIZE" if "dump_slot (rd_slot rds i) = Some r" for i r
  proof -
    have "rd_slot rds i = rd_slot rds (i mod DIAG_RING_SIZE)"
      by (simp add: rds(2) settled_slots_def mod_add_right_eq split: option.split)
    then have "r \<in> set (List.map_filter (\<lambda>i. dump_slot (rd_slot rds i)) [0..<DIAG_RING_SIZE])"
      using that by (force simp: map_filter_def DIAG_RING_SIZE_def image_iff intro!: bexI [of _ "i mod 1024"])
    then show ?thesis using ds req_line_length by (auto simp: slots dest: in_set_dropD)
  qed
  have sized: "diag_reads_sized rds"
    using rds(1) per by (simp add: diag_reads_sized_def)
  have body: "diag_body rds ?s cmd = (map req_line (drop (length ds - 1024) ds), min 1024 (length ds))"
    using cmd ring slots by (auto simp: diag_body_def is_cmd_def req_lines_def Let_def)
  have kind: "kind_text cmd = ''REQ''"
    using cmd by (simp add: is_cmd_def kind_text_def)
  show ?thesis
    using answer_packs_lines [OF sized, of ?s cmd] by (simp add: body end_line_def kind)
qed

text \<open>
  C36: The request dump is the truth about the last requests, down to the bytes on the wire. From a
  freshly enabled recorder, after any requests, the answer to REQ is one line for each of the last
  1024 of them, oldest first, and then END REQ with their number, packed into datagrams in order.\<close>

theorem req_dump_on_the_wire:
  assumes fresh: "sv_diag_ring s = Some (replicate DIAG_RING_SIZE diag_slot_init)" "sv_diagnostics s"
      "sv_diag_next s < DIAG_RING_SIZE"
    and ds: "\<forall>d \<in> set ds. dg_t2_us d > 0 \<and> diag_record_sized d"
    and rds: "diag_reads_sized (rds\<lparr>rd_slot := \<lambda>_. []\<rparr>)"
      "rd_slot rds = settled_slots (fold diag_record_op ds s)"
    and cmd: "is_cmd ''REQ'' cmd"
  shows "\<exists>datagrams groups. diag_answer rds (fold diag_record_op ds s) cmd = Some datagrams \<and>
    datagrams = map concat groups \<and>
    concat groups = map req_line (drop (length ds - 1024) ds) @
      [''END REQ '' @ fmt_u (min 1024 (length ds)) @ NL] \<and>
    (\<forall>d \<in> set datagrams. d \<noteq> [] \<and> length d \<le> BATCH_SIZE)"
  using assms by (rule req_dump_on_the_wire_aux)

definition one_request :: diag_record where
  "one_request = diag_record_zero\<lparr>dg_t2_us := 5\<rparr>"

definition recording :: ntp_server where
  "recording = (ntp_server_init 123)\<lparr>sv_diag_ring := Some (replicate DIAG_RING_SIZE diag_slot_init),
     sv_diagnostics := True\<rparr>"

theorem req_dump_on_the_wire_witness:
  "\<exists>datagrams groups. diag_answer (idle_reads\<lparr>rd_slot := settled_slots (diag_record_op one_request recording)\<rparr>)
      (diag_record_op one_request recording) ''REQ'' = Some datagrams \<and> datagrams = map concat groups \<and>
    concat groups = [req_line one_request, ''END REQ 1'' @ NL]"
proof -
  have sized: "diag_record_sized one_request"
    by (simp add: diag_record_sized_def one_request_def diag_record_zero_def req_ints_def i32_ok_def
        send_class_code_def)
  have idle: "diag_reads_sized (idle_reads\<lparr>rd_slot := settled_slots (diag_record_op one_request recording), rd_slot := \<lambda>_. []\<rparr>)"
    using idle_reads_sized by (simp add: idle_reads_def)
  show ?thesis
    using req_dump_on_the_wire [of recording "[one_request]" "idle_reads\<lparr>rd_slot := settled_slots (diag_record_op one_request recording)\<rparr>" "''REQ''"]
      sized idle
    by (simp add: recording_def ntp_server_init_def DIAG_RING_SIZE_def is_cmd_def one_request_def
        fmt_u_def digits.simps hex_digit_def) blast
qed

end
