(* ===== verification/MainLoop.thy ===== *)
theory MainLoop
  imports DiagPort
begin

text \<open>
  \<open>NTPServer::loop\<close> of \<open>components/ntp_server/ntp_server.cpp\<close> as a whole: the interrupt level, the
  ARP refresh, one command of the diagnostics port and what is published, in the order of the
  code; and \<open>NTPServer::setup\<close> with its error exits.
\<close>

subsection \<open>The pass\<close>

text \<open>What a pass sends and publishes: ARP queries, the answer, sensor values.\<close>

record loop_out =
  lo_queries :: "u32 list"
  lo_answer :: "string list option"
  lo_primes :: "u32 option"
  lo_windows :: "int option list"
  lo_counts :: "(u32 \<times> u32) option"
  lo_stats :: "cmd_stats option"

definition server_loop ::
  "spi_env \<Rightarrow> (nat \<Rightarrow> u32) \<Rightarrow> netif option \<Rightarrow> (u32 \<Rightarrow> bool) \<Rightarrow> diag_io \<Rightarrow> ntp_server \<times> w5500 \<Rightarrow>
   (ntp_server \<times> w5500) \<times> loop_out" where
  "server_loop env ms nif cached io x =
     (let (s, w) = loop_int_level env ms x;
          (arp, queries) = refresh_arp_entries (ms 6) nif cached (sv_arp s);
          ((s, w), answer) = diag_serve env io (s\<lparr>sv_arp := arp\<rparr>, w);
          primes = (if ac_primes_pending (sv_arp s) then Some (ac_primes (sv_arp s)) else None);
          s = s\<lparr>sv_arp := (sv_arp s)\<lparr>ac_primes_pending := False\<rparr>\<rparr>;
          due = (ms 7 - sv_telemetry_last_ms s \<ge> 10000);
          (s, published) = loop_telemetry (ms 7) s;
          counts = (if due then Some (sv_refused s, sv_arp_waits s) else None);
          (stats, w) = (if due then map_prod Some id (w5500_take_cmd_stats w) else (None, w)) in
      ((s, w), \<lparr>lo_queries = queries, lo_answer = answer, lo_primes = primes, lo_windows = published,
        lo_counts = counts, lo_stats = stats\<rparr>))"

text \<open>The pass, taken apart.\<close>

lemma server_loop_cases:
  assumes "server_loop env ms nif cached io x = (x', out)"
  obtains s w arp q sock where "loop_int_level env ms x = (s, w)"
    "refresh_arp_entries (ms 6) nif cached (sv_arp s) = (arp, q)"
    "fst x' = fst (loop_telemetry (ms 7) (s\<lparr>sv_diag_socket := sock, sv_arp := arp\<lparr>ac_primes_pending := False\<rparr>\<rparr>))"
    "snd x' \<in> (\<lambda>w. snd (w5500_take_cmd_stats w)) ` {w, fst (w5500_read_int_level env w)} \<union>
      {w, fst (w5500_read_int_level env w)}"
    "lo_answer out = snd (diag_serve env io (s\<lparr>sv_arp := arp\<rparr>, w))"
proof -
  obtain s w where l: "loop_int_level env ms x = (s, w)" by fastforce
  obtain arp q where a: "refresh_arp_entries (ms 6) nif cached (sv_arp s) = (arp, q)" by fastforce
  obtain s2 w2 ans where d: "diag_serve env io (s\<lparr>sv_arp := arp\<rparr>, w) = ((s2, w2), ans)" by (metis prod.collapse)
  obtain sock where s2: "s2 = s\<lparr>sv_arp := arp, sv_diag_socket := sock\<rparr>"
    using diag_serve_server [of env io "s\<lparr>sv_arp := arp\<rparr>" w] by (auto simp: d)
  have w2: "w2 \<in> {w, fst (w5500_read_int_level env w)}"
    using diag_serve_chip [of env io "s\<lparr>sv_arp := arp\<rparr>" w] by (simp add: d)
  obtain s3 p where t: "loop_telemetry (ms 7) (s2\<lparr>sv_arp := (sv_arp s2)\<lparr>ac_primes_pending := False\<rparr>\<rparr>) = (s3, p)"
    by fastforce
  have "fst x' = s3" "lo_answer out = ans" "snd x' \<in> {w2, snd (w5500_take_cmd_stats w2)}"
    using assms by (auto simp: server_loop_def l a d t Let_def map_prod_def split: prod.splits if_splits)
  with t s2 w2 show ?thesis by (intro that [OF l a, of sock]) (auto simp: d)
qed

lemma level_keeps_diag:
  "sv_diagnostics (fst (loop_int_level env ms x)) = sv_diagnostics (fst x) \<and>
   sv_diag_socket (fst (loop_int_level env ms x)) = sv_diag_socket (fst x)"
proof -
  have short: "sv_diagnostics (fst (set_short_int_wait env now b x)) = sv_diagnostics (fst x) \<and>
      sv_diag_socket (fst (set_short_int_wait env now b x)) = sv_diag_socket (fst x)" for now b x
    by (simp add: set_short_int_wait_def Let_def split: prod.split)
  have "sv_diagnostics (fst (loop_boot_enable env ms x)) = sv_diagnostics (fst x) \<and>
      sv_diag_socket (fst (loop_boot_enable env ms x)) = sv_diag_socket (fst x)"
    by (cases x) (simp add: loop_boot_enable_def short)
  moreover have "sv_diagnostics (fst (loop_recheck env ms y)) = sv_diagnostics (fst y) \<and>
      sv_diag_socket (fst (loop_recheck env ms y)) = sv_diag_socket (fst y)" for y
    by (cases y) (simp add: loop_recheck_def Let_def split: prod.split)
  ultimately show ?thesis by (simp add: loop_int_level_def)
qed

subsection \<open>Set-up\<close>

text \<open>
  What \<open>setup\<close> meets: the results of \<open>socket\<close> and \<open>bind\<close>, whether the Ethernet component has a
  network interface, whether the input path could be redirected, and the two runs of clock reads.
\<close>

record setup_reads =
  su_socket :: int
  su_bound :: int
  su_netif :: bool
  su_redirected :: bool
  su_tv_deltas :: "int list"
  su_timer_deltas :: "int list"

text \<open>The socket, or \<open>None\<close> when the component marked itself failed; nothing else was touched then.\<close>

definition ntp_setup :: "setup_reads \<Rightarrow> ntp_server \<times> w5500 \<Rightarrow> int option \<times> ntp_server \<times> w5500" where
  "ntp_setup r x =
     (if su_socket r < 0 then (None, x)
      else if su_bound r < 0 then (None, x)
      else (Some (su_socket r),
        server_setup (su_netif r \<and> su_redirected r) (su_tv_deltas r) (su_timer_deltas r) x))"

lemma ntp_setup_Some:
  "ntp_setup r x = (Some fd, y) \<longleftrightarrow> 0 \<le> su_bound r \<and> 0 \<le> su_socket r \<and> fd = su_socket r \<and>
    y = server_setup (su_netif r \<and> su_redirected r) (su_tv_deltas r) (su_timer_deltas r) x"
  by (auto simp: ntp_setup_def)

end
