(* ===== verification/Server.thy ===== *)
theory Server
  imports MainLoop
begin

text \<open>
  The server as a whole: its tasks and the driver as the steps of one transition system over the
  state of the server and of the chip, what every reachable state keeps, and the path of a request
  from the frame to the reply.
\<close>

subsection \<open>Switches\<close>

definition set_use_pps_anchor :: "bool \<Rightarrow> ntp_server \<Rightarrow> ntp_server" where
  "set_use_pps_anchor enable s = s\<lparr>sv_use_pps_anchor := enable\<rparr>"

definition set_strict_rx_admission :: "bool \<Rightarrow> ntp_server \<Rightarrow> ntp_server" where
  "set_strict_rx_admission enable s = s\<lparr>sv_strict_rx_admission := enable\<rparr>"

definition set_int_edge_t2 :: "bool \<Rightarrow> ntp_server \<Rightarrow> ntp_server" where
  "set_int_edge_t2 enable s = s\<lparr>sv_int_edge_t2 := enable\<rparr>"

definition set_t2_frame_start :: "bool \<Rightarrow> ntp_server \<Rightarrow> ntp_server" where
  "set_t2_frame_start enable s = s\<lparr>sv_t2_frame_start := enable\<rparr>"

definition set_chip_latency :: "bool \<Rightarrow> ntp_server \<Rightarrow> ntp_server" where
  "set_chip_latency enable s = s\<lparr>sv_chip_latency := enable\<rparr>"

lemmas switch_defs = set_use_pps_anchor_def set_strict_rx_admission_def set_int_edge_t2_def
  set_t2_frame_start_def set_chip_latency_def

subsection \<open>Steps\<close>

text \<open>
  One step is one call of the driver's input hook, one iteration of the serving task, one pass of
  the main loop, one switch, or one action of the driver: an SPI callback or a captured interrupt
  edge. The buffer of the serving task is an array of 48 bytes.
\<close>

inductive server_step :: "ntp_server \<times> w5500 \<Rightarrow> ntp_server \<times> w5500 \<Rightarrow> bool" where
  frame: "eth_input_hook t w f s = Some (s', f') \<Longrightarrow> server_step (s, w) (s', w)"
| request: "length (rv_buffer v) = NTP_PACKET_SIZE \<Longrightarrow> recv_iteration v s = Some (o', s') \<Longrightarrow>
    server_step (s, w) (s', w)"
| pass: "server_loop env ms nif cached io x = (x', out) \<Longrightarrow> server_step x x'"
| anchor_switch: "server_step (s, w) (set_use_pps_anchor b s, w)"
| strict_switch: "server_step (s, w) (set_strict_rx_admission b s, w)"
| edge_switch: "server_step (s, w) (set_int_edge_t2 b s, w)"
| start_switch: "server_step (s, w) (set_t2_frame_start b s, w)"
| latency_switch: "server_step (s, w) (set_chip_latency b s, w)"
| short_switch: "server_step x (set_short_int_wait env now b x)"
| diag_switch: "server_step x (set_diagnostics b ring_alloc net_alloc x)"
| patch_switch: "server_step (s, w) (s, set_post_write_t3 b s w)"
| spi_write: "server_step (s, w) (s, fst (w5500_custom_spi_write env call fn cmd addr data w))"
| spi_read: "server_step (s, w) (s, fst (w5500_custom_spi_read env call cmd addr data w))"
| edge: "server_step (s, w) (s, int_capture_cb now w)"

inductive server_reachable :: "u16 \<Rightarrow> ntp_server \<times> w5500 \<Rightarrow> bool" for port where
  start: "ntp_setup r (ntp_server_init port, w5500_init) = (Some fd, x) \<Longrightarrow> server_reachable port x"
| step: "server_reachable port x \<Longrightarrow> server_step x x' \<Longrightarrow> server_reachable port x'"

inductive_cases server_stepE: "server_step x x'"

lemma reachable_setup:
  "server_reachable port (server_setup installed tv_deltas timer_deltas (ntp_server_init port, w5500_init))"
  by (rule server_reachable.start [of "\<lparr>su_socket = 3, su_bound = 0, su_netif = True, su_redirected = installed,
      su_tv_deltas = tv_deltas, su_timer_deltas = timer_deltas\<rparr>" port 3])
    (simp add: ntp_setup_Some)

subsection \<open>The invariant\<close>

definition delay_ok :: "patch_delay_estimator \<Rightarrow> bool" where
  "delay_ok e \<longleftrightarrow> 10 \<le> pd_estimate_us e \<and> pd_estimate_us e \<le> 500"

definition server_inv :: "ntp_server \<Rightarrow> bool" where
  "server_inv s \<longleftrightarrow> est_ok (sv_send_estimator s) \<and> delay_ok (sv_patch_delay s) \<and> clients_ok (sv_arp s) \<and>
     hr_ok (sv_hook_ring s) \<and> diag_safe s"

text \<open>The fields the invariant reads.\<close>

definition inv_fields :: "ntp_server \<Rightarrow> (send_estimator \<times> patch_delay_estimator \<times> arp_clients) \<times>
    hook_ring \<times> diag_slot list option \<times> nat" where
  "inv_fields s = ((sv_send_estimator s, sv_patch_delay s, sv_arp s), sv_hook_ring s, sv_diag_ring s,
     sv_diag_next s)"

lemma server_inv_cong: "inv_fields s' = inv_fields s \<Longrightarrow> server_inv s' = server_inv s"
  by (simp add: inv_fields_def server_inv_def diag_safe_def)

lemma delay_ok_learn: "delay_ok e \<Longrightarrow> delay_ok (pd_learn us e)"
  using shift_step_hull [of "pd_estimate_us e" us] by (auto simp: delay_ok_def pd_learn_def pd_consts)

lemma taught_ok: "est_ok e \<Longrightarrow> est_ok (taught b t0 t1 a e)" "delay_ok p \<Longrightarrow> delay_ok (taught_delay b a p)"
  by (simp_all add: taught_def taught_delay_def learn_est_ok learn_fallback_est_ok delay_ok_learn)

lemma refine_inv_fields:
  "inv_fields (fst (note_edge ist st x)) = inv_fields (fst x)"
  "inv_fields (fst (refine_size_read t len st x)) = inv_fields (fst x)"
  "inv_fields (fst (refine_int_edge t ist x)) = inv_fields (fst x)"
  "inv_fields (fst (refine_frame_start len x)) = inv_fields (fst x)"
  "inv_fields (fst (refine_chip_latency x)) = inv_fields (fst x)"
  by (cases x; simp add: step_defs Let_def inv_fields_def)+

lemma date_inv_fields: "inv_fields (fst (date_request t len ist st s)) = inv_fields s"
  by (simp add: date_request_def refine_inv_fields)

lemma hook_inv:
  assumes "server_inv s" "eth_input_hook t w f s = Some (s', f')"
  shows "server_inv s'"
proof (cases "find_request (sv_port s) f")
  case None
  with assms show ?thesis using find_request_total [of "sv_port s" f] by auto
next
  case (Some r)
  show ?thesis
  proof (cases r)
    case None
    with assms Some show ?thesis by (simp add: eth_input_hook_eq)
  next
    case (Some un)
    obtain u n where un: "find_request (sv_port s) f = Some (Some (u, n))"
      using Some \<open>find_request (sv_port s) f = Some r\<close> by (cases un) simp
    obtain s1 info where d: "date_request t (length f) (w5500_int_stamp w) (w5500_rx_stamps w) s = (s1, info)"
      by fastforce
    define key where "key = build_key (take 8 (drop (n + 40) f)) (of_mem32 (take 4 (drop 26 f))) (of_mem16 (take 2 (drop u f)))"
    have s': "s' = s1\<lparr>sv_hook_ring := hr_write (key, info) (sv_hook_ring s1)\<rparr>"
      using assms(2) by (auto simp: eth_input_hook_eq un d hr_record_def key_def)
    have s1: "server_inv s1"
      using assms(1) date_inv_fields [of t "length f" "w5500_int_stamp w" "w5500_rx_stamps w" s]
        server_inv_cong [of s1 s] by (simp add: d)
    have "n + 48 \<le> length f" using find_request_found [OF un] by blast
    then have "length (take 8 (drop (n + 40) f)) = 8" by simp
    then have "hr_ok (hr_write (key, info) (sv_hook_ring s1))"
      using s1 by (intro hr_write_ok) (simp_all add: server_inv_def key_def length_build_key)
    with s1 show ?thesis by (simp add: s' server_inv_def diag_safe_def)
  qed
qed

lemma parts_inv:
  assumes "server_inv s" "settings s' = settings s" "est_ok (fst (estimators s'))"
    "delay_ok (snd (estimators s'))" "clients_ok (sv_arp s')" "diag_safe s'"
  shows "server_inv s'"
  using assms by (simp add: server_inv_def settings_def estimators_def)

lemma recv_inv:
  assumes "server_inv s" "recv_iteration v s = Some (o', s')"
  shows "server_inv s'"
proof -
  let ?s = "fst (note_latency v (hook_answer v s) s)"
  have i: "est_ok (fst (estimators s))" "delay_ok (snd (estimators s))" "clients_ok (sv_arp s)" "diag_safe s"
    using assms(1) by (simp_all add: server_inv_def estimators_def)
  have n: "settings ?s = settings s" "estimators ?s = estimators s" "counters ?s = counters s"
    "diag_safe ?s"
    using note_latency_parts [of v "hook_answer v s" s] diag_safe_keeps(1) i(4) by simp_all
  have arp: "sv_arp ?s = sv_arp s" using n(3) by (simp add: counters_def)
  from assms(2) show ?thesis
  proof (cases rule: recv_iteration_cases)
    case 3
    with n i arp show ?thesis by (intro parts_inv [OF assms(1)]) simp_all
  next
    case (4 diag)
    have "counters s' = (sv_refused ?s + 1, sv_arp_waits ?s, sv_arp ?s)" using 4(5) refuse_parts(3) by simp
    then have "sv_arp s' = sv_arp s" using arp by (simp add: counters_def)
    with 4(5) n i show ?thesis
      by (intro parts_inv [OF assms(1)]) (simp_all add: refuse_parts refuse_safe)
  next
    case (5 diag)
    have l: "est_ok (fst (learned_estimators v ?s))" "delay_ok (snd (learned_estimators v ?s))"
      using i n(2) by (simp_all add: learned_estimators_def estimators_def taught_ok)
    from 5(4) show ?thesis
      by (cases rule: serve_admitted_cases)
        (rule parts_inv [OF assms(1)]; use n i l arp in \<open>simp add: note_arp_client_ok\<close>)+
  qed (use assms(1) in simp_all)
qed

lemma refresh_slots:
  "ac_slots (fst (refresh_arp_entries now nif cached a)) = ac_slots a"
  "ac_next (fst (refresh_arp_entries now nif cached a)) = ac_next a"
  by (simp_all add: refresh_arp_entries_def Let_def split: option.split)

lemma clients_ok_cong: "ac_slots a' = ac_slots a \<Longrightarrow> ac_next a' = ac_next a \<Longrightarrow> clients_ok a' = clients_ok a"
  by (simp add: clients_ok_def arp_ok_def)

lemma level_inv_fields:
  "inv_fields (fst (set_short_int_wait env now b x)) = inv_fields (fst x)"
  "inv_fields (fst (loop_boot_enable env ms x)) = inv_fields (fst x)"
  "inv_fields (fst (loop_recheck env ms x)) = inv_fields (fst x)"
proof -
  have short: "inv_fields (fst (set_short_int_wait env now b x)) = inv_fields (fst x)" for now b x
    by (simp add: set_short_int_wait_def Let_def inv_fields_def split: prod.split)
  then show "inv_fields (fst (set_short_int_wait env now b x)) = inv_fields (fst x)" .
  show "inv_fields (fst (loop_boot_enable env ms x)) = inv_fields (fst x)"
    by (cases x) (simp add: loop_boot_enable_def short, simp add: inv_fields_def)
  show "inv_fields (fst (loop_recheck env ms x)) = inv_fields (fst x)"
    by (cases x) (simp add: loop_recheck_def Let_def inv_fields_def split: prod.split)
qed

lemma telemetry_inv_fields: "inv_fields (fst (loop_telemetry now s)) = inv_fields s"
  by (simp add: loop_telemetry_def Let_def inv_fields_def split: prod.split)

lemma loop_inv:
  assumes "server_inv (fst x)" "server_loop env ms nif cached io x = (x', out)"
  shows "server_inv (fst x')"
proof -
  from assms(2) obtain s w a q sock where l: "loop_int_level env ms x = (s, w)"
    and a: "refresh_arp_entries (ms 6) nif cached (sv_arp s) = (a, q)"
    and x': "fst x' = fst (loop_telemetry (ms 7) (s\<lparr>sv_diag_socket := sock, sv_arp := a\<lparr>ac_primes_pending := False\<rparr>\<rparr>))"
    by (rule server_loop_cases)
  define s1 where "s1 = s\<lparr>sv_diag_socket := sock, sv_arp := a\<lparr>ac_primes_pending := False\<rparr>\<rparr>"
  have "inv_fields (fst (loop_int_level env ms x)) = inv_fields (fst x)"
    by (simp add: loop_int_level_def level_inv_fields)
  then have s: "server_inv s" using assms(1) server_inv_cong [of s "fst x"] by (simp add: l)
  have "clients_ok (a\<lparr>ac_primes_pending := False\<rparr>)"
    using s refresh_slots [of "ms 6" nif cached "sv_arp s"]
    by (simp add: a server_inv_def clients_ok_def arp_ok_def)
  with s have "server_inv s1" by (simp add: s1_def server_inv_def diag_safe_def)
  then show ?thesis
    using telemetry_inv_fields [of "ms 7" s1] server_inv_cong [of "fst x'" s1] by (simp add: x' s1_def)
qed

lemma set_diagnostics_inv:
  assumes "server_inv (fst x)"
  shows "server_inv (fst (set_diagnostics b ring_alloc net_alloc x))"
proof -
  obtain s w where x: "x = (s, w)" by fastforce
  have "diag_safe (s\<lparr>sv_diag_ring := Some (replicate DIAG_RING_SIZE diag_slot_init)\<rparr>)"
    using assms by (simp add: x server_inv_def diag_safe_def diag_slot_init_def)
  with assms have i: "server_inv (s\<lparr>sv_diag_ring := Some (replicate DIAG_RING_SIZE diag_slot_init)\<rparr>)" "server_inv s"
    by (simp_all add: x server_inv_def)
  have e: "server_inv (t\<lparr>sv_diagnostics := e\<rparr>) = server_inv t" for t e
    by (rule server_inv_cong) (simp add: inv_fields_def)
  show ?thesis using i by (simp add: x set_diagnostics_def Let_def e)
qed

lemma setup_inv:
  "server_inv (fst (server_setup installed tv_deltas timer_deltas (ntp_server_init port, w)))"
proof -
  have "clients_ok arp_clients_init"
    by (simp add: clients_ok_def arp_ok_def arp_clients_init_def ARP_CLIENT_SLOTS_def)
  moreover have "est_ok send_estimator_init"
    by (simp add: est_ok_def run_ok_def send_estimator_init_def send_consts)
  ultimately show ?thesis
    using hr_ok_init
    by (simp add: server_setup_def server_inv_def ntp_server_init_def delay_ok_def patch_delay_init_def
        pd_consts diag_safe_def DIAG_RING_SIZE_def)
qed

lemma switch_inv:
  "server_inv s \<Longrightarrow> server_inv (set_use_pps_anchor b s)"
  "server_inv s \<Longrightarrow> server_inv (set_strict_rx_admission b s)"
  "server_inv s \<Longrightarrow> server_inv (set_int_edge_t2 b s)"
  "server_inv s \<Longrightarrow> server_inv (set_t2_frame_start b s)"
  "server_inv s \<Longrightarrow> server_inv (set_chip_latency b s)"
  by (simp_all add: switch_defs server_inv_def diag_safe_def)

lemma server_step_inv:
  assumes "server_step x x'" "server_inv (fst x)"
  shows "server_inv (fst x')"
  using assms
  by (cases rule: server_stepE)
    (auto intro: hook_inv recv_inv loop_inv switch_inv set_diagnostics_inv
      simp: server_inv_cong [OF level_inv_fields(1)])

lemma server_reachable_inv: "server_reachable port x \<Longrightarrow> server_inv (fst x)"
  by (induction rule: server_reachable.induct) (auto simp: ntp_setup_Some setup_inv intro: server_step_inv)

subsection \<open>From the frame to the reply\<close>

text \<open>The datagram the network stack delivers for a frame, as \<open>recvfrom\<close> returns it.\<close>

definition delivers :: "u8 list \<Rightarrow> nat \<Rightarrow> nat \<Rightarrow> recv_reads \<Rightarrow> bool" where
  "delivers f u n v \<longleftrightarrow> rv_received v = 48 \<and> rv_buffer v = take 48 (drop n f) \<and>
     rv_ip v = of_mem32 (take 4 (drop 26 f)) \<and> rv_port v = of_mem16 (take 2 (drop u f))"

lemma request_bytes:
  assumes "find_request port f = Some (Some (u, n))" "delivers f u n v"
  shows "length (rv_buffer v) = 48" "take 8 (drop 40 (rv_buffer v)) = take 8 (drop (n + 40) f)"
proof -
  have n: "n + 48 \<le> length f" using find_request_found [OF assms(1)] by blast
  have v: "rv_buffer v = take 48 (drop n f)" using assms(2) by (simp add: delivers_def)
  show "length (rv_buffer v) = 48" using n by (simp add: v)
  show "take 8 (drop 40 (rv_buffer v)) = take 8 (drop (n + 40) f)"
    by (simp add: v drop_take add.commute)
qed

lemma reply_on_anchor:
  assumes "length request = 48" "sv_use_pps_anchor s" "rp_anchor r = Some a" "rp_clock_us r = built"
    "pa_micros a = to_u32 pps" "pps \<le> built" "built \<le> pps + 2000000"
    "b = fst (build_ntp_response request rts r s)"
  shows "reply_time 32 b = rts" "field_at 24 8 b = take 8 (drop 40 request)"
    "reply_time 40 b = micros_epoch_to_ntp_timestamp
      (pa_epoch a * 1000000 + undrift (built - pps) (pa_drift_ppb a) + t3_offset_us s)"
proof -
  obtain b' s' where b: "build_ntp_response request rts r s = (b', s')" by fastforce
  have t: "get_ntp_timestamp (sv_use_pps_anchor s) (rp_anchor r) (t3_offset_us s) (rp_clock_us r) (rp_tv r)
      (rp_clock2_us r) = (micros_epoch_to_ntp_timestamp (pa_epoch a * 1000000 +
        undrift (built - pps) (pa_drift_ppb a) + t3_offset_us s), built)"
    using assms(2-7) get_on_anchor [OF assms(5-7)] by simp
  from reply_fields [OF assms(1) b t] assms(8) b
  show "reply_time 32 b = rts" "field_at 24 8 b = take 8 (drop 40 request)"
    "reply_time 40 b = micros_epoch_to_ntp_timestamp
      (pa_epoch a * 1000000 + undrift (built - pps) (pa_drift_ppb a) + t3_offset_us s)"
    by (simp_all add: reply_time_def field_at_def decode_be32)
qed

text \<open>
  A request on its way in: the frame is one, its interrupt edge was captured at \<open>edge\<close> and not used
  before, its read burst started at \<open>burst\<close>, the driver hands it over at \<open>t\<close>, and the serving task
  receives it within a second, with the source synchronised and the next hop known.
\<close>

definition arrival_instant :: "u8 list \<Rightarrow> int \<Rightarrow> int" where
  "arrival_instant f edge = edge - int ((length f + 4) * 80 div 1000) - 17"

definition request_captured ::
  "ntp_server \<Rightarrow> w5500 \<Rightarrow> u8 list \<Rightarrow> nat \<Rightarrow> nat \<Rightarrow> int \<Rightarrow> int \<Rightarrow> int \<Rightarrow> recv_reads \<Rightarrow> bool" where
  "request_captured s w f u n edge burst t v \<longleftrightarrow>
     find_request (sv_port s) f = Some (Some (u, n)) \<and> length f \<le> 1522 \<and>
     sv_int_edge_t2 s \<and> sv_t2_frame_start s \<and> sv_chip_latency s \<and> sv_use_pps_anchor s \<and>
     w_int_edge_seq w \<noteq> 0 \<and> w_int_edge_seq w \<noteq> sv_last_int_edge_seq_for_t2 s \<and>
     w_int_edge_us w = to_u32 edge \<and> w_burst_start_us w = to_u32 burst \<and> to_u32 burst \<noteq> 0 \<and>
     0 < burst - edge \<and> burst - edge < 200 \<and> 0 < t - edge \<and> t - edge < 2000000 \<and>
     build_key (take 8 (drop (n + 40) f)) (rv_ip v) (rv_port v) \<notin> fst ` set (hr_slots (sv_hook_ring s)) \<and>
     delivers f u n v \<and> rv_lookup_now_us v - arrival_instant f edge \<le> 1000000 \<and>
     is_time_synchronized (rv_check_ms v) (rv_check_src v) \<and> rv_arp_lookup v 0"

lemma request_end_to_end_aux:
  assumes "server_reachable port (s, w)" "find_request (sv_port s) f = Some (Some (u, n))" "length f \<le> 1522"
    and "sv_int_edge_t2 s" "sv_t2_frame_start s" "sv_chip_latency s" "sv_use_pps_anchor s"
    and "w_int_edge_seq w \<noteq> 0" "w_int_edge_seq w \<noteq> sv_last_int_edge_seq_for_t2 s"
    and "w_int_edge_us w = to_u32 edge" "w_burst_start_us w = to_u32 burst" "to_u32 burst \<noteq> 0"
    and "0 < burst - edge" "burst - edge < 200" "0 < t - edge" "t - edge < 2000000"
    and "build_key (take 8 (drop (n + 40) f)) (rv_ip v) (rv_port v) \<notin> fst ` set (hr_slots (sv_hook_ring s))"
    and "delivers f u n v" "t2 = edge - int ((length f + 4) * 80 div 1000) - 17"
    and "rv_lookup_now_us v - t2 \<le> 1000000" "is_time_synchronized (rv_check_ms v) (rv_check_src v)"
    and "rv_arp_lookup v 0"
    and "ck_anchor (rv_at_hook v) = Some a" "rp_anchor (rv_reply v) = Some a" "rp_clock_us (rv_reply v) = built"
    and "pa_micros a = to_u32 pps" "pps \<le> t2" "t2 \<le> built" "built \<le> pps + 2000000"
  shows "\<exists>s1 b s'. eth_input_hook t w f s = Some (s1, f) \<and> recv_iteration v s1 = Some (Served b, s') \<and>
    field_at 24 8 b = take 8 (drop (n + 40) f) \<and>
    (let served = (\<lambda>i. pa_epoch a * 1000000 + undrift (i - pps) (pa_drift_ppb a)) in
      reply_time 32 b = micros_epoch_to_ntp_timestamp (served t2) \<and>
      reply_time 40 b = micros_epoch_to_ntp_timestamp (served built + t3_offset_us s) \<and>
      served t2 \<le> served built + t3_offset_us s)"
proof -
  have inv: "server_inv s" using server_reachable_inv [OF assms(1)] by simp
  obtain s1 info where hook: "eth_input_hook t w f s = Some (s1, f)"
    "sv_hook_ring s1 = hr_record (take 8 (drop (n + 40) f)) (rv_ip v) (rv_port v) info (sv_hook_ring s)"
    "hi_t info = t2" "hi_edge_usable info" "hi_lead_us info < 200" "serving_fields s1 = serving_fields s"
    using edge_dates_aux [OF assms(2-6,8-16)] assms(14,18,19) by (auto simp: delivers_def)
  note bytes = request_bytes [OF assms(2,18)]
  have "length (take 8 (drop (n + 40) f)) = 8" using bytes by (simp flip: bytes(2))
  then have ans: "hook_answer v s1 = Some info"
    unfolding hook_answer_def bytes(2) hook(2) using inv assms(17,20) hook(3)
    by (intro hr_lookup_own) (simp_all add: server_inv_def MAX_AGE_US_def)
  have adm: "admission (hook_answer v s1) s1 = REFUSE_NONE"
    using hook(4,5) by (simp add: admission_def ans rx_admission_def rx_consts Let_def)
  have "48 \<le> rv_received v" using assms(18) by (simp add: delivers_def)
  from recv_serves [OF this assms(21) adm disjI2, OF assms(22)]
  obtain b s' where served: "recv_iteration v s1 = Some (Served b, s')" by blast
  have f: "sv_use_pps_anchor s1" "t3_offset_us s1 = t3_offset_us s"
    using hook(6) assms(7) by (simp_all add: serving_fields_def t3_offset_us_def)
  define rts where "rts = receive_time v (hook_answer v s1) s1"
  have t2: "pps \<le> t2" "t2 \<le> pps + 2000000" using assms(27-29) by simp_all
  have rts: "rts = micros_epoch_to_ntp_timestamp (pa_epoch a * 1000000 + undrift (t2 - pps) (pa_drift_ppb a))"
    unfolding rts_def using hook_on_anchor [OF assms(26) t2] assms(23) f(1)
    by (simp add: receive_time_def ans hook(3) Let_def)
  have b: "b = fst (build_ntp_response (rv_buffer v) rts (rv_reply v) s1)"
    using served_reply [OF served] by (simp add: rts_def)
  have "pps \<le> built" using t2 assms(28) by simp
  from reply_on_anchor [OF bytes(1) f(1) assms(24,25,26) this assms(29) b] f(2) bytes(2) rts
  have r: "field_at 24 8 b = take 8 (drop (n + 40) f)"
    "reply_time 32 b = micros_epoch_to_ntp_timestamp (pa_epoch a * 1000000 + undrift (t2 - pps) (pa_drift_ppb a))"
    "reply_time 40 b = micros_epoch_to_ntp_timestamp
      (pa_epoch a * 1000000 + undrift (built - pps) (pa_drift_ppb a) + t3_offset_us s)" by simp_all
  have "undrift (t2 - pps) (pa_drift_ppb a) \<le> undrift (built - pps) (pa_drift_ppb a)"
    using t2 assms(28) by (intro undrift_mono) auto
  moreover have "0 \<le> t3_offset_us s"
    using inv by (simp add: server_inv_def est_ok_def t3_offset_us_def W5500_TX_STAMP_EARLY_US_def)
  ultimately show ?thesis using hook(1) served r by (auto simp: Let_def)
qed

lemma captured_request_served:
  assumes "server_reachable port (s, w)" and c: "request_captured s w f u n edge burst t v"
    and "ck_anchor (rv_at_hook v) = Some a" "rp_anchor (rv_reply v) = Some a" "rp_clock_us (rv_reply v) = built"
    and "pa_micros a = to_u32 pps" "pps \<le> arrival_instant f edge" "arrival_instant f edge \<le> built" "built \<le> pps + 2000000"
  shows "\<exists>s1 b s'. eth_input_hook t w f s = Some (s1, f) \<and> recv_iteration v s1 = Some (Served b, s') \<and>
    field_at 24 8 b = take 8 (drop (n + 40) f) \<and>
    (let served = (\<lambda>i. pa_epoch a * 1000000 + undrift (i - pps) (pa_drift_ppb a)) in
      reply_time 32 b = micros_epoch_to_ntp_timestamp (served (arrival_instant f edge)) \<and>
      reply_time 40 b = micros_epoch_to_ntp_timestamp (served built + t3_offset_us s) \<and>
      served (arrival_instant f edge) \<le> served built + t3_offset_us s)"
  using c unfolding request_captured_def
  by (elim conjE) (rule request_end_to_end_aux [OF assms(1) _ _ _ _ _ _ _ _ _ _ _ _ _ _ _ _ _ arrival_instant_def _ _ _ assms(3-9)])

text \<open>
  C2: From the wire to the reply. In any reachable state with the corrections on, let a request
  come in whose interrupt edge was captured at \<open>edge\<close>, less than 200 us before its read burst,
  under a key the hook ring does not hold. When the serving task receives it within a second, the
  source being synchronised and the next hop known, it is answered; the reply carries the
  client's transmit timestamp from the frame as its origin, its receive time is the anchor's time
  at the edge minus the frame's duration minus 17 us, its transmit time the anchor's time at the
  clock read plus the prediction, and the two are in order.
\<close>

theorem request_end_to_end:
  assumes "server_reachable port (s, w)" "find_request (sv_port s) f = Some (Some (u, n))" "length f \<le> 1522"
    and "sv_int_edge_t2 s" "sv_t2_frame_start s" "sv_chip_latency s" "sv_use_pps_anchor s"
    and "w_int_edge_seq w \<noteq> 0" "w_int_edge_seq w \<noteq> sv_last_int_edge_seq_for_t2 s"
    and "w_int_edge_us w = to_u32 edge" "w_burst_start_us w = to_u32 burst" "to_u32 burst \<noteq> 0"
    and "0 < burst - edge" "burst - edge < 200" "0 < t - edge" "t - edge < 2000000"
    and "build_key (take 8 (drop (n + 40) f)) (rv_ip v) (rv_port v) \<notin> fst ` set (hr_slots (sv_hook_ring s))"
    and "delivers f u n v" "t2 = edge - int ((length f + 4) * 80 div 1000) - 17"
    and "rv_lookup_now_us v - t2 \<le> 1000000" "is_time_synchronized (rv_check_ms v) (rv_check_src v)"
    and "rv_arp_lookup v 0"
    and "ck_anchor (rv_at_hook v) = Some a" "rp_anchor (rv_reply v) = Some a" "rp_clock_us (rv_reply v) = built"
    and "pa_micros a = to_u32 pps" "pps \<le> t2" "t2 \<le> built" "built \<le> pps + 2000000"
  shows "\<exists>s1 b s'. eth_input_hook t w f s = Some (s1, f) \<and> recv_iteration v s1 = Some (Served b, s') \<and>
    field_at 24 8 b = take 8 (drop (n + 40) f) \<and>
    (let served = (\<lambda>i. pa_epoch a * 1000000 + undrift (i - pps) (pa_drift_ppb a)) in
      reply_time 32 b = micros_epoch_to_ntp_timestamp (served t2) \<and>
      reply_time 40 b = micros_epoch_to_ntp_timestamp (served built + t3_offset_us s) \<and>
      served t2 \<le> served built + t3_offset_us s)"
  by (rule request_end_to_end_aux [OF assms])

text \<open>The example: the state after set-up, one captured edge and the first read of its burst.\<close>

definition edge_then_read :: "w5500 \<Rightarrow> w5500" where
  "edge_then_read w = fst (w5500_custom_spi_read (failing (\<lambda>_. True))
     (sample_call\<lparr>sc_now_us := to_u32 4294966020, sc_start_us := to_u32 4294966021\<rparr>)
     REG_SN_RX_RSR CTRL_S0_REG_READ [0, 92] (int_capture_cb (to_u32 4294966000) w))"

definition wire_request :: "u8 list" where
  "wire_request = sample_request [1, 2, 3, 4, 5, 6, 7, 8]"

definition wire_reads :: recv_reads where
  "wire_reads = (let a = \<lparr>pa_epoch = 1800000000, pa_micros = to_u32 4294900000, pa_drift_ppb = 8500\<rparr>;
      g = gps_init\<lparr>gp_pps_synced := True, gp_last_gps_epoch := 1800000000\<rparr> in
    example_reads\<lparr>rv_buffer := take 48 (drop 42 wire_request), rv_ip := 0x0501A8C0, rv_port := 0x8813,
      rv_lookup_now_us := 4294966500, rv_at_hook := (rv_at_hook example_reads)\<lparr>ck_anchor := Some a\<rparr>,
      rv_reply := (rv_reply example_reads)\<lparr>rp_anchor := Some a, rp_clock_us := 4294967800\<rparr>\<rparr>)"

lemma wire_captured:
  "\<exists>s w. server_reachable 123 (s, w) \<and> (\<forall>c r. request_captured s w wire_request 34 42 4294966000
     4294966020 4294966400 (wire_reads\<lparr>rv_at_hook := c, rv_reply := r\<rparr>))"
proof -
  obtain s w0 where x: "server_setup True [] [] (ntp_server_init 123, w5500_init) = (s, w0)" by fastforce
  have s: "s = (ntp_server_init 123)\<lparr>sv_hooked := True, sv_precision := clock_precision (best_read_cost []),
      sv_precision_anchor := clock_precision (best_read_cost [])\<rparr>"
    and w0: "w_int_edge_seq w0 = 0" "w_last_txn_us w0 = 0" "w_cr_pending w0 = False"
    using x by (auto simp: server_setup_def set_post_write_t3_def w5500_set_tx_patch_def w5500_init_def)
  have "server_reachable 123 (s, w0)" using reachable_setup [of 123 True "[]" "[]"] by (simp add: x)
  then have "server_reachable 123 (s, int_capture_cb (to_u32 4294966000) w0)"
    using server_step.edge by (rule server_reachable.step)
  then have reach: "server_reachable 123 (s, edge_then_read w0)"
    unfolding edge_then_read_def using server_step.spi_read by (rule server_reachable.step)
  have w: "w_int_edge_seq (edge_then_read w0) = 1" "w_int_edge_us (edge_then_read w0) = to_u32 4294966000"
    "w_burst_start_us (edge_then_read w0) = to_u32 4294966020"
    using w0 by (simp_all add: edge_then_read_def w5500_custom_spi_read_def note_read_transaction_def
        int_capture_cb_def spi_transfer_def failing_def sample_call_def w5500_consts to_u32_def Let_def)
  have f: "find_request 123 wire_request = Some (Some (34, 42))" by code_simp
  have l: "length wire_request \<le> 1522" "int ((length wire_request + 4) * 80 div 1000) = 7"
    "take 8 (drop (42 + 40) wire_request) = [1, 2, 3, 4, 5, 6, 7, 8]"
    "of_mem32 (take 4 (drop 26 wire_request)) = 0x0501A8C0" "of_mem16 (take 2 (drop 34 wire_request)) = 0x8813"
    by code_simp+
  have v: "rv_received wire_reads = 48" "rv_buffer wire_reads = take 48 (drop 42 wire_request)"
    "rv_ip wire_reads = 0x0501A8C0" "rv_port wire_reads = 0x8813" "rv_lookup_now_us wire_reads = 4294966500"
    "rv_arp_lookup wire_reads 0" "rp_clock_us (rv_reply wire_reads) = 4294967800"
    "ck_anchor (rv_at_hook wire_reads) = Some \<lparr>pa_epoch = 1800000000, pa_micros = to_u32 4294900000, pa_drift_ppb = 8500\<rparr>"
    "rp_anchor (rv_reply wire_reads) = Some \<lparr>pa_epoch = 1800000000, pa_micros = to_u32 4294900000, pa_drift_ppb = 8500\<rparr>"
    "is_time_synchronized (rv_check_ms wire_reads) (rv_check_src wire_reads)"
    by (simp_all add: wire_reads_def example_reads_def Let_def is_time_synchronized_def is_synchronized_def
        gps_init_def PPS_TIMEOUT_MS_def)
  have sw: "sv_port s = 123" "sv_int_edge_t2 s" "sv_t2_frame_start s" "sv_chip_latency s" "sv_use_pps_anchor s"
    "sv_last_int_edge_seq_for_t2 s = 0" "sv_hook_ring s = hook_ring_init"
    by (simp_all add: s ntp_server_init_def)
  have k: "build_key [1, 2, 3, 4, 5, 6, 7, 8] 0x0501A8C0 0x8813 \<notin> fst ` set (hr_slots hook_ring_init)"
    by (simp add: hr_slots_def hook_ring_init_def hook_entry_init_def build_key_def KEY_SIZE_def
        HOOK_SIZE_def numeral_eq_Suc)
  have "request_captured s (edge_then_read w0) wire_request 34 42 4294966000 4294966020 4294966400
      (wire_reads\<lparr>rv_at_hook := c, rv_reply := r\<rparr>)" for c r
    using f l w v sw k by (simp add: request_captured_def arrival_instant_def delivers_def to_u32_def)
  with reach show ?thesis by blast
qed

theorem request_end_to_end_witness:
  "\<exists>s w s1 b s'. server_reachable 123 (s, w) \<and>
     eth_input_hook 4294966400 w wire_request s = Some (s1, wire_request) \<and>
     recv_iteration wire_reads s1 = Some (Served b, s') \<and> field_at 24 8 b = [1, 2, 3, 4, 5, 6, 7, 8]"
proof -
  obtain s w where reach: "server_reachable 123 (s, w)"
    and "\<forall>c r. request_captured s w wire_request 34 42 4294966000 4294966020 4294966400
       (wire_reads\<lparr>rv_at_hook := c, rv_reply := r\<rparr>)" using wire_captured by blast
  from spec [OF spec [OF this(2), of "rv_at_hook wire_reads"], of "rv_reply wire_reads"]
  have c: "request_captured s w wire_request 34 42 4294966000 4294966020 4294966400 wire_reads" by simp
  have l: "arrival_instant wire_request 4294966000 = 4294965976"
    "take 8 (drop (42 + 40) wire_request) = [1, 2, 3, 4, 5, 6, 7, 8]" by code_simp+
  have v: "rp_clock_us (rv_reply wire_reads) = 4294967800"
    "ck_anchor (rv_at_hook wire_reads) = Some \<lparr>pa_epoch = 1800000000, pa_micros = to_u32 4294900000, pa_drift_ppb = 8500\<rparr>"
    "rp_anchor (rv_reply wire_reads) = Some \<lparr>pa_epoch = 1800000000, pa_micros = to_u32 4294900000, pa_drift_ppb = 8500\<rparr>"
    by (simp_all add: wire_reads_def Let_def)
  show ?thesis
    using request_end_to_end [OF reach, of wire_request 34 42 4294966000 4294966020 4294966400 wire_reads
        4294965976 "\<lparr>pa_epoch = 1800000000, pa_micros = to_u32 4294900000, pa_drift_ppb = 8500\<rparr>"
        4294967800 4294900000] reach c [unfolded request_captured_def] l v
    by (simp add: arrival_instant_def) blast
qed

subsection \<open>The reply as it leaves the chip\<close>

lemma patched_frame_t3:
  assumes "udp_start f + 56 \<le> length f" "length t3 = 8"
  shows "field_at (udp_start f + 48) 8 (patched_frame f t3) = t3"
  using assms by (simp add: patched_frame_def Let_def put_get put_other)

text \<open>
  C10: The transmit time on the wire is the predicted instant of the SEND. Let the chip hold a reply
  of ours and the SEND command come with the server's callback registered. When the callback finds
  the source synchronised on the anchor and the reply is reported as patched, the frame in the
  chip's memory carries as transmit time the anchor's time at the callback's instant plus the
  learned delay, and 57 us with the chip's latency corrected; when it does not, the frame goes out
  as it was built.
\<close>

theorem wire_transmit_time:
  assumes "w_patch_fn w" "w_frame_started w" "w_hdr w = take 128 f"
    and "is_ntp_reply (take 128 f) (w_patch_port w)" "length f \<le> 16384" "frame_in_chip w (length f) = f"
    and "sc_patch_us call = to_u32 patched" "\<bar>esp_now - patched\<bar> < 2147483648" "sv_use_pps_anchor s"
    and "pa_micros a = to_u32 pps"
    and "offset = pd_estimate_us (sv_patch_delay s) + (if sv_chip_latency s then 57 else 0)"
    and "pps \<le> patched + offset" "patched + offset \<le> pps + 2000000"
  shows "let w' = on_send env call (\<lambda>now. build_patch_t3 now now_ms src esp_now (Some a) tv c2 s) w;
             f' = frame_in_chip w' (length f) in
    (if is_time_synchronized now_ms src
     then w_patched w' \<longrightarrow> reply_time (udp_start f + 48) f' = micros_epoch_to_ntp_timestamp
       (pa_epoch a * 1000000 + undrift (patched + offset - pps) (pa_drift_ppb a))
     else f' = f \<and> \<not> w_patched w')"
proof -
  let ?fn = "\<lambda>now. build_patch_t3 now now_ms src esp_now (Some a) tv c2 s"
  have plan: "plan_ntp_tx_patch (w_hdr w) (w_patch_port w) = Some (reply_plan f)"
    using assms(3,4) reply_in_prefix [OF assms(4)] by (simp add: plan_ok_Some)
  show ?thesis
  proof (cases "is_time_synchronized now_ms src")
    case False
    then have "try_patch env call ?fn w = (w, sc_patch_us call, False)"
      using assms(1,2) by (simp add: try_patch_def plan build_patch_t3_def)
    with False assms(6) show ?thesis by (simp add: on_send_def Let_def frame_in_chip_def)
  next
    case True
    define t3 where "t3 = encode_ntp_timestamp (micros_epoch_to_ntp_timestamp
      (pa_epoch a * 1000000 + undrift (patched + offset - pps) (pa_drift_ppb a)))"
    have "i32 (to_u32 esp_now - to_u32 patched) = esp_now - patched"
      using assms(8) by (intro clock_diff_exact) auto
    then have fn: "?fn (sc_patch_us call) = Some t3"
      using True assms(7,9,11) hook_on_anchor [OF assms(10,12,13)]
      by (auto simp: build_patch_t3_def Let_def t3_def W5500_TX_STAMP_EARLY_US_def add.assoc)
    have u: "udp_start f + 56 \<le> length f" using reply_in_prefix [OF assms(4)] by simp
    from patched_means_patched_aux [where s = w and f = f and fn = ?fn and call = call and ?t3.0 = t3 and env = env]
      assms(1-6) fn
    have "w_patched (on_send env call ?fn w) \<longrightarrow>
        frame_in_chip (on_send env call ?fn w) (length f) = patched_frame f t3"
      by (simp add: Let_def t3_def)
    with True patched_frame_t3 [OF u, of t3] show ?thesis
      by (simp add: Let_def reply_time_def t3_def flip: field_at_def)
  qed
qed

theorem wire_transmit_time_witness:
  "let s = ntp_server_init 123; a = \<lparr>pa_epoch = 1800000000, pa_micros = to_u32 0, pa_drift_ppb = 8500\<rparr>;
       g = gps_init\<lparr>gp_pps_synced := True\<rparr>;
       w' = on_send (failing (\<lambda>_. True)) (sample_call\<lparr>sc_patch_us := to_u32 500000\<rparr>)
         (\<lambda>now. build_patch_t3 now 0 (Some g) 500003 (Some a) \<lparr>tv_sec = 0, tv_usec = 0\<rparr> 0 s)
         (chip_with 0x4100 csum_reply) in
   w_patched w' \<longrightarrow> reply_time (udp_start csum_reply + 48) (frame_in_chip w' (length csum_reply)) =
     micros_epoch_to_ntp_timestamp (1800000000000000 + undrift 500117 8500)"
proof -
  let ?s = "ntp_server_init 123"
  have l: "length csum_reply = 90" "take 128 csum_reply = csum_reply" by code_simp+
  have c: "w_patch_fn (chip_with 0x4100 csum_reply)" "w_frame_started (chip_with 0x4100 csum_reply)"
    "w_hdr (chip_with 0x4100 csum_reply) = take 128 csum_reply" "length csum_reply \<le> 16384"
    "is_ntp_reply (take 128 csum_reply) (w_patch_port (chip_with 0x4100 csum_reply))"
    using l csum_reply_facts(1) by (simp_all add: chip_with_def)
  have f: "frame_in_chip (chip_with 0x4100 csum_reply) (length csum_reply) = csum_reply"
    using c(4) by (rule chip_with_frame)
  have s: "sv_use_pps_anchor ?s" "sv_chip_latency ?s" "pd_estimate_us (sv_patch_delay ?s) = 60"
    by (simp_all add: ntp_server_init_def patch_delay_init_def PD_INITIAL_US_def)
  have "is_time_synchronized 0 (Some (gps_init\<lparr>gp_pps_synced := True\<rparr>))"
    by (simp add: is_time_synchronized_def is_synchronized_def gps_init_def PPS_TIMEOUT_MS_def)
  with s wire_transmit_time [OF c(1-3,5,4) f, of "sample_call\<lparr>sc_patch_us := to_u32 500000\<rparr>" 500000 500003 ?s
      "\<lparr>pa_epoch = 1800000000, pa_micros = to_u32 0, pa_drift_ppb = 8500\<rparr>" 0 117 "failing (\<lambda>_. True)" 0
      "Some (gps_init\<lparr>gp_pps_synced := True\<rparr>)" "\<lparr>tv_sec = 0, tv_usec = 0\<rparr>" 0]
  show ?thesis by (simp add: Let_def)
qed

end
