(* ===== verification/NetTypes.thy ===== *)
theory NetTypes
  imports MainLoop
begin

text \<open>
  The fixed arrays of the network recorder and the talker table (\<open>w5500_custom_spi.h\<close>,
  \<open>w5500_talker_table.h\<close>) are lists in the model. Here: every operation of the recorder, of the
  SPI callbacks and of the main loop keeps their lengths.
\<close>

subsection \<open>The network recorder\<close>

definition bin_typed :: "net_bin \<Rightarrow> bool" where
  "bin_typed b \<longleftrightarrow> length (nb_tx b) = FC_COUNT \<and> length (nb_rx b) = FC_COUNT"

definition entry_typed :: "talker_entry \<Rightarrow> bool" where
  "entry_typed e \<longleftrightarrow> length (te_src_mac e) = 6 \<and> length (te_first_dst_mac e) = 6"

definition net_typed :: "net_recorder \<Rightarrow> bool" where
  "net_typed r \<longleftrightarrow> nr_ok r \<and> (\<forall>bins. nr_bins r = Some bins \<longrightarrow> (\<forall>b \<in> set bins. bin_typed b)) \<and>
     tt_ok (nr_talkers r) \<and> (\<forall>e \<in> set (nr_talkers r). entry_typed e)"

lemma list_all_update: "\<forall>x \<in> set xs. P x \<Longrightarrow> P y \<Longrightarrow> \<forall>x \<in> set (xs[i := y]). P x"
  using set_update_subset_insert by fastforce

lemma bin_typed_zero: "bin_typed (net_bin_zero\<lparr>nb_start_us := t\<rparr>)" "bin_typed net_bin_zero"
  by (simp_all add: bin_typed_def net_bin_zero_def)

lemma entry_typed_init: "entry_typed talker_entry_init"
  by (simp add: entry_typed_def talker_entry_init_def)

lemma tt_clear_typed: "\<forall>e \<in> set tt_clear. entry_typed e"
  by (simp add: tt_clear_def entry_typed_init)

lemma roll_bins_typed:
  "roll_bins now bins cur start = (bins', cur', start') \<Longrightarrow> \<forall>b \<in> set bins. bin_typed b \<Longrightarrow>
   \<forall>b \<in> set bins'. bin_typed b"
proof (induction now bins cur start rule: roll_bins.induct)
  case (1 now bins cur start)
  show ?case
  proof (cases "now - start \<ge> NET_BIN_US")
    case True
    with 1(2) have "roll_bins now (bins[(cur + 1) mod NET_BINS := net_bin_zero\<lparr>nb_start_us := start + NET_BIN_US\<rparr>])
        ((cur + 1) mod NET_BINS) (start + NET_BIN_US) = (bins', cur', start')"
      by (simp add: roll_bins.simps [of now bins] Let_def)
    from 1(1) [OF True refl refl this] show ?thesis
      using list_all_update [OF 1(3) bin_typed_zero(1)] by blast
  next
    case False
    with 1(2,3) show ?thesis by (simp add: roll_bins.simps [of now bins])
  qed
qed

lemma net_bin_now_typed:
  assumes "net_typed r" "nr_bins r = Some bins"
  shows "net_typed (net_bin_now now bins r) \<and> (\<exists>bins'. nr_bins (net_bin_now now bins r) = Some bins')"
proof -
  obtain b c s where b: "roll_bins now bins (nr_cur r) (nr_cur_start_us r) = (b, c, s)"
    by (metis prod_cases3)
  have "\<forall>x \<in> set b. bin_typed x" using roll_bins_typed [OF b] assms by (simp add: net_typed_def)
  moreover have "\<forall>x \<in> set ((replicate NET_BINS net_bin_zero)[0 := net_bin_zero\<lparr>nb_start_us := now\<rparr>]). bin_typed x"
    by (rule list_all_update) (simp_all add: bin_typed_zero)
  moreover have "nr_ok (net_bin_now now bins r)"
    using net_bin_now_covers [of r bins now] assms by (simp add: net_typed_def)
  ultimately show ?thesis
    using assms(1) by (auto simp: net_typed_def net_bin_now_def b)
qed

lemma update_cur_bin_typed:
  assumes "net_typed r" "\<And>b. bin_typed b \<Longrightarrow> bin_typed (f b)"
  shows "net_typed (update_cur_bin f r)"
proof (cases "nr_bins r")
  case (Some bins)
  then have "bin_typed (bins ! nr_cur r)" using assms(1) by (simp add: net_typed_def nr_ok_def)
  then have "bin_typed (f (bins ! nr_cur r))" by (rule assms(2))
  with Some assms(1) show ?thesis
    by (auto simp: net_typed_def nr_ok_def update_cur_bin_def dest: list_all_update [THEN bspec])
qed (use assms(1) in \<open>simp add: update_cur_bin_def\<close>)

lemma tt_note_typed:
  assumes ok: "tt_ok t" and "\<forall>e \<in> set t. entry_typed e" "6 \<le> length src" "6 \<le> length dst"
  shows "tt_ok (tt_note src dst ethertype len now burst t) \<and>
    (\<forall>e \<in> set (tt_note src dst ethertype len now burst t). entry_typed e)"
proof -
  have fresh: "entry_typed (tt_fresh src dst ethertype now)"
    using assms by (simp add: entry_typed_def tt_fresh_def)
  have count: "entry_typed (tt_count len now burst e)" if "entry_typed e" for e
    using that by (simp add: entry_typed_def tt_count_def)
  obtain t' i where t': "(case tt_find src ethertype t of Some i \<Rightarrow> (t, i)
      | None \<Rightarrow> tt_make_room src dst ethertype now t) = (t', i)" by fastforce
  have a: "\<forall>e \<in> set t'. entry_typed e"
    using t' assms(2) list_all_update [OF assms(2) fresh]
    by (auto simp: tt_make_room_def Let_def split: option.splits)
  have "\<forall>e \<in> set (t'[i := tt_count len now burst (t' ! i)]). entry_typed e"
  proof (cases "i < length t'")
    case True
    with a count show ?thesis by (intro list_all_update) simp_all
  qed (use a in \<open>simp add: list_update_beyond\<close>)
  moreover have "tt_note src dst ethertype len now burst t = t'[i := tt_count len now burst (t' ! i)]"
    by (simp add: tt_note_def t')
  ultimately show ?thesis using tt_note_ok [OF ok, of src dst ethertype len now burst] by metis
qed

lemma net_record_frame_typed:
  assumes "net_typed r"
  shows "net_typed (net_record_frame tx frame len now r)"
proof (cases "nr_bins r = None \<or> \<not> nr_enabled r")
  case True
  with assms show ?thesis by (auto simp: net_record_frame_def split: option.split)
next
  case False
  then obtain bins where bins: "nr_bins r = Some bins" "nr_enabled r" by auto
  have cnt: "bin_typed (count_frame tx c len b)" if "bin_typed b" for c b
    using that by (simp add: bin_typed_def count_frame_def)
  define r1 where "r1 = update_cur_bin (count_frame tx (the (classify_frame frame)) len) (net_bin_now now bins r)"
  have t1: "net_typed r1"
    unfolding r1_def using net_bin_now_typed [OF assms bins(1)] cnt by (intro update_cur_bin_typed) simp_all
  show ?thesis
  proof (cases frame)
    case None
    with t1 bins show ?thesis by (simp add: net_record_frame_def r1_def)
  next
    case (Some f)
    define talkers where "talkers b = tt_note (drop 6 f) f (be16 (f ! 12) (f ! 13)) len now b (nr_talkers r1)" for b
    have "14 \<le> length f \<Longrightarrow> tt_ok (talkers b) \<and> (\<forall>e \<in> set (talkers b). entry_typed e)" for b
      unfolding talkers_def using t1 by (intro tt_note_typed) (simp_all add: net_typed_def)
    then have "14 \<le> length f \<Longrightarrow> net_typed (r1\<lparr>nr_talkers := talkers b\<rparr>)" for b
      using t1 by (simp add: net_typed_def nr_ok_def)
    then have "14 \<le> length f \<and> c \<Longrightarrow> net_typed (r1\<lparr>nr_talkers := talkers b\<rparr>)" for b c by simp
    with t1 bins Some show ?thesis
      by (simp only: net_record_frame_def Let_def option.case if_False if_True simp_thms r1_def talkers_def
          split: if_split) blast
  qed
qed

lemma net_record_lock_wait_typed: "net_typed r \<Longrightarrow> net_typed (net_record_lock_wait us now r)"
  by (auto simp: net_record_lock_wait_def bin_typed_def split: option.split
      intro!: update_cur_bin_typed net_bin_now_typed [THEN conjunct1])

lemma net_record_cr_retry_typed: "net_typed r \<Longrightarrow> net_typed (net_record_cr_retry now r)"
  by (auto simp: net_record_cr_retry_def bin_typed_def split: option.split
      intro!: update_cur_bin_typed net_bin_now_typed [THEN conjunct1])

lemma set_net_recorder_typed: "net_typed r \<Longrightarrow> net_typed (set_net_recorder alloc enable r)"
  by (auto simp: set_net_recorder_def net_typed_def nr_ok_def Let_def bin_typed_zero tt_clear_ok tt_clear_typed
      NET_BINS_def)

lemma net_typed_init: "net_typed net_recorder_init"
  by (simp add: net_typed_def nr_ok_def net_recorder_init_def tt_clear_ok tt_clear_typed NET_BINS_def)

lemma net_bin_get_typed: "net_typed r \<Longrightarrow> net_bin_get i r = Some b \<Longrightarrow> bin_typed b"
  by (auto simp: net_bin_get_def net_typed_def nr_ok_def Let_def NET_BINS_def split: option.splits if_splits)

lemma tt_get_typed:
  "net_typed r \<Longrightarrow> tt_get i (nr_talkers r) = Some t \<Longrightarrow> length (tk_src_mac t) = 6 \<and> length (tk_first_dst_mac t) = 6"
  by (auto simp: tt_get_def net_typed_def tt_ok_def entry_typed_def Let_def split: if_splits)

subsection \<open>The chip\<close>

abbreviation chip_ok :: "w5500 \<Rightarrow> bool" where
  "chip_ok w \<equiv> net_typed (w_net w) \<and> length (w_hdr w) \<le> 128"

lemma spi_transfer_typed:
  "chip_ok w \<Longrightarrow> (\<And>v. w_net (eff v) = w_net v \<and> w_hdr (eff v) = w_hdr v) \<Longrightarrow> chip_ok (fst (spi_transfer env eff w))"
  by (simp add: spi_transfer_def Let_def net_record_lock_wait_typed)

lemma patch_write_ring_typed: "chip_ok w \<Longrightarrow> chip_ok (fst (patch_write_ring env start off src n w))"
proof -
  have step: "chip_ok (fst (patch_one env src st x))" if "chip_ok (fst st)" for st x
  proof -
    have "chip_ok (fst (spi_transfer env (\<lambda>s. s\<lparr>ch_tx_mem := ring_store src (ch_tx_mem s) x\<rparr>) (fst st)))"
      using that by (rule spi_transfer_typed) simp
    then show ?thesis by (simp add: patch_one_def case_prod_beta)
  qed
  have "chip_ok (fst (foldl (patch_one env src) st xs))" if "chip_ok (fst st)" for st xs
    using that by (induction xs arbitrary: st) (simp_all add: step)
  then show "chip_ok w \<Longrightarrow> ?thesis" by (simp add: patch_write_ring_def)
qed

lemma try_patch_typed: "chip_ok w \<Longrightarrow> chip_ok (fst (try_patch env call fn w))"
  by (simp add: try_patch_def rewrite_reply_def Let_def case_prod_beta patch_write_ring_typed split: option.split)

lemma on_command_typed: "chip_ok w \<Longrightarrow> chip_ok (on_command env call fn c w)"
  using try_patch_typed [of w env call fn]
  by (simp add: on_command_def on_send_def Let_def case_prod_beta)

lemma on_txbuf_write_typed: "chip_ok w \<Longrightarrow> chip_ok (on_txbuf_write call cmd data w)"
  by (simp add: on_txbuf_write_def track_frame_def Let_def net_record_frame_typed TX_PATCH_HDR_MAX_def) (auto simp: min_def)

lemma spi_write_typed: "chip_ok w \<Longrightarrow> chip_ok (fst (w5500_custom_spi_write env call fn cmd addr data w))"
proof -
  assume w: "chip_ok w"
  define w1 where "w1 = tap_int_level cmd addr data w"
  define w2 where "w2 = (if addr = CTRL_S0_REG_WRITE \<and> cmd = REG_SN_CR \<and> length data = 1
     then on_command env call fn (data ! 0) w1 else w1)"
  define w3 where "w3 = (if addr = CTRL_S0_TXBUF_WRITE \<and> length data \<ge> 14 then on_txbuf_write call cmd data w2 else w2)"
  have "chip_ok w3"
    using w by (simp add: w1_def w2_def w3_def tap_int_level_def on_command_typed on_txbuf_write_typed)
  moreover have "chip_ok (fst (spi_transfer env (chip_write cmd a data) v))" if "chip_ok v" for a v
    using that by (rule spi_transfer_typed) (simp add: chip_write_def)
  ultimately show ?thesis
    unfolding w5500_custom_spi_write_def Let_def w1_def [symmetric] w2_def [symmetric] w3_def [symmetric]
    by (simp add: case_prod_beta)
qed

lemma spi_read_typed: "chip_ok w \<Longrightarrow> chip_ok (fst (w5500_custom_spi_read env call cmd addr data w))"
proof -
  assume w: "chip_ok w"
  have note_ok: "chip_ok (note_read_transaction t v)" if "chip_ok v" for t v
    using that by (simp add: note_read_transaction_def Let_def)
  have poll: "chip_ok (tap_command_poll call b v)" "chip_ok (tap_send_ok call b v)" if "chip_ok v" for b v
    using that by (simp_all add: tap_command_poll_def tap_send_ok_def Let_def net_record_cr_retry_typed)
  have tr: "chip_ok (fst (spi_transfer env id v))" if "chip_ok v" for v
    using that by (rule spi_transfer_typed) simp
  show ?thesis
    unfolding w5500_custom_spi_read_def Let_def case_prod_beta fst_conv
    by (simp add: w note_ok poll tr net_record_frame_typed)
qed

lemma level_typed:
  assumes "chip_ok w"
  shows "chip_ok (fst (w5500_write_int_level env v w))" "chip_ok (fst (w5500_read_int_level env w))"
proof -
  have "chip_ok (fst (spi_transfer env (chip_write a c d) w))" for a c d
    using assms by (rule spi_transfer_typed) (simp add: chip_write_def)
  moreover have "chip_ok (fst (spi_transfer env id w))" using assms by (rule spi_transfer_typed) simp
  ultimately show "chip_ok (fst (w5500_write_int_level env v w))" "chip_ok (fst (w5500_read_int_level env w))"
    using assms by (simp_all add: w5500_write_int_level_def w5500_read_int_level_def case_prod_beta)
qed

lemma write_and_read_typed: "chip_ok w \<Longrightarrow> chip_ok (fst (write_and_read env v w))"
  by (simp add: write_and_read_def case_prod_beta Let_def level_typed)

lemma set_short_typed: "chip_ok (snd x) \<Longrightarrow> chip_ok (snd (set_short_int_wait env now b x))"
  by (simp add: set_short_int_wait_def case_prod_beta Let_def write_and_read_typed)

lemma loop_int_level_typed: "chip_ok (snd x) \<Longrightarrow> chip_ok (snd (loop_int_level env ms x))"
proof -
  assume "chip_ok (snd x)"
  then have "chip_ok (snd (loop_boot_enable env ms x))"
    by (cases x) (simp add: loop_boot_enable_def set_short_typed)
  then show ?thesis
    by (cases "loop_boot_enable env ms x")
      (simp add: loop_int_level_def loop_recheck_def case_prod_beta Let_def level_typed write_and_read_typed)
qed

lemma server_loop_typed:
  assumes "chip_ok (snd x)" "server_loop env ms nif cached io x = (x', out)"
  shows "chip_ok (snd x')"
proof -
  from assms(2) obtain s w where l: "loop_int_level env ms x = (s, w)"
    and x': "snd x' \<in> (\<lambda>w. snd (w5500_take_cmd_stats w)) ` {w, fst (w5500_read_int_level env w)} \<union>
      {w, fst (w5500_read_int_level env w)}"
    by (rule server_loop_cases)
  have "chip_ok w" using loop_int_level_typed [OF assms(1), of env ms] by (simp add: l)
  with x' show ?thesis by (auto simp: w5500_take_cmd_stats_def level_typed)
qed

text \<open>The same as one predicate.\<close>

definition chip_typed :: "w5500 \<Rightarrow> bool" where
  "chip_typed w \<longleftrightarrow> chip_ok w"

lemmas chip_steps_typed = spi_read_typed [folded chip_typed_def] spi_write_typed [folded chip_typed_def]
  set_short_typed [folded chip_typed_def] server_loop_typed [folded chip_typed_def]

end
