(* ===== verification/ServerTypes.thy ===== *)
theory ServerTypes
  imports Server NetTypes
begin

text \<open>
  The types the model leaves to \<open>int\<close> and \<open>list\<close>: in every reachable state each integer the C++
  code keeps in an \<open>int32_t\<close> or a narrower type fits it and each fixed array has its length, in the
  hook ring, the diagnostics ring, the telemetry windows and the network recorder. Several fields
  are far narrower than their type, and that is what keeps a line of the diagnostics port inside
  its 240 bytes.
\<close>

subsection \<open>Types of the stored records\<close>

definition info_typed :: "hook_info \<Rightarrow> bool" where
  "info_typed i \<longleftrightarrow> - 1 \<le> hi_int_lead_us i \<and> hi_int_lead_us i < 2000000 \<and>
     - 1 \<le> hi_rx_gap_us i \<and> hi_rx_gap_us i < 20000 \<and> - 1 \<le> hi_rx_rsr i \<and> hi_rx_rsr i < 65536 \<and>
     i32_ok (hi_frame_len i) \<and> i32_ok (hi_lead_us i)"

definition record_typed :: "diag_record \<Rightarrow> bool" where
  "record_typed d \<longleftrightarrow> length (dg_client_tx d) = 8 \<and>
     - 1 \<le> dg_int_lead_us d \<and> dg_int_lead_us d < 2000000 \<and>
     - 1 \<le> dg_rx_gap_us d \<and> dg_rx_gap_us d < 20000 \<and> - 1 \<le> dg_rx_rsr d \<and> dg_rx_rsr d < 65536 \<and>
     0 \<le> dg_estimate_us d \<and> dg_estimate_us d < 10000 \<and>
     - 1 \<le> dg_patch_pred_us d \<and> dg_patch_pred_us d < 1000 \<and>
     (\<forall>i \<in> {dg_hook_latency_us d, dg_send_us d, dg_sendto_us d, dg_lock_wait_us d, dg_arp_wait_us d,
        dg_tx_write_start_us d, dg_tx_write_end_us d, dg_frame_len d, dg_patch_to_send_us d,
        dg_t3_calc_to_t0_us d, dg_sendok_interval_us d}. i32_ok i)"

definition ring_records :: "ntp_server \<Rightarrow> diag_record set" where
  "ring_records s = (case sv_diag_ring s of None \<Rightarrow> {} | Some ring \<Rightarrow> ds_rec ` set ring)"

definition windows_typed :: "ntp_server \<Rightarrow> bool" where
  "windows_typed s \<longleftrightarrow> i32_ok (wm_value (sv_hook_latency_win s)) \<and> i32_ok (wm_value (sv_t3_error_win s)) \<and>
     0 \<le> wm_value (sv_int_lead_win s) \<and> wm_value (sv_int_lead_win s) < 2000000 \<and>
     0 \<le> wm_value (sv_rx_stamp_gap_win s) \<and> wm_value (sv_rx_stamp_gap_win s) < 20000"

definition server_typed :: "ntp_server \<Rightarrow> bool" where
  "server_typed s \<longleftrightarrow> (\<forall>i \<in> snd ` set (hr_slots (sv_hook_ring s)). info_typed i) \<and>
     (\<forall>d \<in> ring_records s. record_typed d) \<and> windows_typed s \<and>
     - 128 \<le> sv_precision s \<and> sv_precision s < 128 \<and>
     - 128 \<le> sv_precision_anchor s \<and> sv_precision_anchor s < 128"

lemma i32_ok_casts [simp]: "i32_ok (i32 w)" "i32_ok (to_i32 k)" "i32_ok (- 1)" "i32_ok 0"
  using i32_range [of w] to_i32_range [of k] by (simp_all add: i32_ok_def)

lemma info_typed_init: "info_typed (hook_info_init\<lparr>hi_t := t\<rparr>)" "info_typed hook_info_init"
  by (simp_all add: info_typed_def hook_info_init_def)

lemma record_typed_zero: "record_typed diag_record_zero"
  by (simp add: record_typed_def diag_record_zero_def)

subsection \<open>The receive hook\<close>

text \<open>The refinements of T2 keep the type of the record, the windows they feed, and nothing else.\<close>

definition other_fields :: "ntp_server \<Rightarrow> hook_ring \<times> diag_slot list option \<times> window_max \<times> window_max \<times> int \<times> int" where
  "other_fields s = (sv_hook_ring s, sv_diag_ring s, sv_hook_latency_win s, sv_t3_error_win s, sv_precision s,
     sv_precision_anchor s)"

lemma server_typed_parts:
  "other_fields s' = other_fields s \<Longrightarrow> windows_typed s' \<Longrightarrow> server_typed s \<Longrightarrow> server_typed s'"
  by (simp add: other_fields_def server_typed_def ring_records_def)

lemma window_add_value: "wm_value (window_add v w) = v \<or> wm_value (window_add v w) = wm_value w"
  by (simp add: window_add_def Let_def)

lemma window_add_range:
  "lo \<le> v \<Longrightarrow> v < hi \<Longrightarrow> lo \<le> wm_value w \<Longrightarrow> wm_value w < hi \<Longrightarrow>
   lo \<le> wm_value (window_add v w) \<and> wm_value (window_add v w) < (hi :: int)"
  by (simp add: window_add_def Let_def)

lemma window_add_i32: "i32_ok v \<Longrightarrow> i32_ok (wm_value w) \<Longrightarrow> i32_ok (wm_value (window_add v w))"
  by (simp add: window_add_def Let_def)

definition dated_typed :: "ntp_server \<Rightarrow> ntp_server \<times> hook_info \<Rightarrow> bool" where
  "dated_typed s x \<longleftrightarrow> other_fields (fst x) = other_fields s \<and> windows_typed (fst x) \<and> info_typed (snd x)"

lemma evaluate_typed:
  "i32_ok (rx_lead_us (evaluate_rx_edge q e b))"
  "rx_edge_usable (evaluate_rx_edge q e b) \<Longrightarrow>
   0 \<le> rx_lead_us (evaluate_rx_edge q e b) \<and> rx_lead_us (evaluate_rx_edge q e b) < 2000000"
  by (auto simp: evaluate_rx_edge_def Let_def rx_consts split: if_splits)

lemma note_edge_typed: "dated_typed s x \<Longrightarrow> dated_typed s (note_edge ist st x)"
  using evaluate_typed [of "is_seq ist" "is_edge_us ist" "rxs_burst_start_us st"]
  by (cases x) (auto simp: dated_typed_def note_edge_def Let_def other_fields_def windows_typed_def
      info_typed_def window_add_range)

lemma refine_size_read_typed:
  assumes "dated_typed s x"
  shows "dated_typed s (refine_size_read t len st x)"
proof -
  obtain s1 i where x: "x = (s1, i)" by fastforce
  have size: "- 1 \<le> uint (rxs_size_value st)" "uint (rxs_size_value st) < 65536"
    using uint_lt2p [of "rxs_size_value st"] order_trans [OF _ uint_ge_0, of "- 1" "rxs_size_value st"] by simp_all
  with assms have i: "dated_typed s (s1, i\<lparr>hi_rx_rsr := int (unat (rxs_size_value st)), hi_frame_len := to_i32 (int len)\<rparr>)"
    by (simp add: x dated_typed_def info_typed_def)
  have "dated_typed s (s1\<lparr>sv_rx_stamp_gap_win := window_add gap (sv_rx_stamp_gap_win s1)\<rparr>,
      j\<lparr>hi_t := k, hi_rx_gap_us := gap\<rparr>)"
    if "dated_typed s (s1, j)" "0 < gap" "gap < 20000" for gap j k
    using that window_add_range [of 0 gap 20000 "sv_rx_stamp_gap_win s1"]
    by (auto simp: dated_typed_def other_fields_def windows_typed_def info_typed_def)
  with i assms show ?thesis by (simp add: x refine_size_read_def Let_def)
qed

lemma refine_rest_typed:
  "dated_typed s x \<Longrightarrow> dated_typed s (refine_int_edge t ist x)"
  "dated_typed s x \<Longrightarrow> dated_typed s (refine_frame_start len x)"
  "dated_typed s x \<Longrightarrow> dated_typed s (refine_chip_latency x)"
  by (cases x; auto simp: dated_typed_def refine_int_edge_def refine_frame_start_def refine_chip_latency_def
      Let_def other_fields_def windows_typed_def info_typed_def)+

lemma date_request_typed:
  "windows_typed s \<Longrightarrow> dated_typed s (date_request t len ist st s)"
  unfolding date_request_def
  by (intro refine_rest_typed refine_size_read_typed note_edge_typed) (simp add: dated_typed_def info_typed_init)

lemma hook_typed:
  assumes "server_inv s" "server_typed s" "eth_input_hook t w f s = Some (s', f')"
  shows "server_typed s'"
proof (cases "\<exists>u n. find_request (sv_port s) f = Some (Some (u, n))")
  case False
  with assms(2,3) show ?thesis by (auto simp: eth_input_hook_eq split: option.splits)
next
  case True
  then obtain u n where un: "find_request (sv_port s) f = Some (Some (u, n))" by blast
  obtain s1 info where d: "date_request t (length f) (w5500_int_stamp w) (w5500_rx_stamps w) s = (s1, info)"
    by fastforce
  define key where "key = build_key (take 8 (drop (n + 40) f)) (of_mem32 (take 4 (drop 26 f))) (of_mem16 (take 2 (drop u f)))"
  have s': "s' = s1\<lparr>sv_hook_ring := hr_write (key, info) (sv_hook_ring s1)\<rparr>"
    using assms(3) by (auto simp: eth_input_hook_eq un d hr_record_def key_def)
  have "n + 48 \<le> length f" using find_request_found [OF un] by blast
  then have key: "length key = KEY_SIZE" by (simp add: key_def length_build_key)
  have "dated_typed s (s1, info)"
    using date_request_typed [of s t "length f" "w5500_int_stamp w" "w5500_rx_stamps w"] assms(2)
    by (simp add: d server_typed_def)
  then have 1: "other_fields s1 = other_fields s" "windows_typed s1" "info_typed info"
    by (simp_all add: dated_typed_def)
  have t1: "server_typed s1" by (rule server_typed_parts [OF 1(1,2) assms(2)])
  have "hr_slots (hr_write (key, info) (sv_hook_ring s)) = (hr_slots (sv_hook_ring s))[hr_next (sv_hook_ring s) := (key, info)]"
    using assms(1) key using hook.push_slots [of "sv_hook_ring s" "(key, info)"] by (simp add: server_inv_def)
  then have sub: "set (hr_slots (hr_write (key, info) (sv_hook_ring s))) \<subseteq> insert (key, info) (set (hr_slots (sv_hook_ring s)))"
    by (simp add: set_update_subset_insert)
  have old: "\<forall>i \<in> snd ` set (hr_slots (sv_hook_ring s)). info_typed i"
    using assms(2) by (simp add: server_typed_def)
  have r: "sv_hook_ring s1 = sv_hook_ring s" using 1(1) by (simp add: other_fields_def)
  have "\<forall>i \<in> snd ` set (hr_slots (hr_write (key, info) (sv_hook_ring s1))). info_typed i"
    using image_mono [OF sub, of snd] old 1(3) unfolding r image_insert snd_conv by blast
  with t1 show ?thesis by (simp add: s' server_typed_def ring_records_def windows_typed_def)
qed

subsection \<open>The serving task\<close>

text \<open>The part of the state the task writes.\<close>

definition task_typed :: "ntp_server \<Rightarrow> bool" where
  "task_typed s \<longleftrightarrow> windows_typed s \<and> (\<forall>d \<in> ring_records s. record_typed d)"

lemma task_typed_cong:
  "sv_diag_ring s' = sv_diag_ring s \<Longrightarrow> windows_typed s' = windows_typed s \<Longrightarrow> task_typed s' = task_typed s"
  by (simp add: task_typed_def ring_records_def)

lemma ring_records_store: "ring_records (diag_record_op d s) \<subseteq> insert d (ring_records s)"
  by (auto simp: ring_records_def diag_record_op_def diag_store_def split: option.split if_splits
      dest!: set_update_subset_insert [THEN subsetD])

lemma store_task: "task_typed s \<Longrightarrow> pred_option record_typed diag \<Longrightarrow> task_typed (store_diag diag s)"
proof (cases diag)
  case (Some d)
  have "windows_typed (diag_record_op d s) = windows_typed s"
    by (simp add: diag_record_op_def windows_typed_def split: option.split)
  then show "task_typed s \<Longrightarrow> pred_option record_typed diag \<Longrightarrow> ?thesis"
    using Some ring_records_store [of d s] by (auto simp: store_diag_def task_typed_def)
qed (simp add: store_diag_def)

lemma keeps_task:
  "task_typed (s\<lparr>sv_refused := k\<rparr>) = task_typed s" "task_typed (s\<lparr>sv_arp := a\<rparr>) = task_typed s"
  "task_typed (s\<lparr>sv_arp_waits := k\<rparr>) = task_typed s"
  "task_typed (snd (build_ntp_response q rts r s)) = task_typed s"
  by (rule task_typed_cong; simp add: windows_typed_def build_ntp_response_def Let_def split: prod.split)+

lemma flag_if_typed [simp]: "record_typed (flag_if c f d) = record_typed d"
  by (simp add: flag_if_def record_typed_def)

lemma refuse_task:
  "task_typed s \<Longrightarrow> pred_option record_typed diag \<Longrightarrow> task_typed (refuse reason diag s)"
  by (auto simp: refuse_def keeps_task option.pred_map o_def record_typed_def [of "_\<lparr>dg_refuse_reason := _\<rparr>"]
      intro!: store_task elim!: option.pred_mono_strong) (auto simp: record_typed_def flag_if_def)

lemma refuse_arp_task:
  "task_typed s \<Longrightarrow> pred_option record_typed diag \<Longrightarrow> i32_ok (aw_waited_us res) \<Longrightarrow>
   task_typed (refuse_arp res diag s)"
  by (auto simp: refuse_arp_def keeps_task option.pred_map o_def
      intro!: store_task elim!: option.pred_mono_strong) (auto simp: record_typed_def flag_if_def)

lemma note_latency_task:
  "task_typed s \<Longrightarrow> task_typed (fst (note_latency v hook s)) \<and> i32_ok (snd (note_latency v hook s))"
  by (auto simp: note_latency_def task_typed_def windows_typed_def ring_records_def Let_def window_add_i32
      split: option.split)

lemma arp_loop_typed:
  "arp_wait_loop fuel lookup now m k = Some (r, n) \<Longrightarrow> i32_ok (aw_waited_us r)"
  by (induction fuel arbitrary: k) (auto simp: Let_def split: if_splits)

lemma wait_typed: "wait_for_arp fuel lookup now m = Some (r, q, n) \<Longrightarrow> i32_ok (aw_waited_us r)"
  by (auto simp: wait_for_arp_def arp_loop_typed split: if_splits)

lemma arp_step_typed: "arp_step v s = Some (Some r) \<Longrightarrow> i32_ok (aw_waited_us r)"
  by (auto simp: arp_step_def wait_typed split: if_splits)

definition lesson_typed :: "send_lesson \<Rightarrow> bool" where
  "lesson_typed l \<longleftrightarrow> i32_ok (sl_actual_us l) \<and> i32_ok (sl_sendok_interval_us l) \<and>
     - 1 \<le> sl_patch_pred_us l \<and> sl_patch_pred_us l < 1000"

lemma t3_error_i32: "est_ok e \<Longrightarrow> 0 < a \<Longrightarrow> a < US_MAX \<Longrightarrow> i32_ok (a - estimate_us e)"
  by (simp add: est_ok_def i32_ok_def send_consts)

lemma learn_own_send_task:
  assumes "task_typed s" "est_ok (sv_send_estimator s)" "delay_ok (sv_patch_delay s)"
  shows "task_typed (fst (learn_own_send t0 after s)) \<and> lesson_typed (snd (learn_own_send t0 after s))"
proof -
  define actual where "actual = i32 (ss_send_cmd_us after - to_u32 t0)"
  define s1 where "s1 = (if actual > 0 \<and> actual < US_MAX
    then s\<lparr>sv_t3_error_win := window_add (actual - estimate_us (sv_send_estimator s)) (sv_t3_error_win s)\<rparr> else s)"
  have t: "task_typed s1" and d: "sv_patch_delay s1 = sv_patch_delay s"
    using assms(1) t3_error_i32 [OF assms(2), of actual]
    by (simp_all add: s1_def task_typed_def windows_typed_def ring_records_def window_add_i32)
  have k: "task_typed (s1\<lparr>sv_send_estimator := e\<rparr>) = task_typed s1" for e
    by (rule task_typed_cong) (simp_all add: windows_typed_def)
  have p: "task_typed (s1\<lparr>sv_send_estimator := e, sv_patch_delay := q\<rparr>) = task_typed s1" for e q
    by (rule task_typed_cong) (simp_all add: windows_typed_def)
  have "i32_ok actual" by (simp add: actual_def)
  with t d k p assms(3) show ?thesis
    unfolding learn_own_send_def Let_def actual_def [symmetric] s1_def [symmetric]
    by (simp add: case_prod_beta lesson_typed_def no_lesson_def delay_ok_def)
qed

lemma learn_from_send_task:
  assumes "task_typed s" "est_ok (sv_send_estimator s)" "delay_ok (sv_patch_delay s)"
  shows "task_typed (fst (learn_from_send b t0 ta a s)) \<and> lesson_typed (snd (learn_from_send b t0 ta a s))"
proof -
  have k: "task_typed (s\<lparr>sv_send_estimator := e\<rparr>) = task_typed s" for e
    by (rule task_typed_cong) (simp_all add: windows_typed_def)
  have "lesson_typed (no_lesson\<lparr>sl_not_ntp := x\<rparr>)" "lesson_typed no_lesson" for x
    by (simp_all add: lesson_typed_def no_lesson_def)
  with learn_own_send_task [OF assms, of t0 a] k assms(1) show ?thesis
    by (simp add: learn_from_send_def)
qed

lemma finish_diag_typed:
  "lesson_typed l \<Longrightarrow> record_typed d \<Longrightarrow> record_typed (finish_diag b t0 ta a l d)"
  unfolding finish_diag_def Let_def flag_if_typed
  by (simp add: record_typed_def lesson_typed_def)

lemma new_diag_typed:
  assumes "est_ok (sv_send_estimator s)" "length (rv_buffer v) = 48" "pred_option info_typed hook" "i32_ok lat"
  shows "record_typed (new_diag v hook lat s)"
  using assms
  unfolding new_diag_def Let_def
  by (cases hook) (auto simp: record_typed_def info_typed_def est_ok_def send_consts flag_if_def)

lemma serve_task:
  assumes "task_typed s" "est_ok (sv_send_estimator s)" "delay_ok (sv_patch_delay s)"
    "pred_option record_typed diag" "serve v rts diag s = (o', s')"
  shows "task_typed s'"
proof -
  obtain b s1 where b: "build_ntp_response (rv_buffer v) rts (rv_reply v) s = (b, s1)" by fastforce
  obtain s2 l where l: "learn_from_send (rv_before v) (rv_t0 v) (rv_t_after v) (rv_after v) s1 = (s2, l)" by fastforce
  have "estimators s1 = estimators s" using build_parts(3) [of "rv_buffer v" rts "rv_reply v" s] by (simp add: b)
  moreover have "task_typed s1"
    using assms(1) keeps_task(4) [of "rv_buffer v" rts "rv_reply v" s] by (simp add: b)
  ultimately have 2: "task_typed s2" "lesson_typed l"
    using learn_from_send_task [of s1 "rv_before v" "rv_t0 v" "rv_t_after v" "rv_after v"] assms(2,3)
    by (simp_all add: l estimators_def)
  have d: "pred_option record_typed (map_option (\<lambda>d. finish_diag (rv_before v) (rv_t0 v) (rv_t_after v) (rv_after v) l
      (d\<lparr>dg_lock_wait_us := to_i32 k, dg_t3_calc_to_t0_us := to_i32 g\<rparr>)) diag)" for k g
    using assms(4) by (cases diag) (auto intro!: finish_diag_typed 2, simp add: record_typed_def)
  have "s' = store_diag (map_option (\<lambda>d. finish_diag (rv_before v) (rv_t0 v) (rv_t_after v) (rv_after v) l
      (d\<lparr>dg_lock_wait_us := to_i32 (rv_lock_end_us v - rv_lock_start_us v),
         dg_t3_calc_to_t0_us := to_i32 (rv_t0 v - sv_last_t3_clock_read_us s1)\<rparr>)) diag) s2"
    using assms(5) by (simp add: serve_def b l Let_def)
  with store_task [OF 2(1) d] show ?thesis by simp
qed

lemma serve_admitted_task:
  assumes "task_typed s" "est_ok (sv_send_estimator s)" "delay_ok (sv_patch_delay s)"
    "pred_option record_typed diag" "serve_admitted v rts diag s = Some (o', s')"
  shows "task_typed s'"
proof -
  define s1 where "s1 = s\<lparr>sv_arp := note_arp_client (rv_ip v) (sv_arp s)\<rparr>"
  have s1: "task_typed s1" "est_ok (sv_send_estimator s1)" "delay_ok (sv_patch_delay s1)"
    using assms(1-3) by (simp_all add: s1_def keeps_task)
  have waits: "task_typed (s1\<lparr>sv_arp_waits := k\<rparr>)" for k using s1 by (simp add: keeps_task)
  have arp: "pred_option record_typed (map_option (\<lambda>d. (flag_if c DIAG_ARP_MISS d)\<lparr>dg_arp_wait_us := k\<rparr>) diag)"
    "pred_option record_typed (map_option (\<lambda>d. d\<lparr>dg_arp_wait_us := k\<rparr>) diag)" if "i32_ok k" for c k
    using assms(4) that by (cases diag; simp add: record_typed_def flag_if_def)+
  consider "arp_step v s1 = Some None" | res where "arp_step v s1 = Some (Some res)"
    using assms(5) by (cases "arp_step v s1"; cases "the (arp_step v s1)") (auto simp: serve_admitted_def simp flip: s1_def)
  then show ?thesis
  proof cases
    case 1
    with assms(5) show ?thesis
      using serve_task [OF s1 arp(2) [of "- 1"]] by (simp add: serve_admitted_def flip: s1_def)
  next
    case 2
    define t where "t = (if aw_missed res then s1\<lparr>sv_arp_waits := sv_arp_waits s1 + 1\<rparr> else s1)"
    have t: "task_typed t" "est_ok (sv_send_estimator t)" "delay_ok (sv_patch_delay t)"
      using s1 waits by (simp_all add: t_def)
    have k: "i32_ok (aw_waited_us res)" using 2 by (rule arp_step_typed)
    from 2 assms(5) show ?thesis
      using serve_task [OF t arp(1) [OF k]] refuse_arp_task [OF t(1) assms(4) k]
      by (simp add: serve_admitted_def Let_def flip: s1_def t_def split: if_splits)
  qed
qed

lemma hook_answer_typed:
  assumes "server_inv s" "server_typed s"
  shows "pred_option info_typed (hook_answer v s)"
proof (cases "hook_answer v s")
  case (Some i)
  let ?key = "build_key (take 8 (drop 40 (rv_buffer v))) (rv_ip v) (rv_port v)"
  have "newest {i. (?key, i) \<in> set (hr_slots (sv_hook_ring s)) \<and> rv_lookup_now_us v - hi_t i \<le> MAX_AGE_US}
      (hook_answer v s)"
    using assms(1) unfolding hook_answer_def hr_lookup_def
    using lookup_reads_newest [where key = ?key and now = "rv_lookup_now_us v" and rs = "map quiet_read (hr_ring (sv_hook_ring s))"]
    unfolding server_inv_def by (simp only: quiet_matches)
  then have "(?key, i) \<in> set (hr_slots (sv_hook_ring s))" by (simp add: newest_def Some)
  then have "info_typed i" using assms(2) by (force simp: server_typed_def)
  then show ?thesis by (simp add: Some)
qed simp

lemma typed_from_task:
  assumes "server_typed s" "settings s' = settings s" "task_typed s'"
  shows "server_typed s'"
  using assms by (simp add: server_typed_def settings_def task_typed_def)

lemma recv_typed:
  assumes "server_inv s" "server_typed s" "length (rv_buffer v) = 48" "recv_iteration v s = Some (o', s')"
  shows "server_typed s'"
proof -
  obtain s1 lat where n: "note_latency v (hook_answer v s) s = (s1, lat)" by fastforce
  have "task_typed s" using assms(2) by (simp add: server_typed_def task_typed_def)
  from note_latency_task [OF this, of v "hook_answer v s"]
  have 1: "task_typed s1" "i32_ok lat" by (simp_all add: n)
  have "estimators s1 = estimators s" "settings s1 = settings s"
    using note_latency_parts(1,3) [of v "hook_answer v s" s] by (simp_all add: n)
  then have e: "est_ok (sv_send_estimator s1)" "delay_ok (sv_patch_delay s1)" and set1: "settings s1 = settings s"
    using assms(1) by (simp_all add: estimators_def server_inv_def)
  define diag where "diag = (if sv_diagnostics s1 then Some (new_diag v (hook_answer v s) lat s1) else None)"
  have d: "pred_option record_typed diag"
    using new_diag_typed [OF e(1) assms(3) hook_answer_typed [OF assms(1,2)] 1(2)] by (simp add: diag_def)
  have set': "settings s' = settings s"
    using assms(4) by (cases rule: recv_iteration_cases)
      (auto simp: n set1 refuse_parts elim: serve_admitted_cases)
  have "s' = s \<or> s' = s1 \<or> s' = refuse (admission (hook_answer v s) s1) diag s1 \<or>
      serve_admitted v (receive_time v (hook_answer v s) s) diag s1 = Some (o', s')"
    using assms(4) by (auto simp: recv_iteration_def n Let_def diag_def split: if_splits)
  then have "task_typed s'"
    using \<open>task_typed s\<close> 1(1) refuse_task [OF 1(1) d] serve_admitted_task [OF 1(1) e d] by blast
  with assms(2) set' show ?thesis by (rule typed_from_task)
qed

subsection \<open>Every reachable state is typed\<close>

text \<open>What the typing reads.\<close>

definition typed_fields :: "ntp_server \<Rightarrow> (hook_ring \<times> diag_slot list option \<times> int \<times> int) \<times>
    (window_max \<times> window_max \<times> window_max \<times> window_max)" where
  "typed_fields s = ((sv_hook_ring s, sv_diag_ring s, sv_precision s, sv_precision_anchor s),
     (sv_hook_latency_win s, sv_t3_error_win s, sv_int_lead_win s, sv_rx_stamp_gap_win s))"

lemma server_typed_cong: "typed_fields s' = typed_fields s \<Longrightarrow> server_typed s' = server_typed s"
  by (simp add: typed_fields_def server_typed_def windows_typed_def ring_records_def)

lemma level_typed_fields:
  "typed_fields (fst (set_short_int_wait env now b x)) = typed_fields (fst x)"
  "typed_fields (fst (loop_int_level env ms x)) = typed_fields (fst x)"
proof -
  have short: "typed_fields (fst (set_short_int_wait env now b x)) = typed_fields (fst x)" for now b x
    by (simp add: set_short_int_wait_def Let_def typed_fields_def split: prod.split)
  then show "typed_fields (fst (set_short_int_wait env now b x)) = typed_fields (fst x)" .
  have "typed_fields (fst (loop_boot_enable env ms x)) = typed_fields (fst x)"
    by (cases x) (simp add: loop_boot_enable_def short, simp add: typed_fields_def)
  moreover have "typed_fields (fst (loop_recheck env ms y)) = typed_fields (fst y)" for y
    by (cases y) (simp add: loop_recheck_def Let_def typed_fields_def split: prod.split)
  ultimately show "typed_fields (fst (loop_int_level env ms x)) = typed_fields (fst x)"
    by (simp add: loop_int_level_def)
qed

lemma window_take_value: "wm_value (snd (window_take w)) \<in> {0, wm_value w}"
  by (simp add: window_take_def)

lemma loop_telemetry_typed: "server_typed s \<Longrightarrow> server_typed (fst (loop_telemetry now s))"
  using window_take_value [of "sv_hook_latency_win s"] window_take_value [of "sv_t3_error_win s"]
    window_take_value [of "sv_int_lead_win s"] window_take_value [of "sv_rx_stamp_gap_win s"]
  by (simp add: loop_telemetry_def Let_def case_prod_beta server_typed_def windows_typed_def ring_records_def)
    auto

lemma loop_typed:
  assumes "server_typed (fst x)" "server_loop env ms nif cached io x = (x', out)"
  shows "server_typed (fst x')"
proof -
  from assms(2) obtain s w a q sock where l: "loop_int_level env ms x = (s, w)"
    and x': "fst x' = fst (loop_telemetry (ms 7) (s\<lparr>sv_diag_socket := sock, sv_arp := a\<lparr>ac_primes_pending := False\<rparr>\<rparr>))"
    by (rule server_loop_cases)
  define s1 where "s1 = s\<lparr>sv_diag_socket := sock, sv_arp := a\<lparr>ac_primes_pending := False\<rparr>\<rparr>"
  have "typed_fields s1 = typed_fields (fst x)"
    using level_typed_fields(2) [of env ms x] by (simp add: l s1_def typed_fields_def)
  then have "server_typed s1" using assms(1) server_typed_cong by blast
  then show ?thesis by (simp add: x' loop_telemetry_typed flip: s1_def)
qed

lemma set_diagnostics_typed:
  "server_typed (fst x) \<Longrightarrow> server_typed (fst (set_diagnostics b ra na x))"
  "chip_typed (snd x) \<Longrightarrow> chip_typed (snd (set_diagnostics b ra na x))"
  by (cases x; auto simp: set_diagnostics_def Let_def server_typed_def windows_typed_def ring_records_def
      diag_slot_init_def record_typed_zero set_net_recorder_typed chip_typed_def)+

lemma patch_switch_typed: "chip_typed w \<Longrightarrow> chip_typed (set_post_write_t3 b s w)"
  by (simp add: set_post_write_t3_def w5500_set_tx_patch_def chip_typed_def)

lemma capture_typed: "chip_typed w \<Longrightarrow> chip_typed (int_capture_cb t w)"
  by (simp add: int_capture_cb_def chip_typed_def)

definition state_typed :: "ntp_server \<times> w5500 \<Rightarrow> bool" where
  "state_typed x \<longleftrightarrow> server_typed (fst x) \<and> chip_typed (snd x)"

lemma server_step_typed:
  assumes "server_step x x'" "server_inv (fst x)" "state_typed x"
  shows "state_typed x'"
proof -
  have sw: "server_typed (set_use_pps_anchor b s) = server_typed s"
    "server_typed (set_strict_rx_admission b s) = server_typed s"
    "server_typed (set_int_edge_t2 b s) = server_typed s"
    "server_typed (set_t2_frame_start b s) = server_typed s"
    "server_typed (set_chip_latency b s) = server_typed s" for b s
    by (rule server_typed_cong; simp add: switch_defs typed_fields_def)+
  from assms show ?thesis
    by (cases rule: server_stepE)
      (auto simp: state_typed_def sw server_typed_cong [OF level_typed_fields(1)] NTP_PACKET_SIZE_def
       intro: hook_typed recv_typed loop_typed set_diagnostics_typed chip_steps_typed
         patch_switch_typed capture_typed)
qed

lemma setup_typed: "state_typed (server_setup installed tv_deltas timer_deltas (ntp_server_init port, w5500_init))"
proof -
  have "precision_loop b 20 \<le> 128" for b
    by (rule order_trans [OF precision_loop_spec [THEN conjunct1]]) simp
  then have "- 128 \<le> clock_precision b \<and> clock_precision b < 128" for b
    by (simp add: clock_precision_def)
  moreover have "\<forall>i \<in> snd ` set (hr_slots hook_ring_init). info_typed i"
    by (auto simp: hr_slots_def hook_ring_init_def hook_entry_init_def info_typed_init)
  ultimately show ?thesis
    using net_typed_init
    by (simp add: server_setup_def state_typed_def server_typed_def ntp_server_init_def windows_typed_def
        window_init_def ring_records_def set_post_write_t3_def w5500_set_tx_patch_def w5500_init_def chip_typed_def)
qed

lemma server_reachable_typed: "server_reachable port x \<Longrightarrow> state_typed x"
proof (induction rule: server_reachable.induct)
  case (start r fd x)
  then show ?case using setup_typed by (auto simp: ntp_setup_Some)
next
  case (step x x')
  then show ?case using server_step_typed server_reachable_inv by blast
qed

text \<open>
  C5: Every reachable state is safe, whatever happened before. After any interleaving of frames,
  requests, passes of the main loop, switches and driver actions since set-up the prediction
  added to a served transmit time is between 0 and 5057 us and the one of the patch between 10 and
  500 us; an open run of rejected samples is one band of less than 100 us; and every table and ring has its
  full size with its cursor inside: the ring of the hook, the list of clients, which
  holds no client twice, the diagnostics ring and the bins of the network recorder, where they are
  allocated, the talkers, none of them twice, and the capture of an outgoing frame.
\<close>

theorem reachable_state_safe:
  assumes "server_reachable port (s, w)"
  shows "0 \<le> t3_offset_us s \<and> t3_offset_us s < 5057 \<and>
    10 \<le> pd_estimate_us (sv_patch_delay s) \<and> pd_estimate_us (sv_patch_delay s) \<le> 500 \<and>
    (0 < reject_run (sv_send_estimator s) \<longrightarrow>
      reject_max (sv_send_estimator s) - reject_min (sv_send_estimator s) < 100) \<and>
    length (hr_ring (sv_hook_ring s)) = 8 \<and> hr_next (sv_hook_ring s) < 8 \<and>
    length (ac_slots (sv_arp s)) = ARP_CLIENT_SLOTS \<and> ac_next (sv_arp s) < ARP_CLIENT_SLOTS \<and>
    distinct (filter (\<lambda>a. a \<noteq> 0) (ac_slots (sv_arp s))) \<and>
    sv_diag_next s < 1024 \<and> (\<forall>ring. sv_diag_ring s = Some ring \<longrightarrow> length ring = 1024) \<and>
    nr_cur (w_net w) < 1200 \<and> (\<forall>bins. nr_bins (w_net w) = Some bins \<longrightarrow> length bins = 1200) \<and>
    length (nr_talkers (w_net w)) = 32 \<and>
    distinct (map te_key (filter te_used (nr_talkers (w_net w)))) \<and> length (w_hdr w) \<le> 128"
proof -
  have i: "server_inv s" using server_reachable_inv [OF assms] by simp
  have c: "chip_ok w" using server_reachable_typed [OF assms] by (simp add: state_typed_def chip_typed_def)
  from i have t3: "0 \<le> t3_offset_us s" "t3_offset_us s < 5057"
    by (auto simp: server_inv_def est_ok_def send_consts t3_offset_us_def W5500_TX_STAMP_EARLY_US_def)
  from c have "tt_ok (nr_talkers (w_net w))" by (simp add: net_typed_def)
  then have "distinct (map te_key (filter te_used (nr_talkers (w_net w))))" "length (nr_talkers (w_net w)) = 32"
    using tt_ok_distinct by (simp_all add: tt_ok_def TT_SIZE_def)
  with i c t3 show ?thesis
    by (auto simp: server_inv_def est_ok_def run_ok_def send_consts delay_ok_def clients_ok_def arp_ok_def hr_ok_def
        HOOK_SIZE_def diag_safe_def DIAG_RING_SIZE_def net_typed_def nr_ok_def NET_BINS_def)
qed

theorem reachable_state_safe_witness:
  "let (s, w) = server_setup True [] [] (ntp_server_init 123, w5500_init) in
     t3_offset_us s < 5057 \<and> ac_next (sv_arp s) < ARP_CLIENT_SLOTS \<and> nr_cur (w_net w) < 1200"
proof -
  obtain s w where x: "server_setup True [] [] (ntp_server_init 123, w5500_init) = (s, w)" by fastforce
  have "server_reachable 123 (s, w)" using reachable_setup [of 123 True "[]" "[]"] by (simp add: x)
  from reachable_state_safe [OF this] show ?thesis by (simp add: x)
qed

text \<open>
  C6: The state is well typed in every reachable state, whatever frames, requests and commands
  came. Every quantity that the model keeps as an unbounded number, other than the 64-bit readings of the
  clock, stays in the range of its C type: the send estimate and the band of its rejected samples (32 bits, in
  fact below 5000), the run of rejects (eight bits), the patch delay, the cursors (eight and 16 bits), the
  precisions (eight bits), the telemetry windows, and in every record of the hook
  ring and of the diagnostics ring each lead, gap, size, delay and prediction. Every array has its fixed
  length: the eight-byte transmit fields, the slots' keys, in the network
  recorder a counter per frame class in each bin and two six-byte addresses in each talker.\<close>

theorem reachable_state_typed:
  assumes "server_reachable port (s, w)"
  shows "estimate_us (sv_send_estimator s) \<in> {0..<5000} \<and> reject_run (sv_send_estimator s) \<le> 255 \<and>
    reject_min (sv_send_estimator s) \<in> {0..<5000} \<and> reject_max (sv_send_estimator s) \<in> {0..<5000} \<and>
    i32_ok (pd_estimate_us (sv_patch_delay s)) \<and> ac_next (sv_arp s) < 256 \<and>
    hr_next (sv_hook_ring s) < 256 \<and> sv_diag_next s < 65536 \<and> nr_cur (w_net w) < 65536 \<and>
    sv_precision s \<in> {- 128..<128} \<and> sv_precision_anchor s \<in> {- 128..<128} \<and> windows_typed s \<and>
    (\<forall>(key, info) \<in> set (hr_slots (sv_hook_ring s)). length key = 14 \<and> info_typed info) \<and>
    (\<forall>d \<in> ring_records s. record_typed d) \<and>
    (\<forall>bins. nr_bins (w_net w) = Some bins \<longrightarrow> (\<forall>b \<in> set bins. bin_typed b)) \<and>
    (\<forall>e \<in> set (nr_talkers (w_net w)). entry_typed e)"
proof -
  have i: "server_inv s" using server_reachable_inv [OF assms] by simp
  have t: "server_typed s" "chip_ok w" using server_reachable_typed [OF assms] by (simp_all add: state_typed_def chip_typed_def)
  have "\<forall>(key, info) \<in> set (hr_slots (sv_hook_ring s)). length key = 14 \<and> info_typed info"
    using i t(1) by (fastforce simp: server_inv_def hr_ok_def hr_slots_def server_typed_def KEY_SIZE_def)
  moreover have "ac_next (sv_arp s) < 256" "hr_next (sv_hook_ring s) < 256" "sv_diag_next s < 65536"
    "nr_cur (w_net w) < 65536"
    using i t(2) by (auto simp: server_inv_def clients_ok_def arp_ok_def ARP_CLIENT_SLOTS_def hr_ok_def HOOK_SIZE_def
        diag_safe_def DIAG_RING_SIZE_def net_typed_def nr_ok_def NET_BINS_def)
  moreover have "i32_ok (pd_estimate_us (sv_patch_delay s))"
    using i by (auto simp: server_inv_def delay_ok_def i32_ok_def)
  moreover have "estimate_us (sv_send_estimator s) \<in> {0..<5000} \<and> reject_run (sv_send_estimator s) \<le> 255 \<and>
    reject_min (sv_send_estimator s) \<in> {0..<5000} \<and> reject_max (sv_send_estimator s) \<in> {0..<5000}"
    using i by (simp add: server_inv_def est_ok_def run_ok_def send_consts)
  ultimately show ?thesis using t by (simp add: server_typed_def net_typed_def)
qed

theorem reachable_state_typed_witness:
  "let (s, w) = set_diagnostics True True True (server_setup True [] [] (ntp_server_init 123, w5500_init)) in
     reject_run (sv_send_estimator s) \<le> 255 \<and> (\<forall>d \<in> ring_records s. record_typed d) \<and> windows_typed s"
proof -
  obtain s w where x: "set_diagnostics True True True (server_setup True [] [] (ntp_server_init 123, w5500_init)) = (s, w)"
    by fastforce
  have "server_reachable 123 (s, w)"
    unfolding x [symmetric] using reachable_setup server_step.diag_switch by (rule server_reachable.step)
  from reachable_state_typed [OF this] show ?thesis by (simp add: x)
qed

subsection \<open>The diagnostics port in any reachable state\<close>

lemma typed_sized:
  assumes "record_typed d" "\<bar>dg_t2_us d\<bar> < 10 ^ 19"
  shows "length (req_line d) < LINE_SIZE"
proof -
  have w: "length (fmt_d i) \<le> k + (if i < 0 then 1 else 0)" if "- (10 ^ k) < i" "i < 10 ^ k" "0 < k" for i and k :: nat
    using fmt_d_length [OF that(1,2) that(3,3)] by (simp split: if_splits)
  have n: "length (fmt_d i) \<le> m" if "- 1 \<le> i" "i < 10 ^ m" "2 \<le> m" for i and m :: nat
    using fmt_d_length [of 1 i m] that by (auto split: if_splits)
  have t: "length (fmt_d (dg_t2_us d)) \<le> 20"
    using w [of 19 "dg_t2_us d"] assms(2) by (auto simp: abs_less_iff split: if_splits)
  have x: "length (tx_hex (dg_client_tx d)) = 16"
    using assms(1) by (simp add: record_typed_def tx_hex_length)
  have i: "length (fmt_d i) \<le> 11" if "i32_ok i" for i
    using that fmt_d_i32_length by (simp add: i32_ok_def)
  have s: "length (fmt_d (dg_int_lead_us d)) \<le> 7" "length (fmt_d (dg_rx_gap_us d)) \<le> 5"
    "length (fmt_d (dg_rx_rsr d)) \<le> 5" "length (fmt_d (dg_estimate_us d)) \<le> 4"
    "length (fmt_d (dg_patch_pred_us d)) \<le> 3"
    using assms(1) by (intro n; simp add: record_typed_def)+
  have "length (spaced (map fmt_d (req_ints d))) \<le> 19 + 11 * 11 + 7 + 5 + 5 + 4 + 3 + 1 + 2 + 1"
    using assms(1) s refuse_code_length [of "dg_refuse_reason d"] send_class_length [of "dg_send_class d"]
      of_bool_length [of "dg_patched d"] i [of "dg_hook_latency_us d"] i [of "dg_send_us d"]
      i [of "dg_sendto_us d"] i [of "dg_lock_wait_us d"] i [of "dg_arp_wait_us d"]
      i [of "dg_tx_write_start_us d"] i [of "dg_tx_write_end_us d"] i [of "dg_frame_len d"]
      i [of "dg_patch_to_send_us d"] i [of "dg_t3_calc_to_t0_us d"] i [of "dg_sendok_interval_us d"]
    by (simp add: spaced_def req_ints_def record_typed_def)
  then show ?thesis
    using t x fmt_x16_length [of "dg_flags d"] by (simp add: req_line_def LINE_SIZE_def NL_def)
qed

text \<open>
  What a dump may read: the clocks are 64 bits wide, and each record, bin and talker is one the
  state held at some moment of the run, not necessarily the same for all of them.
\<close>

definition reads_of_run :: "u16 \<Rightarrow> diag_reads \<Rightarrow> bool" where
  "reads_of_run port rds \<longleftrightarrow> \<bar>rd_timer_us rds\<bar> < 10 ^ 19 \<and> \<bar>rd_wall_us rds\<bar> < 10 ^ 19 \<and>
     (\<forall>i d. dump_slot (rd_slot rds i) = Some d \<longrightarrow> \<bar>dg_t2_us d\<bar> < 10 ^ 19 \<and>
        (\<exists>s w. server_reachable port (s, w) \<and> d \<in> ring_records s)) \<and>
     (\<forall>i b. rd_bin rds i = Some b \<longrightarrow>
        (\<exists>s w j. server_reachable port (s, w) \<and> net_bin_get j (w_net w) = Some b)) \<and>
     (\<forall>i t. rd_talker rds i = Some t \<longrightarrow>
        (\<exists>s w j. server_reachable port (s, w) \<and> tt_get j (nr_talkers (w_net w)) = Some t))"

lemma run_reads_sized:
  assumes "reads_of_run port rds"
  shows "diag_reads_sized (rds\<lparr>rd_int_level := level\<rparr>)"
proof -
  have typed: "(\<forall>d \<in> ring_records s. record_typed d) \<and> net_typed (w_net w)"
    if "server_reachable port (s, w)" for s w
    using server_reachable_typed [OF that] by (simp add: state_typed_def server_typed_def chip_typed_def)
  note r = assms [unfolded reads_of_run_def]
  have d: "length (req_line d) < LINE_SIZE" if slot: "dump_slot (rd_slot rds i) = Some d" for i d
  proof -
    obtain s w where "server_reachable port (s, w)" "d \<in> ring_records s" "\<bar>dg_t2_us d\<bar> < 10 ^ 19"
      using r slot by blast
    with typed show ?thesis by (intro typed_sized) blast+
  qed
  have b: "length (nb_tx b) = FC_COUNT \<and> length (nb_rx b) = FC_COUNT" if bin: "rd_bin rds i = Some b" for i b
  proof -
    obtain s w j where "server_reachable port (s, w)" "net_bin_get j (w_net w) = Some b" using r bin by blast
    with typed net_bin_get_typed show ?thesis by (simp add: bin_typed_def) blast
  qed
  have t: "length (tk_src_mac t) = 6 \<and> length (tk_first_dst_mac t) = 6" if talk: "rd_talker rds i = Some t" for i t
  proof -
    obtain s w j where "server_reachable port (s, w)" "tt_get j (nr_talkers (w_net w)) = Some t" using r talk by blast
    with typed tt_get_typed show ?thesis by blast
  qed
  show ?thesis using r d b t by (simp add: diag_reads_sized_def)
qed

text \<open>The answer of a pass that has read a command: \<open>INT\<close> reads the level from the chip first.\<close>

definition answer_reads :: "spi_env \<Rightarrow> (nat \<Rightarrow> u32) \<Rightarrow> diag_io \<Rightarrow> string \<Rightarrow> ntp_server \<times> w5500 \<Rightarrow> diag_reads" where
  "answer_reads env ms io cmd x = (dio_reads io)\<lparr>rd_int_level :=
     if is_cmd ''INT'' cmd then snd (w5500_read_int_level env (snd (loop_int_level env ms x))) else None\<rparr>"

lemma loop_answer:
  assumes "server_loop env ms nif cached io (s, w) = (x', out)" "sv_diagnostics s" "0 \<le> sv_diag_socket s"
    and "dio_received io = Some cmd" "cmd \<noteq> []"
  shows "lo_answer out = diag_answer (answer_reads env ms io (take 15 cmd) (s, w)) (fst x') (take 15 cmd)"
proof -
  from assms(1) obtain s1 w1 arp sock where l: "loop_int_level env ms (s, w) = (s1, w1)"
    and x': "fst x' = fst (loop_telemetry (ms 7) (s1\<lparr>sv_diag_socket := sock, sv_arp := arp\<lparr>ac_primes_pending := False\<rparr>\<rparr>))"
    and a: "lo_answer out = snd (diag_serve env io (s1\<lparr>sv_arp := arp\<rparr>, w1))"
    by (rule server_loop_cases)
  have k: "sv_diagnostics s1" "0 \<le> sv_diag_socket s1"
    using level_keeps_diag [of env ms "(s, w)"] assms(2,3) by (simp_all add: l)
  have "lo_answer out = diag_answer (answer_reads env ms io (take 15 cmd) (s, w))
      (s1\<lparr>sv_arp := arp, sv_diag_socket := sv_diag_socket s1\<rparr>) (take 15 cmd)"
    unfolding a answer_reads_def using k assms(4,5)
    by (simp add: diag_serve_def diag_socket_ready_def Let_def l split: prod.split)
  also have "\<dots> = diag_answer (answer_reads env ms io (take 15 cmd) (s, w)) (fst x') (take 15 cmd)"
    by (rule diag_answer_cong) (simp_all add: x' loop_telemetry_def Let_def split: prod.split)
  finally show ?thesis .
qed

text \<open>
  C38: Every command gets a complete answer, in every pass of the main loop, whatever happened
  before and goes on during the dump. No datagram is empty or longer than 1400 bytes. When the
  diagnostics are on and a command has come (cut to 15 bytes), the datagrams are the lines of the answer, all of
  them and in order, each of them whole within one datagram: the lines of the body for this command, as the state
  after the pass and the reads of the dump give them, and a last line with their number, or 0 after the
  usage message of an unknown command. No line is empty, and none fills its 240-byte buffer, so that
  none is truncated and no byte behind it is sent.\<close>

theorem loop_answers_completely:
  assumes "reads_of_run port (dio_reads io)" "server_loop env ms nif cached io (s, w) = (x', out)"
  shows "\<exists>datagrams. lo_answer out = Some datagrams \<and> (\<forall>d \<in> set datagrams. d \<noteq> [] \<and> length d \<le> 1400) \<and>
    (sv_diagnostics s \<and> 0 \<le> sv_diag_socket s \<and> dio_received io = Some cmd \<and> cmd \<noteq> [] \<longrightarrow>
      (let (body, n) = diag_body (answer_reads env ms io (take 15 cmd) (s, w)) (fst x') (take 15 cmd);
           lines = body @ [end_line (take 15 cmd) n] in
       (\<exists>groups. datagrams = map concat groups \<and> concat groups = lines) \<and>
       (\<forall>l \<in> set lines. l \<noteq> [] \<and> length l < 240) \<and> (n = length body \<or> body = [usage_line] \<and> n = 0)))"
proof (cases "sv_diagnostics s \<and> 0 \<le> sv_diag_socket s \<and> dio_received io = Some cmd \<and> cmd \<noteq> []")
  case True
  let ?rds = "answer_reads env ms io (take 15 cmd) (s, w)"
  have sized: "diag_reads_sized ?rds" unfolding answer_reads_def by (rule run_reads_sized [OF assms(1)])
  have "lo_answer out = diag_answer ?rds (fst x') (take 15 cmd)" using loop_answer [OF assms(2)] True by blast
  with answer_packs_lines [OF sized] obtain datagrams groups where g: "lo_answer out = Some datagrams"
    "datagrams = map concat groups" "concat groups = fst (diag_body ?rds (fst x') (take 15 cmd)) @
       [end_line (take 15 cmd) (snd (diag_body ?rds (fst x') (take 15 cmd)))]"
    "\<forall>d \<in> set datagrams. d \<noteq> [] \<and> length d \<le> BATCH_SIZE" by metis
  with answer_lines_sized [OF sized] body_counted [of ?rds "fst x'" "take 15 cmd"] show ?thesis
    unfolding Let_def case_prod_beta LINE_SIZE_def BATCH_SIZE_def by (intro exI [of _ datagrams]) blast
next
  case False
  from assms(2) obtain s1 w1 arp where
    a: "lo_answer out = snd (diag_serve env io (s1\<lparr>sv_arp := arp\<rparr>, w1))" by (rule server_loop_cases)
  have "lo_answer out = Some [] \<or>
      (\<exists>level t c. lo_answer out = diag_answer ((dio_reads io)\<lparr>rd_int_level := level\<rparr>) t c)"
    unfolding a by (auto simp: diag_serve_def Let_def split: option.split prod.split)
  then have "\<exists>datagrams. lo_answer out = Some datagrams \<and> (\<forall>d \<in> set datagrams. d \<noteq> [] \<and> length d \<le> 1400)"
    using answer_packs_lines [OF run_reads_sized [OF assms(1)]] unfolding BATCH_SIZE_def by (metis empty_iff empty_set)
  with False show ?thesis by blast
qed

lemma concat_concat_groups: "concat (map concat gs) = concat (concat gs)"
  by (induction gs) simp_all

text \<open>The example: dumps taken from the state itself, with nothing else running.\<close>

definition settled_reads :: "ntp_server \<times> w5500 \<Rightarrow> diag_reads" where
  "settled_reads x = \<lparr>rd_timer_us = 1000, rd_micros = 1000, rd_wall_us = 0, rd_slot = settled_slots (fst x),
     rd_bin = (\<lambda>i. net_bin_get i (w_net (snd x))), rd_talker = (\<lambda>i. tt_get (int i) (nr_talkers (w_net (snd x)))),
     rd_int_level = None, rd_ms = 0\<rparr>"

lemma dump_quiet_rec: "dump_slot (quiet_reads e) = Some d \<Longrightarrow> d = ds_rec e"
  by (auto simp: dump_slot_def quiet_reads_def numeral_3_eq_3 split: if_splits option.splits)

lemma settled_of_run:
  assumes "server_reachable port x" "\<forall>d \<in> ring_records (fst x). \<bar>dg_t2_us d\<bar> < 10 ^ 19"
  shows "reads_of_run port (settled_reads x)"
proof -
  obtain s w where x: "x = (s, w)" by fastforce
  have safe: "diag_safe s" using server_reachable_inv [OF assms(1)] by (simp add: x server_inv_def)
  have rec: "d \<in> ring_records s" if slot: "dump_slot (settled_slots s i) = Some d" for i d
  proof (cases "sv_diag_ring s")
    case None
    then show ?thesis using slot by (simp add: settled_slots_def dump_slot_def)
  next
    case (Some ring)
    then have "(sv_diag_next s + i) mod DIAG_RING_SIZE < length ring"
      using safe by (simp add: diag_safe_def DIAG_RING_SIZE_def)
    moreover have "d = ds_rec (ring ! ((sv_diag_next s + i) mod DIAG_RING_SIZE))"
      using slot Some by (intro dump_quiet_rec) (simp add: settled_slots_def)
    ultimately show ?thesis by (simp add: ring_records_def Some)
  qed
  have r: "server_reachable port (s, w)" "\<forall>d \<in> ring_records s. \<bar>dg_t2_us d\<bar> < 10 ^ 19"
    using assms by (simp_all add: x)
  show ?thesis
    unfolding reads_of_run_def settled_reads_def x diag_reads.simps fst_conv snd_conv
  proof (intro conjI allI impI)
    fix i d assume "dump_slot (settled_slots s i) = Some d"
    then have "d \<in> ring_records s" by (rule rec)
    with r show "\<bar>dg_t2_us d\<bar> < 10 ^ 19" "\<exists>s w. server_reachable port (s, w) \<and> d \<in> ring_records s" by blast+
  qed (use r(1) in \<open>simp; blast\<close>)+
qed

theorem loop_answers_completely_witness:
  "\<exists>rds datagrams. reads_of_run 123 rds \<and>
     lo_answer (snd (server_loop (failing (\<lambda>_. True)) (\<lambda>_. 0) None (\<lambda>_. False)
       \<lparr>dio_fd = 3, dio_bound = 0, dio_received = Some ''CLK'', dio_reads = rds\<rparr>
       (recording\<lparr>sv_diag_socket := 7\<rparr>, w5500_init))) = Some datagrams \<and>
     concat datagrams = clk_line 1000 1000 0 @ end_line ''CLK'' 1 \<and> (\<exists>d \<in> set datagrams. d \<noteq> [])"
proof -
  obtain x where x: "set_diagnostics True True True (server_setup True [] [] (ntp_server_init 123, w5500_init)) = x"
    by fastforce
  have "server_reachable 123 x"
    unfolding x [symmetric] using reachable_setup server_step.diag_switch by (rule server_reachable.step)
  moreover have "\<forall>d \<in> ring_records (fst x). \<bar>dg_t2_us d\<bar> < 10 ^ 19"
    unfolding x [symmetric]
    by (simp add: set_diagnostics_def server_setup_def ring_records_def ntp_server_init_def diag_slot_init_def
        diag_record_zero_def Let_def)
  ultimately have r: "reads_of_run 123 (settled_reads x)" by (rule settled_of_run)
  let ?io = "\<lparr>dio_fd = 3, dio_bound = 0, dio_received = Some ''CLK'', dio_reads = settled_reads x\<rparr>"
  obtain x' out where l: "server_loop (failing (\<lambda>_. True)) (\<lambda>_. 0) None (\<lambda>_. False) ?io
      (recording\<lparr>sv_diag_socket := 7\<rparr>, w5500_init) = (x', out)" by fastforce
  have io: "reads_of_run 123 (dio_reads ?io)" using r by simp
  have body: "diag_body (answer_reads (failing (\<lambda>_. True)) (\<lambda>_. 0) ?io ''CLK'' (recording\<lparr>sv_diag_socket := 7\<rparr>, w5500_init))
      t ''CLK'' = ([clk_line 1000 1000 0], 1)" for t
    by (simp add: diag_body_def is_cmd_def answer_reads_def settled_reads_def Let_def)
  have on: "sv_diagnostics (recording\<lparr>sv_diag_socket := 7\<rparr>)" "dio_received ?io = Some ''CLK''"
    by (simp_all add: recording_def)
  from loop_answers_completely [OF io l, of "''CLK''"] obtain datagrams groups
    where g: "lo_answer out = Some datagrams" "\<forall>d \<in> set datagrams. d \<noteq> []" "datagrams = map concat groups"
      "concat groups = [clk_line 1000 1000 0, end_line ''CLK'' 1]"
    using on by (fastforce simp: body)
  then have c: "concat datagrams = clk_line 1000 1000 0 @ end_line ''CLK'' 1"
    by (simp add: concat_concat_groups)
  moreover have "datagrams \<noteq> []" using c by (auto simp: end_line_def)
  ultimately show ?thesis
    using r l g(1,2) by (intro exI [of _ "settled_reads x"] exI [of _ datagrams]) (auto simp: neq_Nil_conv)
qed

end
