(* ===== verification/DiagRead.thy ===== *)
theory DiagRead
  imports DiagPort
begin

text \<open>
  What a client of the diagnostics port can recover from the text \<open>diag_serve_\<close> prints: a reader of
  the REQ dump, which splits the answer at line ends and the lines at spaces, and the proof that it
  gets back every field of every record.
\<close>

subsection \<open>Reading numbers\<close>

definition digit_value :: "char \<Rightarrow> nat" where
  "digit_value c = length (takeWhile (\<lambda>d. d \<noteq> c) ''0123456789abcdef'')"

definition read_digits :: "nat \<Rightarrow> string \<Rightarrow> nat" where
  "read_digits b s = foldl (\<lambda>n c. n * b + digit_value c) 0 s"

definition read_d :: "string \<Rightarrow> int" where
  "read_d s = (if take 1 s = ''-'' then - int (read_digits 10 (drop 1 s)) else int (read_digits 10 s))"

fun read_bytes :: "string \<Rightarrow> u8 list" where
  "read_bytes (a # b # s) = of_nat (digit_value a * 16 + digit_value b) # read_bytes s"
| "read_bytes _ = []"

lemma hex_digit_facts:
  assumes "n < 16"
  shows "digit_value (hex_digit n) = n \<and> hex_digit n \<notin> {CHR '' '', CHR 0x0A, CHR ''-''}"
proof -
  have "\<forall>n \<in> set [0..<16]. digit_value (hex_digit n) = n \<and> hex_digit n \<notin> set [CHR '' '', CHR 0x0A, CHR ''-'']"
    by code_simp
  with assms show ?thesis by simp
qed

lemma digits_chars: "2 \<le> b \<Longrightarrow> b \<le> 16 \<Longrightarrow> set (digits b n) \<inter> {CHR '' '', CHR 0x0A, CHR ''-''} = {}"
proof (induction b n rule: digits.induct)
  case (1 b n)
  show ?case
  proof (cases "n < b")
    case True
    with 1 hex_digit_facts [of n] show ?thesis by (simp add: digits.simps [of b n])
  next
    case False
    have "n mod b < 16" using 1(2,3) mod_less_divisor [of b n] by linarith
    with False 1 hex_digit_facts [of "n mod b"] show ?thesis by (simp add: digits.simps [of b n])
  qed
qed

lemma read_digits_digits: "2 \<le> b \<Longrightarrow> b \<le> 16 \<Longrightarrow> read_digits b (digits b n) = n"
proof (induction b n rule: digits.induct)
  case (1 b n)
  show ?case
  proof (cases "n < b")
    case True
    with 1 hex_digit_facts [of n] show ?thesis by (simp add: digits.simps [of b n] read_digits_def)
  next
    case False
    have m: "n mod b < 16" using 1(2,3) mod_less_divisor [of b n] by linarith
    have "read_digits b (digits b (n div b)) = n div b" using 1 False by simp
    then show ?thesis
      using False 1(2) hex_digit_facts [OF m] by (simp add: digits.simps [of b n] read_digits_def)
  qed
qed

lemma fmt_d_chars: "set (fmt_d i) \<inter> {CHR '' '', CHR 0x0A} = {}"
  using digits_chars [of 10 "nat i"] digits_chars [of 10 "nat (- i)"] by (auto simp: fmt_d_def)

lemma read_d_fmt_d: "read_d (fmt_d i) = i"
proof (cases "i < 0")
  case True
  then show ?thesis by (simp add: read_d_def fmt_d_def read_digits_digits)
next
  case False
  obtain c cs where c: "digits 10 (nat i) = c # cs" by (meson digits_nonempty neq_Nil_conv)
  then have "c \<noteq> CHR ''-''" using digits_chars [of 10 "nat i"] by auto
  with False c show ?thesis
    using read_digits_digits [of 10 "nat i"] by (simp add: read_d_def fmt_d_def)
qed

lemma fmt_02x: "n < 256 \<Longrightarrow> fmt_0x 2 n = [hex_digit (n div 16), hex_digit (n mod 16)]"
  by (cases "n < 16") (simp_all add: fmt_0x_def fmt_x_def digits.simps hex_digit_def)

lemma tx_hex_reads: "read_bytes (tx_hex bs) = bs \<and> set (tx_hex bs) \<inter> {CHR '' '', CHR 0x0A} = {}"
proof (induction bs)
  case (Cons b bs)
  have n: "unat b < 256" by (rule word_bounds)
  then have d: "unat b div 16 < 16" "unat b mod 16 < 16"
    by (simp_all add: div_less_iff_less_mult)
  have "tx_hex (b # bs) = [hex_digit (unat b div 16), hex_digit (unat b mod 16)] @ tx_hex bs"
    using fmt_02x [OF n] by (simp add: tx_hex_def)
  with Cons hex_digit_facts [OF d(1)] hex_digit_facts [OF d(2)] show ?case
    by (simp add: div_mult_mod_eq del: of_nat_add)
qed (simp add: tx_hex_def)

subsection \<open>Splitting text\<close>

function split_at :: "char \<Rightarrow> string \<Rightarrow> string list" where
  "split_at sep s = (case dropWhile (\<lambda>c. c \<noteq> sep) s of [] \<Rightarrow> [s]
     | _ # r \<Rightarrow> takeWhile (\<lambda>c. c \<noteq> sep) s # split_at sep r)"
  by pat_completeness auto

termination
proof (relation "measure (\<lambda>(_, s). length s)")
  fix sep :: char and s c r
  assume "dropWhile (\<lambda>c. c \<noteq> sep) s = c # r"
  then have "length (c # r) \<le> length s" by (metis length_dropWhile_le)
  then show "((sep, r), sep, s) \<in> measure (\<lambda>(_, s). length s)" by simp
qed simp

declare split_at.simps [simp del]

lemma split_at_sep: "sep \<notin> set x \<Longrightarrow> split_at sep (x @ sep # r) = x # split_at sep r"
proof -
  assume x: "sep \<notin> set x"
  then have "dropWhile (\<lambda>c. c \<noteq> sep) (x @ sep # r) = sep # r" "takeWhile (\<lambda>c. c \<noteq> sep) (x @ sep # r) = x"
    by (induction x) auto
  then show ?thesis by (subst split_at.simps) simp
qed

lemma split_at_end: "sep \<notin> set x \<Longrightarrow> split_at sep x = [x]"
proof -
  assume "sep \<notin> set x"
  then have "dropWhile (\<lambda>c. c \<noteq> sep) x = []" by (induction x) auto
  then show ?thesis by (subst split_at.simps) (simp only: list.case)
qed

lemma split_at_spaced:
  "CHR '' '' \<notin> set y \<Longrightarrow> \<forall>x \<in> set xs. CHR '' '' \<notin> set x \<Longrightarrow> split_at CHR '' '' (y @ spaced xs) = y # xs"
proof (induction xs arbitrary: y)
  case (Cons x xs)
  have "spaced (x # xs) = CHR '' '' # x @ spaced xs" by (simp add: spaced_def)
  with Cons show ?case by (simp add: split_at_sep)
qed (simp add: spaced_def split_at_end)

lemma split_at_lines:
  "\<forall>x \<in> set xs. sep \<notin> set x \<Longrightarrow> split_at sep (concat (map (\<lambda>x. x @ [sep]) xs)) = xs @ [[]]"
  by (induction xs) (simp_all add: split_at_sep split_at_end)

subsection \<open>Reading a dump\<close>

text \<open>The fields of one line: the time, the transmit field, the flags and the integers.\<close>

definition read_req :: "string \<Rightarrow> (int \<times> u8 list \<times> nat \<times> int list) option" where
  "read_req l = (case split_at CHR '' '' l of
       r # t # tx # f # is \<Rightarrow> if r = ''R'' then Some (read_d t, read_bytes tx, read_digits 16 f, map read_d is) else None
     | _ \<Rightarrow> None)"

definition req_fields :: "diag_record \<Rightarrow> int \<times> u8 list \<times> nat \<times> int list" where
  "req_fields r = (dg_t2_us r, dg_client_tx r, unat (dg_flags r), req_ints r)"

definition read_dump :: "string list \<Rightarrow> (int \<times> u8 list \<times> nat \<times> int list) list" where
  "read_dump datagrams = List.map_filter read_req (split_at CHR 0x0A (concat datagrams))"

definition req_text :: "diag_record \<Rightarrow> string" where
  "req_text r = ''R'' @ spaced ([fmt_d (dg_t2_us r), tx_hex (dg_client_tx r), fmt_x (unat (dg_flags r))] @
     map fmt_d (req_ints r))"

lemma req_line_text: "req_line r = req_text r @ NL"
  by (simp add: req_line_def req_text_def spaced_def)

lemma fmt_x_chars: "set (fmt_x n) \<inter> {CHR '' '', CHR 0x0A} = {}"
  using digits_chars [of 16 n] by (auto simp: fmt_x_def)

lemma read_req_text: "read_req (req_text r) = Some (req_fields r)"
proof -
  have "split_at CHR '' '' (req_text r) =
      ''R'' # fmt_d (dg_t2_us r) # tx_hex (dg_client_tx r) # fmt_x (unat (dg_flags r)) # map fmt_d (req_ints r)"
    unfolding req_text_def
    using fmt_d_chars tx_hex_reads [of "dg_client_tx r"] fmt_x_chars [of "unat (dg_flags r)"]
    by (subst split_at_spaced) auto
  then show ?thesis
    by (simp add: read_req_def req_fields_def read_d_fmt_d tx_hex_reads fmt_x_def read_digits_digits o_def)
qed

lemma req_text_no_newline: "CHR 0x0A \<notin> set (req_text r)"
  using fmt_d_chars tx_hex_reads [of "dg_client_tx r"] fmt_x_chars [of "unat (dg_flags r)"]
  by (auto simp: req_text_def spaced_def)

lemma read_dump_lines:
  assumes "concat datagrams = concat (map req_line ds @ [''END REQ '' @ fmt_u n @ NL])"
  shows "read_dump datagrams = map req_fields ds"
proof -
  let ?e = "''END REQ '' @ fmt_u n"
  have e: "CHR 0x0A \<notin> set ?e" using digits_chars [of 10 n] by (auto simp: fmt_u_def)
  have "concat datagrams = concat (map (\<lambda>x. x @ [CHR 0x0A]) (map req_text ds @ [?e]))"
    using assms by (simp add: req_line_text [abs_def] NL_def o_def)
  then have s: "split_at CHR 0x0A (concat datagrams) = map req_text ds @ [?e, []]"
    using e req_text_no_newline by (simp only:) (subst split_at_lines; auto)
  have "read_req ?e = None"
    using digits_chars [of 10 n] split_at_sep [of "CHR '' ''" "''END''" "''REQ '' @ fmt_u n"]
      split_at_sep [of "CHR '' ''" "''REQ''" "fmt_u n"]
    by (auto simp: read_req_def fmt_u_def split_at_end)
  moreover have "read_req [] = None" by (simp add: read_req_def split_at_end)
  moreover have "List.map_filter read_req (map req_text ds @ rest) = map req_fields ds @ List.map_filter read_req rest"
    for rest by (induction ds) (simp_all add: map_filter_simps read_req_text)
  ultimately show ?thesis by (simp add: read_dump_def s map_filter_simps)
qed

text \<open>
  C37: The dump is a faithful copy of the ring: from the datagrams of the answer to REQ a client reads
  back every field of every record, of the last 1024 requests, oldest first. The text of one record
  determines its time, its transmit field, its flags and its nineteen integers, whatever they are.\<close>

theorem req_dump_reads_back:
  assumes fresh: "sv_diag_ring s = Some (replicate DIAG_RING_SIZE diag_slot_init)" "sv_diagnostics s"
      "sv_diag_next s < DIAG_RING_SIZE"
    and ds: "\<forall>d \<in> set ds. dg_t2_us d > 0 \<and> diag_record_sized d"
    and rds: "diag_reads_sized (rds\<lparr>rd_slot := \<lambda>_. []\<rparr>)"
      "rd_slot rds = settled_slots (fold diag_record_op ds s)"
    and cmd: "is_cmd ''REQ'' cmd"
  shows "map_option read_dump (diag_answer rds (fold diag_record_op ds s) cmd) =
    Some (map req_fields (drop (length ds - 1024) ds))"
proof -
  obtain datagrams groups where a: "diag_answer rds (fold diag_record_op ds s) cmd = Some datagrams"
    "datagrams = map concat groups"
    "concat groups = map req_line (drop (length ds - 1024) ds) @ [''END REQ '' @ fmt_u (min 1024 (length ds)) @ NL]"
    using req_dump_on_the_wire_aux [OF assms] by blast
  have "concat datagrams = concat (concat groups)" unfolding a(2) by (induction groups) simp_all
  then have "read_dump datagrams = map req_fields (drop (length ds - 1024) ds)"
    by (intro read_dump_lines) (simp only: a(3))
  with a(1) show ?thesis by simp
qed

theorem req_dump_reads_back_witness:
  "map_option read_dump (diag_answer (idle_reads\<lparr>rd_slot := settled_slots (diag_record_op one_request recording)\<rparr>)
      (diag_record_op one_request recording) ''REQ'') = Some [req_fields one_request]"
proof -
  have sized: "diag_record_sized one_request"
    by (simp add: diag_record_sized_def one_request_def diag_record_zero_def req_ints_def i32_ok_def
        send_class_code_def)
  have idle: "diag_reads_sized (idle_reads\<lparr>rd_slot := settled_slots (diag_record_op one_request recording), rd_slot := \<lambda>_. []\<rparr>)"
    using idle_reads_sized by (simp add: idle_reads_def)
  show ?thesis
    using req_dump_reads_back [of recording "[one_request]" "idle_reads\<lparr>rd_slot := settled_slots (diag_record_op one_request recording)\<rparr>" "''REQ''"]
      sized idle
    by (simp add: recording_def ntp_server_init_def DIAG_RING_SIZE_def is_cmd_def one_request_def)
qed

end
