(* ===== verification/DiagRace.thy ===== *)
theory DiagRace
  imports ServerState Seqlock
begin

text \<open>
  The diagnostics ring under concurrency: \<open>diag_record_\<close> of \<open>components/ntp_server/ntp_server.cpp\<close>
  writes a slot in the serving task while \<open>diag_serve_\<close> copies it in the main loop. The record is
  written and copied cell by cell, the 64-bit time in two halves and the transmit field in bytes; a
  copy may take the cells in any order.
\<close>

subsection \<open>The cells of a record\<close>

definition copy_t2_low :: "diag_record \<Rightarrow> diag_record \<Rightarrow> diag_record" where
  "copy_t2_low p r = r\<lparr>dg_t2_us := 4294967296 * (dg_t2_us r div 4294967296) + dg_t2_us p mod 4294967296\<rparr>"

definition copy_t2_high :: "diag_record \<Rightarrow> diag_record \<Rightarrow> diag_record" where
  "copy_t2_high p r = r\<lparr>dg_t2_us := 4294967296 * (dg_t2_us p div 4294967296) + dg_t2_us r mod 4294967296\<rparr>"

definition copy_tx :: "nat \<Rightarrow> diag_record \<Rightarrow> diag_record \<Rightarrow> diag_record" where
  "copy_tx j p r = r\<lparr>dg_client_tx := (dg_client_tx r)[j := dg_client_tx p ! j]\<rparr>"

text \<open>One assignment per cell, of the record \<open>p\<close> to the record \<open>r\<close>.\<close>

definition diag_cells :: "(diag_record \<Rightarrow> diag_record \<Rightarrow> diag_record) list" where
  "diag_cells = [copy_t2_low, copy_t2_high] @ map copy_tx [0..<8] @
    [\<lambda>p r. r\<lparr>dg_flags := dg_flags p\<rparr>, \<lambda>p r. r\<lparr>dg_int_lead_us := dg_int_lead_us p\<rparr>,
     \<lambda>p r. r\<lparr>dg_rx_gap_us := dg_rx_gap_us p\<rparr>, \<lambda>p r. r\<lparr>dg_hook_latency_us := dg_hook_latency_us p\<rparr>,
     \<lambda>p r. r\<lparr>dg_send_us := dg_send_us p\<rparr>, \<lambda>p r. r\<lparr>dg_sendto_us := dg_sendto_us p\<rparr>,
     \<lambda>p r. r\<lparr>dg_lock_wait_us := dg_lock_wait_us p\<rparr>, \<lambda>p r. r\<lparr>dg_estimate_us := dg_estimate_us p\<rparr>,
     \<lambda>p r. r\<lparr>dg_arp_wait_us := dg_arp_wait_us p\<rparr>, \<lambda>p r. r\<lparr>dg_refuse_reason := dg_refuse_reason p\<rparr>,
     \<lambda>p r. r\<lparr>dg_send_class := dg_send_class p\<rparr>, \<lambda>p r. r\<lparr>dg_tx_write_start_us := dg_tx_write_start_us p\<rparr>,
     \<lambda>p r. r\<lparr>dg_tx_write_end_us := dg_tx_write_end_us p\<rparr>, \<lambda>p r. r\<lparr>dg_rx_rsr := dg_rx_rsr p\<rparr>,
     \<lambda>p r. r\<lparr>dg_frame_len := dg_frame_len p\<rparr>, \<lambda>p r. r\<lparr>dg_patched := dg_patched p\<rparr>,
     \<lambda>p r. r\<lparr>dg_patch_to_send_us := dg_patch_to_send_us p\<rparr>,
     \<lambda>p r. r\<lparr>dg_patch_pred_us := dg_patch_pred_us p\<rparr>,
     \<lambda>p r. r\<lparr>dg_t3_calc_to_t0_us := dg_t3_calc_to_t0_us p\<rparr>,
     \<lambda>p r. r\<lparr>dg_sendok_interval_us := dg_sendok_interval_us p\<rparr>]"

definition DIAG_CELLS :: nat where "DIAG_CELLS = 30"

lemma length_diag_cells: "length diag_cells = DIAG_CELLS"
  by (simp add: diag_cells_def DIAG_CELLS_def)

definition copy_record :: "diag_record \<Rightarrow> diag_record \<Rightarrow> diag_record" where
  "copy_record p r = fold (\<lambda>c. c p) diag_cells r"

lemma bytes_all:
  assumes "length xs = 8" "length ys = 8"
  shows "xs[0 := ys ! 0, Suc 0 := ys ! Suc 0, 2 := ys ! 2, 3 := ys ! 3, 4 := ys ! 4, 5 := ys ! 5,
    6 := ys ! 6, 7 := ys ! 7] = ys"
proof (rule nth_equalityI)
  fix i assume "i < length (xs[0 := ys ! 0, Suc 0 := ys ! Suc 0, 2 := ys ! 2, 3 := ys ! 3, 4 := ys ! 4,
    5 := ys ! 5, 6 := ys ! 6, 7 := ys ! 7])"
  with assms have "i \<in> {0, Suc 0, 2, 3, 4, 5, 6, 7}" by auto
  with assms show "xs[0 := ys ! 0, Suc 0 := ys ! Suc 0, 2 := ys ! 2, 3 := ys ! 3, 4 := ys ! 4, 5 := ys ! 5,
    6 := ys ! 6, 7 := ys ! 7] ! i = ys ! i" by (auto simp: nth_list_update)
qed (simp add: assms)

lemma upt_8: "[0..<8] = [0, Suc 0, 2, 3, 4, 5, 6, 7]"
  by (simp add: upt_conv_Cons numeral_eq_Suc)

lemma copy_record_all:
  assumes "length (dg_client_tx r) = 8" "length (dg_client_tx p) = 8"
  shows "copy_record p r = p"
  by (simp add: copy_record_def diag_cells_def upt_8 copy_t2_low_def copy_t2_high_def copy_tx_def
      bytes_all [OF assms])

lemma diag_cell_tx: "c \<in> set diag_cells \<Longrightarrow> length (dg_client_tx (c p r)) = length (dg_client_tx r)"
  by (auto simp: diag_cells_def copy_t2_low_def copy_t2_high_def copy_tx_def)

subsection \<open>Writing a slot\<close>

definition diag_stores :: "u32 \<Rightarrow> diag_record \<Rightarrow> (diag_slot \<Rightarrow> diag_slot) list" where
  "diag_stores seq rec = (\<lambda>d. d\<lparr>ds_seq := seq + 1\<rparr>) #
     map (\<lambda>c d. d\<lparr>ds_rec := c rec (ds_rec d)\<rparr>) diag_cells @ [\<lambda>d. d\<lparr>ds_seq := seq + 2\<rparr>]"

lemma stores_rec:
  "apply_all (map (\<lambda>c d. d\<lparr>ds_rec := c rec (ds_rec d)\<rparr>) cs) d = d\<lparr>ds_rec := fold (\<lambda>c. c rec) cs (ds_rec d)\<rparr>"
  by (induction cs arbitrary: d) simp_all

lemma diag_stores_all:
  assumes "length (dg_client_tx (ds_rec d)) = 8" "length (dg_client_tx rec) = 8"
  shows "apply_all (diag_stores seq rec) d = \<lparr>ds_seq = seq + 2, ds_rec = rec\<rparr>"
  using copy_record_all [OF assms] by (simp add: diag_stores_def stores_rec copy_record_def)

text \<open>The atomic write of the sequential model is the sum of the stores.\<close>

lemma diag_store_is_stores:
  assumes "length (dg_client_tx (ds_rec (ring ! i))) = 8" "length (dg_client_tx rec) = 8"
  shows "diag_store rec ring i = ring[i := apply_all (diag_stores (ds_seq (ring ! i)) rec) (ring ! i)]"
  by (simp add: diag_store_def diag_stores_all [OF assms] add.assoc)

lemma diag_stores_nth:
  "0 < j \<Longrightarrow> j < Suc DIAG_CELLS \<Longrightarrow>
     diag_stores q p ! j = (\<lambda>d. d\<lparr>ds_rec := (diag_cells ! (j - 1)) p (ds_rec d)\<rparr>)"
  "diag_stores q p ! Suc DIAG_CELLS = (\<lambda>d. d\<lparr>ds_seq := q + 2\<rparr>)"
  using length_diag_cells by (auto simp: diag_stores_def nth_append nth_Cons')

interpretation diag_slot: seqlock ds_seq diag_stores ds_rec DIAG_CELLS
  "\<lambda>d. length (dg_client_tx (ds_rec d)) = 8" "\<lambda>p. length (dg_client_tx p) = 8"
proof
  show "length (diag_stores q p) = Suc (Suc DIAG_CELLS)" for q p
    by (simp add: diag_stores_def length_diag_cells)
  show "ds_seq ((diag_stores (ds_seq d) p ! 0) d) = ds_seq d + 1" for d p
    by (simp add: diag_stores_def)
qed (simp_all add: diag_stores_nth diag_stores_all)

subsection \<open>Copying a slot\<close>

text \<open>
  An attempt against a writer that stores the records \<open>ps\<close> one after the other: the numbers read
  after \<open>t\<close> and \<open>u\<close> of its stores, cell number k copied after \<open>ms ! k\<close> of them, over what the
  attempt before has left in the buffer.
\<close>

record diag_times =
  dt_before :: nat
  dt_cells :: "nat list"
  dt_after :: nat
  dt_buffer :: diag_record

definition slot_at :: "diag_slot \<Rightarrow> diag_record list \<Rightarrow> nat \<Rightarrow> diag_slot" where
  "slot_at d ps n = diag_slot.at_step d ps n"

definition dump_attempt :: "diag_slot \<Rightarrow> diag_record list \<Rightarrow> diag_times \<Rightarrow> u32 \<times> diag_record \<times> u32" where
  "dump_attempt d ps a =
     (ds_seq (slot_at d ps (dt_before a)),
      fold (\<lambda>(c, m). c (ds_rec (slot_at d ps m))) (zip diag_cells (dt_cells a)) (dt_buffer a),
      ds_seq (slot_at d ps (dt_after a)))"

definition attempt_in_order :: "nat \<Rightarrow> diag_times \<Rightarrow> bool" where
  "attempt_in_order n a \<longleftrightarrow> dt_before a \<le> dt_after a \<and> dt_after a \<le> n * 32 \<and>
     length (dt_cells a) = DIAG_CELLS \<and> (\<forall>m \<in> set (dt_cells a). dt_before a \<le> m \<and> m \<le> dt_after a) \<and>
     length (dg_client_tx (dt_buffer a)) = 8 \<and> dt_after a div 32 - dt_before a div 32 < 2147483648"

lemma fold_same_source:
  "length cs = length ms \<Longrightarrow> \<forall>m \<in> set ms. src m = p \<Longrightarrow>
   fold (\<lambda>(c, m). c (src m)) (zip cs ms) r = fold (\<lambda>c. c p) cs r"
  by (induction cs ms arbitrary: r rule: list_induct2) simp_all

lemma accepted_dump_attempt:
  assumes "attempt_in_order (length ps) a" "even (ds_seq d)" "length (dg_client_tx (ds_rec d)) = 8"
    and wf: "\<forall>p \<in> set ps. length (dg_client_tx p) = 8"
    and acc: "dump_attempt d ps a = (s1, rec, s1)" "even s1"
  shows "rec \<in> insert (ds_rec d) (set ps)"
proof -
  note o = assms(1) [unfolded attempt_in_order_def]
  have seq: "even (ds_seq (diag_slot.at_step d ps (dt_before a)))"
    "ds_seq (diag_slot.at_step d ps (dt_before a)) = ds_seq (diag_slot.at_step d ps (dt_after a))"
    using acc by (simp_all add: dump_attempt_def slot_at_def)
  define p where "p = (case dt_before a div 32 of 0 \<Rightarrow> ds_rec d | Suc k \<Rightarrow> ps ! k)"
  have per: "Suc (Suc DIAG_CELLS) = 32" by (simp add: DIAG_CELLS_def)
  have "\<forall>m \<in> set (dt_cells a). ds_rec (slot_at d ps m) = p"
    using o assms(2,3) wf seq unfolding slot_at_def p_def
    by (auto intro!: diag_slot.accepted_read_is_a_write [unfolded per, of "dt_before a" "dt_after a"])
  moreover have p: "p \<in> insert (ds_rec d) (set ps)"
  proof (cases "dt_before a div 32")
    case (Suc k)
    have "Suc k * 32 \<le> dt_before a" using Suc div_times_less_eq_dividend [of "dt_before a" 32] by simp
    then have "Suc k * 32 \<le> length ps * 32" using o by linarith
    then have "k < length ps" by simp
    with Suc show ?thesis by (simp add: p_def)
  qed (simp add: p_def)
  moreover have "length (dg_client_tx p) = 8" using p assms(3) wf by auto
  ultimately have "rec = p"
    using acc(1) o fold_same_source [of diag_cells "dt_cells a" "\<lambda>m. ds_rec (slot_at d ps m)" p]
    by (auto simp: dump_attempt_def length_diag_cells copy_record_all simp flip: copy_record_def)
  with p show ?thesis by simp
qed

lemma dump_attempts_Some:
  "dump_attempts rs = Some rec \<Longrightarrow> \<exists>s1. (s1, rec, s1) \<in> set rs \<and> even s1"
  by (induction rs rule: dump_attempts.induct)
    (auto simp: and_one_eq even_iff_mod_2_eq_zero split: if_splits)

text \<open>
  C16: The dump never prints half of a record. However the stores of the serving task interleave
  with the up to three attempts of the main loop on a slot, and in whatever order an attempt copies
  the cells, a record that is printed is one that the serving task recorded, or that the slot held
  before, as a whole, and it is not an empty one.\<close>

theorem dump_not_torn:
  assumes "even (ds_seq d)" "length (dg_client_tx (ds_rec d)) = 8"
    and "\<forall>p \<in> set ps. length (dg_client_tx p) = 8"
    and "\<forall>a \<in> set attempts. attempt_in_order (length ps) a"
    and "dump_slot (map (dump_attempt d ps) attempts) = Some rec"
  shows "rec \<in> insert (ds_rec d) (set ps) \<and> dg_t2_us rec \<noteq> 0"
proof -
  from assms(5) have nz: "dg_t2_us rec \<noteq> 0"
    and "dump_attempts (take 3 (map (dump_attempt d ps) attempts)) = Some rec"
    by (auto simp: dump_slot_def split: option.splits if_splits)
  from dump_attempts_Some [OF this(2)] obtain s1 where
    "(s1, rec, s1) \<in> set (map (dump_attempt d ps) attempts)" "even s1" by (auto dest: in_set_takeD)
  then obtain a where a: "a \<in> set attempts" "dump_attempt d ps a = (s1, rec, s1)" by auto
  with accepted_dump_attempt [OF bspec [OF assms(4) a(1)] assms(1-3) a(2) \<open>even s1\<close>] nz
  show ?thesis by simp
qed

text \<open>The first attempt meets the writer half way, the second one finds the record whole.\<close>

theorem dump_not_torn_witness:
  "let p = diag_record_zero\<lparr>dg_t2_us := 5000000000, dg_flags := 3\<rparr>;
       attempts = [\<lparr>dt_before = 0, dt_cells = replicate 30 7, dt_after = 9, dt_buffer = diag_record_zero\<rparr>,
         \<lparr>dt_before = 32, dt_cells = replicate 30 32, dt_after = 32, dt_buffer = diag_record_zero\<rparr>] in
   dump_slot (map (dump_attempt diag_slot_init [p]) attempts) = Some p \<and> dg_t2_us p \<noteq> 0"
proof -
  define p where "p = diag_record_zero\<lparr>dg_t2_us := 5000000000, dg_flags := 3\<rparr>"
  let ?a1 = "\<lparr>dt_before = 0, dt_cells = replicate 30 7, dt_after = 9, dt_buffer = diag_record_zero\<rparr>"
  let ?a2 = "\<lparr>dt_before = 32, dt_cells = replicate 30 32, dt_after = 32, dt_buffer = diag_record_zero\<rparr>"
  have tx: "length (dg_client_tx p) = 8" "length (dg_client_tx diag_record_zero) = 8"
    "length (dg_client_tx (ds_rec diag_slot_init)) = 8"
    by (simp_all add: p_def diag_record_zero_def diag_slot_init_def)
  have s0: "ds_seq (slot_at diag_slot_init [p] 0) = 0"
    by (simp add: slot_at_def diag_slot.at_step_def diag_slot_init_def)
  have s9: "ds_seq (slot_at diag_slot_init [p] 9) = 1"
    using diag_slot.seq_at_step [of 9 "[p]" diag_slot_init]
    by (simp add: slot_at_def diag_slot_init_def DIAG_CELLS_def)
  have s32: "slot_at diag_slot_init [p] 32 = \<lparr>ds_seq = 2, ds_rec = p\<rparr>"
    using diag_stores_all [OF tx(3,1), of 0]
    by (simp add: slot_at_def diag_slot.at_step_def diag_stores_def length_diag_cells DIAG_CELLS_def
        diag_slot_init_def)
  note s = s0 s9 s32
  have c: "snd (dump_attempt diag_slot_init [p] ?a2) = (p, 2)"
    using fold_same_source [of diag_cells "replicate 30 32" "\<lambda>m. ds_rec (slot_at diag_slot_init [p] m)" p]
      copy_record_all [OF tx(2,1)]
    by (simp add: dump_attempt_def s length_diag_cells DIAG_CELLS_def copy_record_def)
  have d: "dump_slot (map (dump_attempt diag_slot_init [p]) [?a1, ?a2]) = Some p"
    using c s by (simp add: dump_slot_def dump_attempt_def p_def)
  have "p \<in> insert (ds_rec diag_slot_init) (set [p]) \<and> dg_t2_us p \<noteq> 0"
    by (rule dump_not_torn [OF _ tx(3) _ _ d])
      (simp_all add: tx diag_slot_init_def attempt_in_order_def DIAG_CELLS_def)
  with d show ?thesis by (simp add: Let_def p_def)
qed

end
