(* ===== verification/WindowRace.thy ===== *)
theory WindowRace
  imports ServerState
begin

text \<open>
  \<open>WindowMax\<close> of \<open>components/ntp_server/ntp_server.h\<close> under concurrency: any number of tasks add
  samples with a compare-and-exchange loop while the main loop takes the window, every atomic
  operation a step of its own. \<open>wr_reports\<close> are the values taken so far, \<open>wr_added\<close> the samples whose loop
  has ended, each with the number of values that had been taken when it was added.
\<close>

datatype adder = Adder_idle | Trying int int nat | Counting

record window_race =
  wr_window :: window_max
  wr_adders :: "nat \<Rightarrow> adder"
  wr_taking :: bool
  wr_reports :: "int list"
  wr_added :: "(int \<times> nat) set"

definition window_race_init :: window_race where
  "window_race_init = \<lparr>wr_window = window_init, wr_adders = (\<lambda>_. Adder_idle), wr_taking = False,
     wr_reports = [], wr_added = {}\<rparr>"

definition mag :: "int \<Rightarrow> int" where
  "mag v = (if v < 0 then - v else v)"

text \<open>
  \<open>Trying v cur n\<close>: the loop of \<open>add(v)\<close>, which has loaded \<open>cur\<close>. A weak exchange may fail for no
  reason, and reloads. \<open>take\<close> first empties the count and, if it was not empty, the value.
\<close>

inductive window_step :: "window_race \<Rightarrow> window_race \<Rightarrow> bool" where
  load: "wr_adders s i = Adder_idle \<Longrightarrow>
    window_step s (s\<lparr>wr_adders := (wr_adders s)(i := Trying v (wm_value (wr_window s)) (length (wr_reports s)))\<rparr>)"
| exchange: "wr_adders s i = Trying v cur n \<Longrightarrow> mag v > mag cur \<Longrightarrow> wm_value (wr_window s) = cur \<Longrightarrow>
    window_step s (s\<lparr>wr_window := (wr_window s)\<lparr>wm_value := v\<rparr>, wr_adders := (wr_adders s)(i := Counting),
      wr_added := insert (v, n) (wr_added s)\<rparr>)"
| retry: "wr_adders s i = Trying v cur n \<Longrightarrow> mag v > mag cur \<Longrightarrow>
    window_step s (s\<lparr>wr_adders := (wr_adders s)(i := Trying v (wm_value (wr_window s)) n)\<rparr>)"
| smaller: "wr_adders s i = Trying v cur n \<Longrightarrow> \<not> mag v > mag cur \<Longrightarrow>
    window_step s (s\<lparr>wr_adders := (wr_adders s)(i := Counting), wr_added := insert (v, n) (wr_added s)\<rparr>)"
| count: "wr_adders s i = Counting \<Longrightarrow>
    window_step s (s\<lparr>wr_window := (wr_window s)\<lparr>wm_count := wm_count (wr_window s) + 1\<rparr>,
      wr_adders := (wr_adders s)(i := Adder_idle)\<rparr>)"
| take_count: "\<not> wr_taking s \<Longrightarrow>
    window_step s (s\<lparr>wr_window := (wr_window s)\<lparr>wm_count := 0\<rparr>,
      wr_taking := (wm_count (wr_window s) \<noteq> 0)\<rparr>)"
| take_value: "wr_taking s \<Longrightarrow>
    window_step s (s\<lparr>wr_window := (wr_window s)\<lparr>wm_value := 0\<rparr>, wr_taking := False,
      wr_reports := wr_reports s @ [wm_value (wr_window s)]\<rparr>)"

subsection \<open>The atomic operations of the sequential model\<close>

abbreviation quiet_race :: "window_max \<Rightarrow> int list \<Rightarrow> (int \<times> nat) set \<Rightarrow> window_race" where
  "quiet_race w reports added \<equiv> \<lparr>wr_window = w, wr_adders = (\<lambda>_. Adder_idle), wr_taking = False,
     wr_reports = reports, wr_added = added\<rparr>"

lemma add_refines:
  "window_step\<^sup>*\<^sup>* (quiet_race w rs added) (quiet_race (window_add v w) rs (insert (v, length rs) added))"
proof -
  let ?s0 = "quiet_race w rs added"
  let ?s1 = "?s0\<lparr>wr_adders := (\<lambda>_. Adder_idle)(0 := Trying v (wm_value w) (length rs))\<rparr>"
  let ?w = "if mag v > mag (wm_value w) then w\<lparr>wm_value := v\<rparr> else w"
  let ?s2 = "?s1\<lparr>wr_window := ?w, wr_adders := (\<lambda>_. Adder_idle)(0 := Counting),
      wr_added := insert (v, length rs) added\<rparr>"
  have "window_step ?s0 ?s1" using window_step.load [of ?s0 0 v] by simp
  moreover have "window_step ?s1 ?s2"
    using window_step.exchange [of ?s1 0 v "wm_value w" "length rs"]
      window_step.smaller [of ?s1 0 v "wm_value w" "length rs"] by (auto simp: fun_upd_idem)
  moreover have "window_step ?s2 (quiet_race (window_add v w) rs (insert (v, length rs) added))"
    using window_step.count [of ?s2 0] by (simp add: window_add_def mag_def Let_def fun_upd_idem)
  ultimately show ?thesis by (meson converse_rtranclp_into_rtranclp rtranclp.rtrancl_refl)
qed

lemma take_refines:
  "window_step\<^sup>*\<^sup>* (quiet_race w rs added)
     (quiet_race (snd (window_take w)) (rs @ (case fst (window_take w) of None \<Rightarrow> [] | Some v \<Rightarrow> [v])) added)"
proof -
  let ?s0 = "quiet_race w rs added"
  let ?s1 = "?s0\<lparr>wr_window := w\<lparr>wm_count := 0\<rparr>, wr_taking := (wm_count w \<noteq> 0)\<rparr>"
  have 1: "window_step ?s0 ?s1" using window_step.take_count [of ?s0] by simp
  show ?thesis
  proof (cases "wm_count w = 0")
    case True
    with 1 show ?thesis by (auto simp: window_take_def)
  next
    case False
    with window_step.take_value [of ?s1]
    have "window_step ?s1 (quiet_race (snd (window_take w)) (rs @ [wm_value w]) added)"
      by (simp add: window_take_def)
    with 1 False show ?thesis
      by (auto simp: window_take_def intro: converse_rtranclp_into_rtranclp)
  qed
qed

subsection \<open>No sample is lost\<close>

text \<open>A sample is covered by the window or by a value taken since it was added.\<close>

definition covered :: "window_race \<Rightarrow> int \<Rightarrow> nat \<Rightarrow> bool" where
  "covered s v n \<longleftrightarrow> n \<le> length (wr_reports s) \<and>
     (mag v \<le> mag (wm_value (wr_window s)) \<or> (\<exists>r \<in> set (drop n (wr_reports s)). mag v \<le> mag r))"

definition race_inv :: "window_race \<Rightarrow> bool" where
  "race_inv s \<longleftrightarrow> (\<forall>(v, n) \<in> wr_added s. covered s v n) \<and>
     (\<forall>i v cur n. wr_adders s i = Trying v cur n \<longrightarrow> covered s cur n) \<and>
     (\<forall>r \<in> insert (wm_value (wr_window s)) (set (wr_reports s)). r = 0 \<or> (\<exists>n. (r, n) \<in> wr_added s))"

lemma covered_grows:
  "covered s v n \<Longrightarrow> wr_reports s' = wr_reports s \<Longrightarrow>
   mag (wm_value (wr_window s)) \<le> mag (wm_value (wr_window s')) \<Longrightarrow> covered s' v n"
  by (auto simp: covered_def)

lemma covered_taken:
  "covered s v n \<Longrightarrow> wr_reports s' = wr_reports s @ [wm_value (wr_window s)] \<Longrightarrow> covered s' v n"
  by (auto simp: covered_def)

lemma covered_now: "covered s (wm_value (wr_window s)) (length (wr_reports s))"
  by (simp add: covered_def)

lemma covered_smaller: "covered s cur n \<Longrightarrow> mag v \<le> mag cur \<Longrightarrow> covered s v n"
  by (auto simp: covered_def intro: order_trans)

lemma covered_same [simp]:
  "covered (s\<lparr>wr_adders := a\<rparr>) = covered s" "covered (s\<lparr>wr_added := d\<rparr>) = covered s"
  "covered (s\<lparr>wr_taking := t\<rparr>) = covered s"
  "covered (s\<lparr>wr_window := (wr_window s)\<lparr>wm_count := c\<rparr>\<rparr>) = covered s"
  by (rule ext; rule ext; simp add: covered_def)+

lemma race_invI:
  assumes "\<And>v n. (v, n) \<in> wr_added s \<Longrightarrow> covered s v n"
    and "\<And>i v cur n. wr_adders s i = Trying v cur n \<Longrightarrow> covered s cur n"
    and "\<And>r. r = wm_value (wr_window s) \<or> r \<in> set (wr_reports s) \<Longrightarrow> r = 0 \<or> (\<exists>n. (r, n) \<in> wr_added s)"
  shows "race_inv s"
  using assms unfolding race_inv_def by blast

lemma race_invD:
  assumes "race_inv s"
  shows "(v, n) \<in> wr_added s \<Longrightarrow> covered s v n" "wr_adders s i = Trying x cur n \<Longrightarrow> covered s cur n"
    "r = wm_value (wr_window s) \<or> r \<in> set (wr_reports s) \<Longrightarrow> r = 0 \<or> (\<exists>n. (r, n) \<in> wr_added s)"
  using assms unfolding race_inv_def by blast+

text \<open>A step that changes neither the value nor the taken ones.\<close>

lemma race_inv_keep:
  assumes "race_inv s" and same: "wm_value (wr_window s') = wm_value (wr_window s)" "wr_reports s' = wr_reports s"
    and "\<And>v n. (v, n) \<in> wr_added s' \<Longrightarrow> (v, n) \<in> wr_added s \<or> covered s v n" "wr_added s \<subseteq> wr_added s'"
    and "\<And>i v cur n. wr_adders s' i = Trying v cur n \<Longrightarrow> wr_adders s i = Trying v cur n \<or> covered s cur n"
  shows "race_inv s'"
proof -
  have "covered s' = covered s" by (rule ext; rule ext; simp add: covered_def same)
  note c = this and d = race_invD [OF assms(1)]
  show ?thesis
  proof (rule race_invI)
    show "covered s' v n" if "(v, n) \<in> wr_added s'" for v n
      using assms(4) [OF that] d(1) by (auto simp only: c)
    show "covered s' cur n" if "wr_adders s' i = Trying v cur n" for i v cur n
      using assms(6) [OF that] d(2) by (auto simp only: c)
    show "r = 0 \<or> (\<exists>n. (r, n) \<in> wr_added s')" if "r = wm_value (wr_window s') \<or> r \<in> set (wr_reports s')" for r
      using that d(3) [of r] assms(5) by (auto simp only: same)
  qed
qed

lemma race_inv_step: "window_step s s' \<Longrightarrow> race_inv s \<Longrightarrow> race_inv s'"
proof (induction rule: window_step.induct)
  case (load s i v)
  from load.prems show ?case
    by (rule race_inv_keep) (auto simp: covered_now split: if_splits)
next
  case (exchange s i v cur n)
  let ?s = "s\<lparr>wr_window := (wr_window s)\<lparr>wm_value := v\<rparr>, wr_adders := (wr_adders s)(i := Counting),
      wr_added := insert (v, n) (wr_added s)\<rparr>"
  note d = race_invD [OF exchange.prems]
  have grow: "covered ?s x k" if "covered s x k" for x k
    using exchange.hyps by (simp add: covered_grows [OF that])
  have "n \<le> length (wr_reports s)" using d(2) [OF exchange.hyps(1)] by (simp add: covered_def)
  then have new: "covered ?s v n" by (simp add: covered_def)
  show ?case
  proof (rule race_invI)
    show "covered ?s x k" if "(x, k) \<in> wr_added ?s" for x k using that new grow d(1) by auto
    show "covered ?s c k" if "wr_adders ?s j = Trying x c k" for j x c k
      using that grow d(2) by (auto split: if_splits)
    show "r = 0 \<or> (\<exists>n. (r, n) \<in> wr_added ?s)" if "r = wm_value (wr_window ?s) \<or> r \<in> set (wr_reports ?s)" for r
      using that d(3) [of r] by auto
  qed
next
  case (retry s i v cur n)
  have "n \<le> length (wr_reports s)" using race_invD(2) [OF retry.prems retry.hyps(1)] by (simp add: covered_def)
  then have "covered s (wm_value (wr_window s)) n" by (simp add: covered_def)
  then show ?case
    by (intro race_inv_keep [OF retry.prems]) (auto split: if_splits)
next
  case (smaller s i v cur n)
  have "covered s v n"
    using race_invD(2) [OF smaller.prems smaller.hyps(1)] smaller.hyps(2) by (auto intro: covered_smaller)
  then show ?case
    by (intro race_inv_keep [OF smaller.prems]) (auto split: if_splits)
next
  case (count s i)
  from count.prems show ?case by (rule race_inv_keep) (auto split: if_splits)
next
  case (take_count s)
  from take_count.prems show ?case by (rule race_inv_keep) auto
next
  case (take_value s)
  let ?s = "s\<lparr>wr_window := (wr_window s)\<lparr>wm_value := 0\<rparr>, wr_taking := False,
      wr_reports := wr_reports s @ [wm_value (wr_window s)]\<rparr>"
  note d = race_invD [OF take_value.prems]
  have grow: "covered ?s x k" if "covered s x k" for x k using that by (rule covered_taken) simp
  show ?case
  proof (rule race_invI)
    show "covered ?s x k" if "(x, k) \<in> wr_added ?s" for x k using that grow d(1) by simp
    show "covered ?s c k" if "wr_adders ?s j = Trying x c k" for j x c k using that grow d(2) by simp
    show "r = 0 \<or> (\<exists>n. (r, n) \<in> wr_added ?s)" if "r = wm_value (wr_window ?s) \<or> r \<in> set (wr_reports ?s)" for r
      using that d(3) [of r] by auto
  qed
qed

definition window_reachable :: "window_race \<Rightarrow> bool" where
  "window_reachable s \<longleftrightarrow> window_step\<^sup>*\<^sup>* window_race_init s"

lemma window_reachable_inv: "window_reachable s \<Longrightarrow> race_inv s"
  unfolding window_reachable_def
proof (induction rule: rtranclp_induct)
  case base
  show ?case by (simp add: window_race_init_def race_inv_def window_init_def)
qed (rule race_inv_step)

text \<open>
  C17: Telemetry loses no sample and invents none. With any number of tasks adding to a window while
  the main loop takes it, in every reachable state the magnitude of each sample added is at most
  that of the window's value or of a value taken since the sample came, at most that of a taken one
  as soon as the window has been emptied, and every value taken is a sample that was added, or 0.\<close>

theorem window_loses_no_sample:
  assumes "window_reachable s"
  shows "(\<forall>(v, n) \<in> wr_added s. mag v \<le> mag (wm_value (wr_window s)) \<or>
      (\<exists>r \<in> set (drop n (wr_reports s)). mag v \<le> mag r)) \<and>
    (wm_value (wr_window s) = 0 \<longrightarrow> (\<forall>(v, n) \<in> wr_added s. v \<noteq> 0 \<longrightarrow>
      (\<exists>r \<in> set (drop n (wr_reports s)). mag v \<le> mag r))) \<and>
    (\<forall>r \<in> set (wr_reports s). r = 0 \<or> (\<exists>n. (r, n) \<in> wr_added s))"
proof -
  have "mag v \<le> mag 0 \<Longrightarrow> v = 0" for v by (simp add: mag_def split: if_splits)
  then show ?thesis
    using window_reachable_inv [OF assms] by (fastforce simp: race_inv_def covered_def)
qed

text \<open>
  A sample of 5 arrives while a first one of 3 is taken: it is reported in its place, and counted
  in the next window, which has no value of its own and reports 0.
\<close>

definition traded_sample :: window_race where
  "traded_sample = \<lparr>wr_window = \<lparr>wm_value = 0, wm_count = 0\<rparr>, wr_adders = (\<lambda>_. Adder_idle),
     wr_taking = False, wr_reports = [5, 0], wr_added = {(5, 0), (3, 0)}\<rparr>"

lemma traded_sample_reachable: "window_reachable traded_sample"
proof -
  define start where "start = quiet_race (window_add 3 window_init) [] {(3, 0)}"
  define st where "st = (\<lambda>v c taking rs added a. \<lparr>wr_window = \<lparr>wm_value = v, wm_count = c\<rparr>,
    wr_adders = (\<lambda>_. Adder_idle)(0 := a), wr_taking = taking, wr_reports = rs, wr_added = added\<rparr>)"
  note upd = st_def fun_upd_idem
  have 0: "window_reachable start"
    using add_refines [of window_init "[]" "{}" 3]
    by (simp add: window_reachable_def window_race_init_def start_def)
  have s: "start = st 3 1 False [] {(3, 0)} Adder_idle"
    by (simp add: start_def upd window_add_def window_init_def Let_def)
  have 1: "window_step (st 3 1 False [] {(3, 0)} Adder_idle) (st 3 1 False [] {(3, 0)} (Trying 5 3 0))"
    using window_step.load [of "st 3 1 False [] {(3, 0)} Adder_idle" 0 5] by (simp add: upd)
  have 2: "window_step (st 3 1 False [] {(3, 0)} (Trying 5 3 0)) (st 5 1 False [] {(5, 0), (3, 0)} Counting)"
    using window_step.exchange [of "st 3 1 False [] {(3, 0)} (Trying 5 3 0)" 0 5 3 0] by (simp add: upd mag_def)
  have 3: "window_step (st 5 1 False [] {(5, 0), (3, 0)} Counting) (st 5 0 True [] {(5, 0), (3, 0)} Counting)"
    using window_step.take_count [of "st 5 1 False [] {(5, 0), (3, 0)} Counting"] by (simp add: upd)
  have 4: "window_step (st 5 0 True [] {(5, 0), (3, 0)} Counting) (st 0 0 False [5] {(5, 0), (3, 0)} Counting)"
    using window_step.take_value [of "st 5 0 True [] {(5, 0), (3, 0)} Counting"] by (simp add: upd)
  have 5: "window_step (st 0 0 False [5] {(5, 0), (3, 0)} Counting) (st 0 1 False [5] {(5, 0), (3, 0)} Adder_idle)"
    using window_step.count [of "st 0 0 False [5] {(5, 0), (3, 0)} Counting" 0] by (simp add: upd)
  have 6: "window_step\<^sup>*\<^sup>* (st 0 1 False [5] {(5, 0), (3, 0)} Adder_idle) traded_sample"
    using take_refines [of "\<lparr>wm_value = 0, wm_count = 1\<rparr>" "[5]" "{(5, 0), (3, 0)}"]
    by (simp add: upd traded_sample_def window_take_def)
  show ?thesis
    using 0 1 2 3 4 5 6 unfolding s window_reachable_def
    by (meson rtranclp.rtrancl_into_rtrancl rtranclp_trans)
qed

theorem window_loses_no_sample_witness:
  "wr_reports traded_sample = [5, 0] \<and> (\<exists>r. (r = 5 \<or> r = 0) \<and> mag 3 \<le> mag r)"
  using window_loses_no_sample [OF traded_sample_reachable] by (auto simp: traded_sample_def)

end
