(* ===== verification/StampRaces.thy ===== *)
theory StampRaces
  imports RecvTask Seqlock
begin

text \<open>
  The stamps of \<open>components/ethernet/w5500_custom_spi.cpp\<close> under concurrency. They are plain
  volatile words without a lock: a SEND stores seven of them one after the other, the interrupt
  stores two, and \<open>w5500_send_stamp\<close> and \<open>w5500_int_stamp\<close> load them one after the other. SENDs do not
  overlap, because lwIP's core lock is held around each of them, but any task may send while the
  serving task reads the stamp of its own reply.
\<close>

subsection \<open>The stores of a SEND\<close>

record send_values =
  sd_class :: frame_class
  sd_txbuf_start_us :: u32
  sd_txbuf_end_us :: u32
  sd_patch_us :: u32
  sd_patched :: bool
  sd_cmd_us :: u32

definition send_stores :: "send_values \<Rightarrow> (w5500 \<Rightarrow> w5500) list" where
  "send_stores p =
     [\<lambda>w. w\<lparr>w_send_cmd_class := sd_class p\<rparr>, \<lambda>w. w\<lparr>w_send_txbuf_start_us := sd_txbuf_start_us p\<rparr>,
      \<lambda>w. w\<lparr>w_send_txbuf_end_us := sd_txbuf_end_us p\<rparr>, \<lambda>w. w\<lparr>w_patch_us := sd_patch_us p\<rparr>,
      \<lambda>w. w\<lparr>w_patched := sd_patched p\<rparr>, \<lambda>w. w\<lparr>w_send_cmd_us := sd_cmd_us p\<rparr>,
      \<lambda>w. w\<lparr>w_send_cmd_seq := w_send_cmd_seq w + 1\<rparr>]"

text \<open>The atomic SEND of the sequential model is the sum of the stores.\<close>

lemma on_send_is_stores:
  "\<exists>p w. on_send env call fn s = apply_all (send_stores p) w \<and> sd_class p = w_last_tx_class w \<and>
     sd_cmd_us p = sc_send_us call \<and> (\<exists>s'. try_patch env call fn s = (s', sd_patch_us p, sd_patched p))"
proof -
  obtain s' us patched where t: "try_patch env call fn s = (s', us, patched)" by (cases "try_patch env call fn s")
  show ?thesis
    by (rule exI [of _ "\<lparr>sd_class = w_last_tx_class s', sd_txbuf_start_us = w_last_tx_start_us s',
          sd_txbuf_end_us = w_last_tx_end_us s', sd_patch_us = us, sd_patched = patched, sd_cmd_us = sc_send_us call\<rparr>"],
        rule exI [of _ "s'\<lparr>w_frame_started := False, w_hdr := []\<rparr>"])
      (simp add: on_send_def send_stores_def t)
qed

text \<open>The memory after the first \<open>n\<close> stores of a sequence of SENDs.\<close>

definition sent_at :: "w5500 \<Rightarrow> send_values list \<Rightarrow> nat \<Rightarrow> w5500" where
  "sent_at w ps n = apply_all (take n (concat (map send_stores ps))) w"

lemma length_send_stores: "length (send_stores p) = 7"
  by (simp add: send_stores_def)

lemma sent_at_Nil: "sent_at w [] n = w"
  by (simp add: sent_at_def)

lemma sent_at_Cons:
  "sent_at w (p # ps) n = (if n < 7 then apply_all (take n (send_stores p)) w
     else sent_at (apply_all (send_stores p) w) ps (n - 7))"
  by (simp add: sent_at_def length_send_stores)

text \<open>
  A word that each SEND stores once, as its store number \<open>i\<close>: after \<open>n\<close> stores it holds the value
  of the last SEND that got that far.
\<close>

locale stored_word =
  fixes get :: "w5500 \<Rightarrow> 'a" and val :: "send_values \<Rightarrow> 'a" and i :: nat
  assumes position: "i < 7"
    and stores_it: "get ((send_stores p ! i) w) = val p"
    and others_keep: "j < 7 \<Longrightarrow> j \<noteq> i \<Longrightarrow> get ((send_stores p ! j) w) = get w"
begin

lemma within_send: "n \<le> 7 \<Longrightarrow> get (apply_all (take n (send_stores p)) w) = (if n \<le> i then get w else val p)"
proof (induction n)
  case (Suc n)
  then have "n < length (send_stores p)" by (simp add: length_send_stores)
  then show ?case
    using Suc others_keep [of n] stores_it position
    by (cases "n = i") (auto simp: apply_all_take_Suc)
qed simp

theorem holds_last:
  "n \<le> 7 * length ps \<Longrightarrow>
   get (sent_at w ps n) = (case (n + 6 - i) div 7 of 0 \<Rightarrow> get w | Suc k \<Rightarrow> val (ps ! k))"
proof (induction ps arbitrary: w n)
  case Nil
  then show ?case using position by (simp add: sent_at_Nil)
next
  case (Cons p ps)
  show ?case
  proof (cases "n < 7")
    case True
    moreover have "(n + 6 - i) div 7 = (if n \<le> i then 0 else 1)"
      using True position by (auto simp: div_nat_eqI)
    ultimately show ?thesis using within_send [of n p w] by (simp add: sent_at_Cons)
  next
    case False
    let ?w = "apply_all (send_stores p) w"
    have "get ?w = val p" using within_send [of 7 p w] position by (simp add: length_send_stores)
    moreover have "(n + 6 - i) div 7 = Suc ((n - 7 + 6 - i) div 7)"
      using False position by (simp add: le_div_geq)
    moreover have "get (sent_at ?w ps (n - 7)) =
        (case (n - 7 + 6 - i) div 7 of 0 \<Rightarrow> get ?w | Suc k \<Rightarrow> val (ps ! k))"
      using Cons.prems False by (intro Cons.IH) simp
    ultimately show ?thesis using False by (simp add: sent_at_Cons split: nat.split)
  qed
qed

end

lemma seven: "j < 7 \<longleftrightarrow> j \<in> {0, 1, 2, 3, 4, 5, 6 :: nat}"
  by auto

interpretation sent_class: stored_word w_send_cmd_class sd_class 0
  by unfold_locales (auto simp: send_stores_def seven)

interpretation sent_patch_us: stored_word w_patch_us sd_patch_us 3
  by unfold_locales (auto simp: send_stores_def seven)

interpretation sent_patched: stored_word w_patched sd_patched 4
  by unfold_locales (auto simp: send_stores_def seven)

interpretation sent_cmd_us: stored_word w_send_cmd_us sd_cmd_us 5
  by unfold_locales (auto simp: send_stores_def seven)

lemma within_seq:
  "n < 7 \<Longrightarrow> w_send_cmd_seq (apply_all (take n (send_stores p)) w) = w_send_cmd_seq w"
proof (induction n)
  case (Suc n)
  then have "n < length (send_stores p)" "n \<in> {0, 1, 2, 3, 4, 5}" by (auto simp: length_send_stores)
  moreover have "w_send_cmd_seq ((send_stores p ! n) x) = w_send_cmd_seq x" if "n \<in> {0, 1, 2, 3, 4, 5}" for x
    using that by (auto simp: send_stores_def)
  ultimately show ?case using Suc by (simp add: apply_all_take_Suc)
qed simp

lemma sent_seq:
  "n \<le> 7 * length ps \<Longrightarrow> w_send_cmd_seq (sent_at w ps n) = w_send_cmd_seq w + of_nat (n div 7)"
proof (induction ps arbitrary: w n)
  case (Cons p ps)
  show ?case
  proof (cases "n < 7")
    case True
    then show ?thesis by (simp add: sent_at_Cons within_seq)
  next
    case False
    let ?w = "apply_all (send_stores p) w"
    have "n div 7 = Suc ((n - 7) div 7)" using False by (simp add: le_div_geq)
    moreover have "w_send_cmd_seq ?w = w_send_cmd_seq w + 1" by (simp add: send_stores_def)
    moreover have "w_send_cmd_seq (sent_at ?w ps (n - 7)) = w_send_cmd_seq ?w + of_nat ((n - 7) div 7)"
      using Cons.prems False by (intro Cons.IH) simp
    ultimately show ?thesis using False by (simp add: sent_at_Cons)
  qed
qed (simp add: sent_at_Nil)

subsection \<open>The loads of the serving task\<close>

text \<open>
  \<open>w5500_send_stamp\<close> after \<open>sendto\<close>, its field number k loaded after \<open>us ! k\<close> stores. The two
  words of SEND_OK are written by the receive path and only recorded; their values are arguments.
\<close>

definition loaded_send_stamp :: "w5500 \<Rightarrow> send_values list \<Rightarrow> nat list \<Rightarrow> u32 \<Rightarrow> u32 \<Rightarrow> send_stamp" where
  "loaded_send_stamp w ps us sendok_us sendok_seq =
     \<lparr>ss_send_cmd_us = w_send_cmd_us (sent_at w ps (us ! 0)),
      ss_seq = w_send_cmd_seq (sent_at w ps (us ! 1)),
      ss_frame_class = w_send_cmd_class (sent_at w ps (us ! 2)),
      ss_txbuf_start_us = w_send_txbuf_start_us (sent_at w ps (us ! 3)),
      ss_txbuf_end_us = w_send_txbuf_end_us (sent_at w ps (us ! 4)),
      ss_patch_us = w_patch_us (sent_at w ps (us ! 5)),
      ss_patched = w_patched (sent_at w ps (us ! 6)),
      ss_sendok_us = sendok_us, ss_sendok_seq = sendok_seq\<rparr>"

text \<open>
  One \<open>sendto\<close>: the sequence number was loaded after \<open>b\<close> stores, and afterwards the stamp was loaded, in
  order. \<open>ntp_send\<close> is the only SEND of an NTP frame in that time, if there was one, and it was over when the
  loads began. (The task answers one request at a time, and its own SEND runs inside \<open>sendto\<close>; when lwIP has
  queued the reply for want of an ARP entry, \<open>ntp_send\<close> is \<open>None\<close>, or whatever other NTP frame was sent.) A SEND of
  another frame patches nothing.
\<close>

definition stamp_window :: "send_values list \<Rightarrow> nat \<Rightarrow> nat option \<Rightarrow> nat list \<Rightarrow> bool" where
  "stamp_window ps b ntp_send us \<longleftrightarrow>
     length us = 7 \<and> sorted (b # us) \<and> last us \<le> 7 * length ps \<and> length ps < 4294967296 \<and>
     (\<forall>k. ntp_send = Some k \<longrightarrow> k < length ps \<and> sd_class (ps ! k) = FC_NTP \<and> b \<le> 7 * k \<and> 7 * Suc k \<le> us ! 0) \<and>
     (\<forall>k < length ps. b < 7 * Suc k \<and> sd_class (ps ! k) = FC_NTP \<longrightarrow> ntp_send = Some k) \<and>
     (\<forall>p \<in> set ps. sd_class p \<noteq> FC_NTP \<longrightarrow> \<not> sd_patched p \<and> sd_patch_us p = 0)"

lemma window_ntp:
  assumes "stamp_window ps b ntp_send us"
  shows "ntp_send = Some k \<Longrightarrow> k < length ps \<and> sd_class (ps ! k) = FC_NTP \<and> b \<le> 7 * k \<and> 7 * Suc k \<le> us ! 0"
    "k < length ps \<Longrightarrow> b < 7 * Suc k \<Longrightarrow> sd_class (ps ! k) = FC_NTP \<Longrightarrow> ntp_send = Some k"
    "k < length ps \<Longrightarrow> sd_class (ps ! k) \<noteq> FC_NTP \<Longrightarrow> \<not> sd_patched (ps ! k) \<and> sd_patch_us (ps ! k) = 0"
  using assms nth_mem unfolding stamp_window_def by blast+

lemma window_order:
  assumes "stamp_window ps b ntp_send us"
  shows "b \<le> us ! 0" "us ! 0 \<le> us ! 1" "us ! 1 \<le> us ! 2" "us ! 2 \<le> us ! 5" "us ! 5 \<le> us ! 6"
    "us ! 6 \<le> 7 * length ps"
proof -
  have len: "length us = 7" and sorted: "sorted us" and first: "\<forall>u \<in> set us. b \<le> u"
    and tail: "last us \<le> 7 * length ps"
    using assms by (simp_all add: stamp_window_def)
  show "b \<le> us ! 0" using len first by simp
  show "us ! 0 \<le> us ! 1" "us ! 1 \<le> us ! 2" "us ! 2 \<le> us ! 5" "us ! 5 \<le> us ! 6"
    using len by (auto intro!: sorted_nth_mono [OF sorted])
  have "us \<noteq> []" using len by auto
  with tail len show "us ! 6 \<le> 7 * length ps" by (simp add: last_conv_nth)
qed

lemma seq_unchanged:
  assumes "stamp_window ps b ntp_send us"
    and "w_send_cmd_seq (sent_at w ps (us ! 1)) = w_send_cmd_seq (sent_at w ps b)"
  shows "us ! 1 div 7 = b div 7"
proof -
  note o = window_order [OF assms(1)]
  have u: "us ! 1 \<le> 7 * length ps" "b \<le> 7 * length ps" using o by linarith+
  then have "(of_nat (us ! 1 div 7) :: u32) = of_nat (b div 7)"
    using assms(2) by (simp add: sent_seq)
  moreover have "us ! 1 div 7 \<le> length ps" "b div 7 \<le> length ps"
    using u div_le_mono [of _ "7 * length ps" 7] by fastforce+
  moreover have "length ps < 4294967296" using assms(1) by (simp add: stamp_window_def)
  ultimately show ?thesis by (simp add: word_of_nat_eq_iff take_bit_eq_mod)
qed

text \<open>
  The key: the class is stored first and loaded after the number and the time. A class of NTP, with
  a number that has changed, means that no SEND has started since that one.
\<close>

lemma ntp_class_is_it:
  assumes w: "stamp_window ps b ntp_send us"
    and changed: "w_send_cmd_seq (sent_at w ps (us ! 1)) \<noteq> w_send_cmd_seq (sent_at w ps b)"
    and ntp: "w_send_cmd_class (sent_at w ps (us ! 2)) = FC_NTP"
  shows "\<exists>k. ntp_send = Some k \<and> k < length ps \<and> us ! 2 \<le> 7 * Suc k \<and> 7 * Suc k \<le> us ! 0"
proof -
  note o = window_order [OF w]
  have u: "us ! 2 \<le> 7 * length ps" "us ! 1 \<le> 7 * length ps" "b \<le> 7 * length ps" using o by linarith+
  define c where "c = (us ! 2 + 6) div 7"
  have c: "us ! 2 \<le> 7 * c" "7 * c \<le> us ! 2 + 6" unfolding c_def by simp_all
  have moved: "us ! 1 div 7 \<noteq> b div 7" using changed u by (auto simp: sent_seq)
  have "b div 7 < us ! 1 div 7"
    using moved div_le_mono [of b "us ! 1" 7] o by linarith
  moreover have "b < 7 * Suc (b div 7)" using dividend_less_times_div [of 7 b] by simp
  moreover have "7 * (us ! 1 div 7) \<le> us ! 1" by simp
  ultimately have late: "b < 7 * c" using c o by linarith
  then obtain k where k: "c = Suc k" by (cases c) simp_all
  have len: "k < length ps" using c u k by simp
  have "sd_class (ps ! k) = FC_NTP"
    using ntp sent_class.holds_last [OF u(1), of w] k by (simp add: c_def)
  then have "ntp_send = Some k" using window_ntp(2) [OF w len] late k by simp
  moreover from this have "7 * Suc k \<le> us ! 0" using window_ntp(1) [OF w] by blast
  ultimately show ?thesis using c k len by blast
qed

text \<open>So whatever is learned from the stamp are values of that SEND.\<close>

lemma ntp_stamp_values:
  assumes w: "stamp_window ps b ntp_send us"
    and changed: "ss_seq (loaded_send_stamp w0 ps us ok_us ok_seq) \<noteq> w_send_cmd_seq (sent_at w0 ps b)"
    and ntp: "ss_frame_class (loaded_send_stamp w0 ps us ok_us ok_seq) = FC_NTP"
  shows "\<exists>k. ntp_send = Some k \<and> ss_send_cmd_us (loaded_send_stamp w0 ps us ok_us ok_seq) = sd_cmd_us (ps ! k) \<and>
    (ss_patch_us (loaded_send_stamp w0 ps us ok_us ok_seq) \<noteq> 0 \<longrightarrow>
      ss_patch_us (loaded_send_stamp w0 ps us ok_us ok_seq) = sd_patch_us (ps ! k)) \<and>
    (ss_patched (loaded_send_stamp w0 ps us ok_us ok_seq) \<longrightarrow> sd_patched (ps ! k))"
proof -
  let ?st = "loaded_send_stamp w0 ps us ok_us ok_seq"
  note o = window_order [OF w]
  obtain k where k: "ntp_send = Some k" "k < length ps" "us ! 2 \<le> 7 * Suc k" "7 * Suc k \<le> us ! 0"
    using ntp_class_is_it [OF w, of w0] changed ntp by (auto simp: loaded_send_stamp_def)
  have u: "us ! 0 \<le> 7 * length ps" "us ! 5 \<le> 7 * length ps" "us ! 6 \<le> 7 * length ps" using o by linarith+
  have u0: "us ! 0 = 7 * Suc k" using k o by linarith
  then have cmd: "ss_send_cmd_us ?st = sd_cmd_us (ps ! k)"
    using sent_cmd_us.holds_last [OF u(1), of w0] by (simp add: loaded_send_stamp_def)
  have sent: "\<exists>j < length ps. (n + 6 - i) div 7 = Suc j \<and> k \<le> j"
    if "us ! 0 \<le> n" "n \<le> 7 * length ps" "i < 7" for n i
  proof -
    have "Suc k \<le> (n + 6 - i) div 7" using that u0 by (simp add: less_eq_div_iff_mult_less_eq)
    moreover have "(n + 6 - i) div 7 \<le> length ps"
      using that div_le_mono [of "n + 6 - i" "7 * length ps + 6" 7] by simp
    ultimately show ?thesis by (cases "(n + 6 - i) div 7") auto
  qed
  have only: "j = k" if "j < length ps" "k \<le> j" "sd_patched (ps ! j) \<or> sd_patch_us (ps ! j) \<noteq> 0" for j
  proof -
    have "sd_class (ps ! j) = FC_NTP" using that window_ntp(3) [OF w that(1)] by blast
    moreover have "b < 7 * Suc j" using that(2) window_ntp(1) [OF w k(1), THEN conjunct2, THEN conjunct2, THEN conjunct1] by simp
    ultimately show ?thesis using window_ntp(2) [OF w that(1)] k(1) by simp
  qed
  have patch: "ss_patch_us ?st \<noteq> 0 \<Longrightarrow> ss_patch_us ?st = sd_patch_us (ps ! k)"
    using sent [of "us ! 5" 3] only sent_patch_us.holds_last [OF u(2), of w0] o
    by (force simp: loaded_send_stamp_def)
  have patched: "ss_patched ?st \<Longrightarrow> sd_patched (ps ! k)"
    using sent [of "us ! 6" 4] only sent_patched.holds_last [OF u(3), of w0] o
    by (force simp: loaded_send_stamp_def)
  with k(1) cmd patch show ?thesis by blast
qed

text \<open>
  C13: A stamp is learned whole, although it has no lock. Let at most one NTP frame be sent between the
  two readings of the stamp, and let its SEND be over when the second reading begins. However the stores of
  the SENDs of other frames interleave with the loads of the serving task, what the
  send estimate learns is the time of that one SEND, and what the patch delay learns, when it
  learns, is that SEND's own patch, never a mixture of two; the fallback is learned only if there
  was no such SEND. Whether it was the reply's is not part of the stamp.\<close>

theorem stamps_teach_one_send:
  assumes w: "stamp_window ps b ntp_send us"
    and before: "ss_seq before = w_send_cmd_seq (sent_at w0 ps b)"
    and l: "learn_from_send before t0 t_after (loaded_send_stamp w0 ps us ok_us ok_seq) s = (s', lesson)"
  shows "(\<exists>k. ntp_send = Some k \<and>
      sv_send_estimator s' = fst (learn (sv_send_estimator s) (i32 (sd_cmd_us (ps ! k) - to_u32 t0)) t0) \<and>
      (sv_patch_delay s' = sv_patch_delay s \<or> sd_patched (ps ! k) \<and>
       sv_patch_delay s' = pd_learn (i32 (sd_cmd_us (ps ! k) - sd_patch_us (ps ! k))) (sv_patch_delay s))) \<or>
    sv_patch_delay s' = sv_patch_delay s \<and> (sv_send_estimator s' = sv_send_estimator s \<or>
      ntp_send = None \<and>
      sv_send_estimator s' = learn_fallback (sv_send_estimator s) (to_i32 (t_after - t0)))"
proof -
  let ?st = "loaded_send_stamp w0 ps us ok_us ok_seq"
  note o = window_order [OF w]
  consider (same) "ss_seq ?st = ss_seq before" | (other) "ss_seq ?st \<noteq> ss_seq before" "ss_frame_class ?st \<noteq> FC_NTP"
    | (taken) "ss_seq ?st \<noteq> ss_seq before" "ss_frame_class ?st = FC_NTP" by blast
  then show ?thesis
  proof cases
    case same
    then have q: "us ! 1 div 7 = b div 7"
      using w before by (intro seq_unchanged [of _ _ ntp_send _ w0]) (simp_all add: loaded_send_stamp_def)
    have "ntp_send = None"
    proof (cases ntp_send)
      case (Some k)
      then have "b \<le> 7 * k" "7 * Suc k \<le> us ! 0" using window_ntp(1) [OF w] by blast+
      then have "Suc k \<le> us ! 1 div 7" "b div 7 \<le> k" using o by (auto simp: less_eq_div_iff_mult_less_eq)
      with q show ?thesis by simp
    qed
    with l same show ?thesis by (auto simp: learn_from_send_def)
  next
    case other
    with l show ?thesis by (auto simp: learn_from_send_def)
  next
    case taken
    then obtain k where k: "ntp_send = Some k" "ss_send_cmd_us ?st = sd_cmd_us (ps ! k)"
      "ss_patch_us ?st \<noteq> 0 \<longrightarrow> ss_patch_us ?st = sd_patch_us (ps ! k)" "ss_patched ?st \<longrightarrow> sd_patched (ps ! k)"
      using ntp_stamp_values [OF w] before by metis
    have "learn_own_send t0 ?st s = (s', lesson)" using l taken by (simp add: learn_from_send_def)
    with k show ?thesis
      by (auto simp: learn_own_send_def Let_def case_prod_beta split: if_splits)
  qed
qed

text \<open>
  The reply's own SEND, and a TCP frame's that starts while the stamp is loaded: the time and the
  class are the reply's, the patch time is already the other one's, so the patch delay learns nothing.
\<close>

definition race_sends :: "send_values list" where
  "race_sends =
     [\<lparr>sd_class = FC_NTP, sd_txbuf_start_us = 0, sd_txbuf_end_us = 0, sd_patch_us = 5290, sd_patched = True,
       sd_cmd_us = 5310\<rparr>,
      \<lparr>sd_class = FC_TCP, sd_txbuf_start_us = 0, sd_txbuf_end_us = 0, sd_patch_us = 0, sd_patched = False,
       sd_cmd_us = 5400\<rparr>]"

definition race_loads :: "nat list" where "race_loads = [7, 7, 7, 9, 10, 11, 11]"

theorem stamps_teach_one_send_witness:
  "let s' = fst (learn_from_send (w5500_send_stamp w5500_init) 5110 5500
       (loaded_send_stamp w5500_init race_sends race_loads 0 0) (ntp_server_init 123)) in
   sv_send_estimator s' = fst (learn (sv_send_estimator (ntp_server_init 123)) 200 5110) \<and>
   sv_patch_delay s' = sv_patch_delay (ntp_server_init 123)"
proof -
  let ?s = "ntp_server_init 123"
  let ?st = "loaded_send_stamp w5500_init race_sends race_loads 0 0"
  obtain s' l where l: "learn_from_send (w5500_send_stamp w5500_init) 5110 5500 ?st ?s = (s', l)" by fastforce
  have w: "stamp_window race_sends 0 (Some 0) race_loads"
    by (auto simp: stamp_window_def race_sends_def race_loads_def less_Suc_eq)
  have b: "ss_seq (w5500_send_stamp w5500_init) = w_send_cmd_seq (sent_at w5500_init race_sends 0)"
    by (simp add: w5500_send_stamp_def sent_at_def)
  have st: "ss_seq ?st \<noteq> ss_seq (w5500_send_stamp w5500_init)" "ss_frame_class ?st = FC_NTP" "ss_patch_us ?st = 0"
    and c: "ss_send_cmd_us ?st = 5310"
    by (simp_all add: loaded_send_stamp_def sent_seq sent_class.holds_last sent_patch_us.holds_last
        sent_cmd_us.holds_last
        race_sends_def race_loads_def w5500_send_stamp_def w5500_init_def)
  have p: "sv_patch_delay s' = sv_patch_delay ?s"
    and e: "sv_send_estimator s' = fst (learn (sv_send_estimator ?s) (i32 (ss_send_cmd_us ?st - to_u32 5110)) 5110)"
    using l st by (auto simp: learn_from_send_def learn_own_send_def Let_def case_prod_beta split: if_splits)
  note taught = stamps_teach_one_send [OF w b l]
  have "i32 (5310 - to_u32 5110) = 200" by (simp add: i32_def to_u32_def)
  with taught p e show ?thesis
    unfolding l c by (auto simp: Let_def)
qed

subsection \<open>The stamp of the interrupt edge\<close>

text \<open>The interrupt stores the time, then the number; \<open>w5500_int_stamp\<close> loads them in that order.\<close>

definition edge_stores :: "u32 \<Rightarrow> (w5500 \<Rightarrow> w5500) list" where
  "edge_stores now = [\<lambda>w. w\<lparr>w_int_edge_us := now\<rparr>, \<lambda>w. w\<lparr>w_int_edge_seq := w_int_edge_seq w + 1\<rparr>]"

lemma int_capture_is_stores: "int_capture_cb now w = apply_all (edge_stores now) w"
  by (simp add: int_capture_cb_def edge_stores_def)

definition loaded_int_stamp :: "w5500 \<Rightarrow> u32 list \<Rightarrow> nat \<Rightarrow> nat \<Rightarrow> int_stamp" where
  "loaded_int_stamp w edges t u =
     (let memory = (\<lambda>n. apply_all (take n (concat (map edge_stores edges))) w) in
      \<lparr>is_edge_us = w_int_edge_us (memory t), is_seq = w_int_edge_seq (memory u)\<rparr>)"

text \<open>
  The hook takes an edge for one frame only, by remembering its number (\<open>RxHook\<close>). That is sound while a
  number always comes with the same time, which it does not when the interrupt fires between the two
  loads. The first of two frames of one read
  burst takes the edge at 900 us; an edge at 1035 us comes while the second one's stamp is loaded,
  so that the second frame sees the old time with the new number, and is dated at 900 us as well.
\<close>

theorem torn_edge_dates_two_frames:
  "\<exists>w s i. let first = loaded_int_stamp w [900, 1035] 2 2; second = loaded_int_stamp w [900, 1035] 2 4;
       (s1, i1) = refine_int_edge 1000 first (s, i); (s2, i2) = refine_int_edge 1040 second (s1, i) in
     hi_t2_from_edge i1 \<and> hi_t i1 = 900 \<and> hi_t2_from_edge i2 \<and> hi_t i2 = 900"
proof -
  let ?s = "ntp_server_init 123"
  let ?i = "hook_info_init\<lparr>hi_edge_usable := True, hi_lead_us := 50\<rparr>"
  have a: "loaded_int_stamp w5500_init [900, 1035] 2 2 = \<lparr>is_edge_us = 900, is_seq = 1\<rparr>"
    "loaded_int_stamp w5500_init [900, 1035] 2 4 = \<lparr>is_edge_us = 900, is_seq = 2\<rparr>"
    by (simp_all add: loaded_int_stamp_def edge_stores_def w5500_init_def numeral_eq_Suc)
  show ?thesis
    by (rule exI [of _ w5500_init], rule exI [of _ ?s], rule exI [of _ ?i])
      (simp add: a refine_int_edge_def ntp_server_init_def RX_EDGE_LEAD_STRICT_US_def
        RX_STALL_EDGE_MAX_AGE_US_def i32_def to_u32_def)
qed

end
