(* ===== verification/PortableServer.thy ===== *)
theory PortableServer
  imports NtpResponse
begin

text \<open>
  \<open>setup\<close> and \<open>loop\<close> of \<open>components/ntp_server/ntp_server.cpp\<close> for platforms without ESP-IDF: one
  packet per pass of the main loop, dated when the loop gets to it, answered at once. There is no
  anchor, no hook, no admission and no learning; \<open>build_ntp_response_\<close> differs only in its last
  field.
\<close>

subsection \<open>The code\<close>

text \<open>Whether the component marks itself failed, from the result of opening the port.\<close>

definition portable_setup_fails :: "bool \<Rightarrow> bool" where
  "portable_setup_fails began \<longleftrightarrow> \<not> began"

text \<open>\<open>get_ntp_timestamp_\<close> without its ESP-IDF branches: the system clock, shifted.\<close>

definition portable_timestamp :: "int \<Rightarrow> timeval \<Rightarrow> ntp_timestamp" where
  "portable_timestamp offset_us tv =
     (let (sec, usec) = carry_up (tv_sec tv) (tv_usec tv + offset_us);
          (sec, usec) = carry_down sec usec in
      \<lparr>ts_seconds = to_u32 sec + NTP_UNIX_OFFSET, ts_fraction = to_u32 (push_bit 32 usec div 1000000)\<rparr>)"

text \<open>All fields before the transmit timestamp are built by the shared code.\<close>

definition portable_response :: "u8 list \<Rightarrow> ntp_timestamp \<Rightarrow> reply_reads \<Rightarrow> ntp_server \<Rightarrow> u8 list" where
  "portable_response request receive_ts r s =
     (let b = fst (build_ntp_response request receive_ts r s);
          transmit_ts = portable_timestamp (estimate_us (sv_send_estimator s)) (rp_tv r) in
      put b 40 (encode_ntp_timestamp transmit_ts))"

definition portable_loop :: "u8 list \<Rightarrow> timeval \<Rightarrow> reply_reads \<Rightarrow> ntp_server \<Rightarrow> u8 list option" where
  "portable_loop packet tv r s =
     (if length packet < NTP_PACKET_SIZE then None
      else Some (portable_response (take NTP_PACKET_SIZE packet) (portable_timestamp 0 tv) r s))"

subsection \<open>What it serves\<close>

lemma portable_timestamp_shared: "portable_timestamp offset tv = fst (get_ntp_timestamp False a offset c tv c2)"
  by (simp add: portable_timestamp_def get_ntp_timestamp_def Let_def case_prod_beta)

lemma portable_response_fields:
  assumes "length request = 48"
  shows "length (portable_response request rts r s) = 48 \<and>
    (i + n \<le> 40 \<longrightarrow> field_at i n (portable_response request rts r s) =
      field_at i n (fst (build_ntp_response request rts r s))) \<and>
    reply_time 40 (portable_response request rts r s) =
      portable_timestamp (estimate_us (sv_send_estimator s)) (rp_tv r)"
proof -
  obtain b s' where b: "build_ntp_response request rts r s = (b, s')" by fastforce
  obtain t c where "get_ntp_timestamp (sv_use_pps_anchor s) (rp_anchor r) (t3_offset_us s) (rp_clock_us r)
      (rp_tv r) (rp_clock2_us r) = (t, c)" by fastforce
  from reply_fields [OF assms b this] have l: "length b = 48" by simp
  define e where "e = encode_ntp_timestamp (portable_timestamp (estimate_us (sv_send_estimator s)) (rp_tv r))"
  have e: "length e = 8" by (simp add: e_def encode_ntp_timestamp_def)
  show ?thesis
    using l e by (auto simp: portable_response_def b Let_def reply_time_def put_get put_other
        simp flip: e_def field_at_def) (simp add: e_def)
qed

text \<open>
  Every packet of at least 48 bytes is answered, synchronised or not: the reply says so in leap and
  stratum, carries the client's transmit time as its origin and the two readings of the system
  clock as receive and transmit time, the second shifted by the estimate that nothing here ever
  updates. Its root dispersion is that of the clock the switch names.
\<close>

theorem portable_reply:
  assumes "48 \<le> length packet"
  shows "\<exists>b. portable_loop packet tv r s = Some b \<and> length b = 48 \<and>
    (drop_bit 6 (b ! 0), b ! 1) = (if is_time_synchronized (rp_millis r) (rp_src r) then (0, 1) else (3, 16)) \<and>
    field_at 24 8 b = field_at 40 8 packet \<and> reply_time 32 b = portable_timestamp 0 tv \<and>
    reply_time 40 b = portable_timestamp (estimate_us (sv_send_estimator s)) (rp_tv r) \<and>
    field_at 8 4 b = be32 (root_dispersion (rp_fused r) (sv_use_pps_anchor s) (ref_seconds (rp_src_ref r))
      (ts_seconds (portable_timestamp 0 tv)))"
proof -
  let ?q = "take 48 packet" and ?t = "portable_timestamp 0 tv"
  have q: "length ?q = 48" using assms by simp
  obtain b s' where b: "build_ntp_response ?q ?t r s = (b, s')" by fastforce
  obtain t c where t: "get_ntp_timestamp (sv_use_pps_anchor s) (rp_anchor r) (t3_offset_us s) (rp_clock_us r)
      (rp_tv r) (rp_clock2_us r) = (t, c)" by fastforce
  define p where "p = portable_response ?q ?t r s"
  have f: "length p = 48" "reply_time 40 p = portable_timestamp (estimate_us (sv_send_estimator s)) (rp_tv r)"
    "\<And>i n. i + n \<le> 40 \<Longrightarrow> field_at i n p = field_at i n b"
    using portable_response_fields [OF q, of ?t r s] by (simp_all add: p_def b)
  from reply_fields [OF q b t] have w: "field_at 8 4 b = be32 (root_dispersion (rp_fused r) (sv_use_pps_anchor s)
      (ref_seconds (rp_src_ref r)) (ts_seconds ?t))" by (simp add: field_at_def)
  have "field_at 24 8 b = field_at 40 8 ?q" "reply_time 32 b = ?t"
    "(drop_bit 6 (b ! 0), b ! 1) = (if is_time_synchronized (rp_millis r) (rp_src r) then (0, 1) else (3, 16))"
    using reply_well_formed_aux [OF q, of ?t r s] by (simp_all add: b t)
  moreover have "field_at 40 8 ?q = field_at 40 8 packet" by (simp add: field_at_def take_drop)
  moreover have "p ! k = b ! k" if "k < 40" for k
    using f(3) [of 0 40] nth_take [of k 40 p] nth_take [of k 40 b] that by (simp add: field_at_def)
  ultimately show ?thesis
    using f w assms by (simp add: portable_loop_def NTP_PACKET_SIZE_def reply_time_def flip: p_def field_at_def)
qed

text \<open>
  Out of the box that switch names the PPS anchor, which does not exist here: the reply, dated by
  the system clock, advertises 6 units of 15 us where the budget of that clock is 16.
\<close>

theorem portable_claims_anchor_dispersion:
  "sv_use_pps_anchor (ntp_server_init port) \<and> root_dispersion fused True 0 rec = 6 \<and>
   root_dispersion fused False 0 rec = 16"
  by (simp add: ntp_server_init_def root_dispersion_def disp_units_def disp_consts)

end
