(* ===== verification/GpsTelemetry.thy ===== *)
theory GpsTelemetry
  imports Complex_Main PpsClock Printf
begin

text \<open>
  The diagnostics of \<open>components/gps_pps_time/gps_pps_time.cpp\<close> on ESP-IDF: the context kept in
  memory that survives a panic, its report at the next boot, and what \<open>update\<close> publishes. A sensor
  value is the number before its cast to \<open>float\<close>; the mean interrupt latency is the exact ratio the
  code computes in doubles.
\<close>

subsection \<open>The crash context\<close>

record crash_context =
  cx_magic :: u32
  cx_heap_free :: u32
  cx_heap_min :: u32
  cx_uptime_sec :: u32
  cx_pps_count :: u32
  cx_main_stack_hwm :: u32
  cx_loop_count :: u32

definition CRASH_MAGIC :: u32 where "CRASH_MAGIC = 0xDEAD5AFE"
definition CRASH_BUF :: nat where "CRASH_BUF = 200"

definition crash_line :: "crash_context \<Rightarrow> string" where
  "crash_line c = ''PANIC at '' @ u32_field (cx_uptime_sec c) @ ''s uptime | Heap: '' @
     u32_field (cx_heap_free c) @ '' free, '' @ u32_field (cx_heap_min c) @ '' min | Stack HWM: '' @
     u32_field (cx_main_stack_hwm c) @ '' words | PPS#'' @ u32_field (cx_pps_count c) @ '' | Loops: '' @
     u32_field (cx_loop_count c)"

text \<open>\<open>snprintf\<close> into the buffer keeps what fits before the terminating zero.\<close>

definition crash_text :: "crash_context \<Rightarrow> string" where
  "crash_text c = take (CRASH_BUF - 1) (crash_line c)"

text \<open>The em dash of the message is three bytes of UTF-8.\<close>

definition no_context_text :: string where
  "no_context_text = ''PANIC (no RTC context '' @ [CHR 0xE2, CHR 0x80, CHR 0x94] @ '' cold boot or power loss)''"

text \<open>\<open>setup\<close>: the report when the reset was a panic, and the memory as this boot starts with it.\<close>

definition crash_setup :: "bool \<Rightarrow> crash_context \<Rightarrow> string option \<times> crash_context" where
  "crash_setup panic c =
     (if panic \<and> cx_magic c = CRASH_MAGIC then Some (crash_text c)
      else if panic then Some no_context_text else None,
      c\<lparr>cx_magic := CRASH_MAGIC, cx_loop_count := 0\<rparr>)"

text \<open>The readings of one pass of \<open>loop\<close>.\<close>

record crash_reads =
  cr_ms :: u32
  cr_free :: u32
  cr_min :: u32
  cr_pps :: u32
  cr_hwm :: u32

text \<open>The context with the time of its stamp update, a function static that starts at 0.\<close>

definition crash_tick :: "crash_reads \<Rightarrow> crash_context \<times> u32 \<Rightarrow> crash_context \<times> u32" where
  "crash_tick r x = (case x of (c, stamp) \<Rightarrow>
     let (c, stamp) = (if cr_ms r - stamp \<ge> 10000
           then (c\<lparr>cx_heap_free := cr_free r, cx_heap_min := cr_min r, cx_uptime_sec := cr_ms r div 1000,
                   cx_pps_count := cr_pps r, cx_main_stack_hwm := cr_hwm r\<rparr>, cr_ms r)
           else (c, stamp)) in
      (c\<lparr>cx_loop_count := cx_loop_count c + 1\<rparr>, stamp))"

text \<open>A boot: set-up, then passes of \<open>loop\<close> until the panic.\<close>

definition crash_boot :: "bool \<Rightarrow> crash_reads list \<Rightarrow> crash_context \<Rightarrow> crash_context" where
  "crash_boot panic rs c = fst (fold crash_tick rs (snd (crash_setup panic c), 0))"

text \<open>The whole \<open>loop\<close>: the edge, when one is pending, then the context.\<close>

definition gps_loop_idf ::
  "pps_reads \<Rightarrow> u32 option \<Rightarrow> crash_reads \<Rightarrow> gps_pps \<times> crash_context \<times> u32 \<Rightarrow>
   (gps_pps \<times> crash_context \<times> u32) \<times> clock_action list" where
  "gps_loop_idf r isr cr x = (case x of (s, cx) \<Rightarrow>
     let (s, acts) = gps_loop r isr s in
     ((s, crash_tick (cr\<lparr>cr_pps := gp_pps_count s\<rparr>) cx), acts))"

subsection \<open>What is published\<close>

datatype gps_sensor = SENSOR_INTERVAL | SENSOR_ISR_LATENCY | SENSOR_CRASH | SENSOR_SATELLITES | SENSOR_GPS_SATS
  | SENSOR_GLONASS_SATS | SENSOR_GALILEO_SATS | SENSOR_BEIDOU_SATS | SENSOR_NMEA_DELTA | SENSOR_CLOCK_OFFSET
  | SENSOR_PPS_DRIFT | SENSOR_PRED_ERROR | SENSOR_GPS_TIME

datatype sensor_value = Whole int | Ratio rat | Written string

text \<open>Which extractors exist and hold a valid count, and the broken-down local time.\<close>

record gsv_valid =
  gv_gps :: bool
  gv_glonass :: bool
  gv_galileo :: bool
  gv_beidou_gb :: bool
  gv_beidou_bd :: bool

record esp_time =
  et_year :: nat
  et_month :: nat
  et_day :: nat
  et_hour :: nat
  et_minute :: nat
  et_second :: nat

text \<open>\<open>%0wd\<close> of a number that is not negative\<close>

definition fmt_0d :: "nat \<Rightarrow> nat \<Rightarrow> string" where
  "fmt_0d w n = replicate (w - length (fmt_u n)) (CHR ''0'') @ fmt_u n"

definition TIME_BUF :: nat where "TIME_BUF = 20"

definition time_line :: "esp_time \<Rightarrow> string" where
  "time_line t = fmt_0d 4 (et_year t) @ ''-'' @ fmt_0d 2 (et_month t) @ ''-'' @ fmt_0d 2 (et_day t) @ '' '' @
     fmt_0d 2 (et_hour t) @ '':'' @ fmt_0d 2 (et_minute t) @ '':'' @ fmt_0d 2 (et_second t)"

definition time_text :: "esp_time \<Rightarrow> string" where
  "time_text t = take (TIME_BUF - 1) (time_line t)"

definition isr_latency_above_floor :: "gps_pps \<Rightarrow> rat" where
  "isr_latency_above_floor s =
     (of_int (gp_lat_sum_ticks s) / of_int (uint (gp_lat_n s)) - of_int (gp_lat_min_ticks s)) /
     (of_int PPS_CAPTURE_HZ / 1000000)"

definition publish_if ::
  "(gps_sensor \<Rightarrow> bool) \<Rightarrow> gps_sensor \<Rightarrow> bool \<Rightarrow> sensor_value \<Rightarrow> (gps_sensor \<times> sensor_value) list" where
  "publish_if conf sensor c v = (if conf sensor \<and> c then [(sensor, v)] else [])"

text \<open>
  \<open>update\<close>: \<open>conf\<close> says which sensors are configured, \<open>report\<close> is the crash report still to be
  published. The published values come in the order of the code.
\<close>

definition gps_update ::
  "(gps_sensor \<Rightarrow> bool) \<Rightarrow> gsv_valid \<Rightarrow> esp_time \<Rightarrow> gps_pps \<times> string option \<Rightarrow>
   (gps_pps \<times> string option) \<times> (gps_sensor \<times> sensor_value) list" where
  "gps_update conf gsv now x = (case x of (s, report) \<Rightarrow>
     let put = publish_if conf;
         interval = put SENSOR_INTERVAL (gp_cap_interval s \<noteq> 0) (Whole (pps_capture_ppb s));
         latency = put SENSOR_ISR_LATENCY (gp_lat_n s > 0) (Ratio (isr_latency_above_floor s));
         s = (if latency \<noteq> [] then s\<lparr>gp_lat_sum_ticks := 0, gp_lat_n := 0\<rparr> else s);
         crash = (case report of None \<Rightarrow> [] | Some r \<Rightarrow> put SENSOR_CRASH True (Written r));
         report = (if crash \<noteq> [] then None else report);
         count = (\<lambda>sensor c n. put sensor c (Whole (uint n)));
         sats = count SENSOR_SATELLITES True (gsv_total s) @
           count SENSOR_GPS_SATS (gv_gps gsv) (gp_gps_sats s) @
           count SENSOR_GLONASS_SATS (gv_glonass gsv) (gp_glonass_sats s) @
           count SENSOR_GALILEO_SATS (gv_galileo gsv) (gp_galileo_sats s) @
           count SENSOR_BEIDOU_SATS (gv_beidou_gb gsv \<or> gv_beidou_bd gsv) (gp_beidou_sats s);
         clock = put SENSOR_NMEA_DELTA (gp_nmea_clock_delta_valid s) (Whole (gp_nmea_clock_delta_ms s)) @
           put SENSOR_CLOCK_OFFSET (gp_pps_synced s) (Whole (gp_last_clock_offset_us s)) @
           put SENSOR_PPS_DRIFT (gp_pps_synced s) (Whole (gp_last_drift_us s)) @
           put SENSOR_PRED_ERROR (gp_pred_error_valid s) (Whole (gp_pred_error_us s)) @
           put SENSOR_GPS_TIME (gp_pps_synced s) (Written (time_text now)) in
     ((s, report), interval @ latency @ crash @ sats @ clock))"

subsection \<open>The crash report\<close>

lemma crash_line_fits: "length (crash_line c) < CRASH_BUF"
  using u32_field_length [of "cx_uptime_sec c"] u32_field_length [of "cx_heap_free c"]
    u32_field_length [of "cx_heap_min c"] u32_field_length [of "cx_main_stack_hwm c"]
    u32_field_length [of "cx_pps_count c"] u32_field_length [of "cx_loop_count c"]
  by (simp add: crash_line_def CRASH_BUF_def)

lemma crash_text_whole: "crash_text c = crash_line c"
  using crash_line_fits [of c] by (simp add: crash_text_def CRASH_BUF_def)

text \<open>The figures of a context beside its marker and its count of passes.\<close>

definition cx_figures :: "crash_context \<Rightarrow> u32 \<times> u32 \<times> u32 \<times> u32 \<times> u32" where
  "cx_figures c = (cx_heap_free c, cx_heap_min c, cx_uptime_sec c, cx_pps_count c, cx_main_stack_hwm c)"

definition reads_figures :: "crash_reads \<Rightarrow> u32 \<times> u32 \<times> u32 \<times> u32 \<times> u32" where
  "reads_figures r = (cr_free r, cr_min r, cr_ms r div 1000, cr_pps r, cr_hwm r)"

text \<open>The passes of one boot, at the instants \<open>t\<close> of the unwrapped clock.\<close>

definition passes_at :: "(nat \<Rightarrow> int) \<Rightarrow> crash_reads list \<Rightarrow> bool" where
  "passes_at t rs \<longleftrightarrow> 0 \<le> t 0 \<and> t 0 < 2147483648 \<and> (\<forall>i < length rs. cr_ms (rs ! i) = to_u32 (t i)) \<and>
     (\<forall>i. Suc i < length rs \<longrightarrow> t i \<le> t (Suc i) \<and> t (Suc i) - t i < 2147483648)"

lemma to_u32_ge: "0 \<le> k \<Longrightarrow> k < 4294967296 \<Longrightarrow> to_u32 k \<ge> 10000 \<longleftrightarrow> 10000 \<le> k"
  by (simp add: word_le_def uint_to_u32)

lemma crash_ticks:
  assumes "passes_at t rs" "rs \<noteq> []" "fold crash_tick rs (c, 0) = (c', stamp)"
  shows "cx_magic c' = cx_magic c \<and> cx_loop_count c' = cx_loop_count c + of_nat (length rs) \<and>
    0 \<le> t (length rs - 1) \<and>
    (if t (length rs - 1) < 10000 then cx_figures c' = cx_figures c \<and> stamp = 0
     else \<exists>k < length rs. 0 \<le> t (length rs - 1) - t k \<and> t (length rs - 1) - t k < 10000 \<and> 10000 \<le> t k \<and>
       stamp = to_u32 (t k) \<and> cx_figures c' = reads_figures (rs ! k))"
  using assms
proof (induction rs arbitrary: c' stamp rule: rev_induct)
  case (snoc r rs)
  obtain c1 s1 where f: "fold crash_tick rs (c, 0) = (c1, s1)" by fastforce
  let ?n = "length rs"
  have r: "cr_ms r = to_u32 (t ?n)" using snoc.prems(1) by (auto simp: passes_at_def nth_append)
  have tick: "crash_tick r (c1, s1) = (c', stamp)" using snoc.prems(3) f by simp
  define due where "due \<longleftrightarrow> to_u32 (t ?n) - s1 \<ge> 10000"
  have e: "cx_magic c' = cx_magic c1" "cx_loop_count c' = cx_loop_count c1 + 1"
    "due \<Longrightarrow> stamp = to_u32 (t ?n) \<and> cx_figures c' = reads_figures r"
    "\<not> due \<Longrightarrow> stamp = s1 \<and> cx_figures c' = cx_figures c1"
    using tick r by (auto simp: crash_tick_def Let_def cx_figures_def reads_figures_def due_def split: if_splits)
  have hit: "\<exists>k < length (rs @ [r]). 0 \<le> t (length (rs @ [r]) - 1) - t k \<and> t (length (rs @ [r]) - 1) - t k < 10000 \<and>
      10000 \<le> t k \<and> stamp = to_u32 (t k) \<and> cx_figures c' = reads_figures ((rs @ [r]) ! k)" if due "10000 \<le> t ?n"
    using that e(3) by (intro exI [of _ ?n]) simp
  show ?case
  proof (cases "rs = []")
    case True
    with f have c1: "c1 = c" "s1 = 0" by simp_all
    have "0 \<le> t 0" "t 0 < 4294967296" using snoc.prems(1) by (simp_all add: passes_at_def)
    with c1 True have "due \<longleftrightarrow> 10000 \<le> t 0" by (simp add: due_def to_u32_ge)
    with True e hit c1 \<open>0 \<le> t 0\<close> show ?thesis by auto
  next
    case False
    have p: "passes_at t rs" using snoc.prems(1) by (auto simp: passes_at_def nth_append split: if_splits)
    note IH = snoc.IH [OF p False f]
    have n: "Suc (?n - 1) = ?n" using False by simp
    have step: "t (?n - 1) \<le> t ?n" "t ?n - t (?n - 1) < 2147483648"
      using snoc.prems(1) False n unfolding passes_at_def by (metis length_append_singleton lessI n)+
    show ?thesis
    proof (cases "t (?n - 1) < 10000")
      case True
      with IH have c1: "s1 = 0" "cx_figures c1 = cx_figures c" "0 \<le> t (?n - 1)" by simp_all
      have "due \<longleftrightarrow> 10000 \<le> t ?n" using c1 step True by (simp add: due_def to_u32_ge)
      with e hit IH c1 step show ?thesis by auto
    next
      case False
      with IH obtain k where k: "k < ?n" "0 \<le> t (?n - 1) - t k" "t (?n - 1) - t k < 10000" "10000 \<le> t k"
        "s1 = to_u32 (t k)" "cx_figures c1 = reads_figures (rs ! k)" by auto
      have u: "uint (to_u32 (t ?n) - to_u32 (t k)) = t ?n - t k"
        using k step by (intro clock_elapsed_exact) simp_all
      have due: "due \<longleftrightarrow> 10000 \<le> t ?n - t k" by (simp add: due_def k(5) word_le_def u)
      have big: "\<not> t ?n < 10000" using step False by simp
      show ?thesis
      proof (cases due)
        case True
        with e hit IH big step False show ?thesis by auto
      next
        case nd: False
        have "\<exists>k < length (rs @ [r]). 0 \<le> t (length (rs @ [r]) - 1) - t k \<and> t (length (rs @ [r]) - 1) - t k < 10000 \<and>
            10000 \<le> t k \<and> stamp = to_u32 (t k) \<and> cx_figures c' = reads_figures ((rs @ [r]) ! k)"
          using nd due e(4) k step by (intro exI [of _ k]) (simp add: nth_append)
        with e(1,2) IH big step False show ?thesis by auto
      qed
    qed
  qed
qed simp

text \<open>
  C25: After a panic the next boot reports the state the crashed one was in, at most ten seconds
  before its last pass, uncut, provided it lived for ten seconds. When it did not, the report is
  made of the count of passes and of whatever the memory held when that boot began: the figures of
  an earlier boot, or garbage after power-up, since \<open>setup\<close> marks the memory valid without
  writing them.\<close>

theorem crash_report_contents:
  assumes "passes_at t rs" "rs \<noteq> []"
  shows "let c' = crash_boot panic rs c in
    fst (crash_setup True c') = Some (crash_line c') \<and> cx_loop_count c' = of_nat (length rs) \<and>
    (if t (length rs - 1) < 10000 then cx_figures c' = cx_figures c
     else \<exists>k < length rs. 0 \<le> t (length rs - 1) - t k \<and> t (length rs - 1) - t k < 10000 \<and>
       cx_figures c' = reads_figures (rs ! k))"
proof -
  let ?c0 = "c\<lparr>cx_magic := CRASH_MAGIC, cx_loop_count := 0\<rparr>"
  obtain c' stamp where f: "fold crash_tick rs (?c0, 0) = (c', stamp)" by fastforce
  have b: "crash_boot panic rs c = c'" by (simp add: crash_boot_def crash_setup_def f)
  note k = crash_ticks [OF assms f]
  have "cx_magic c' = CRASH_MAGIC" "cx_loop_count c' = of_nat (length rs)" using k by simp_all
  moreover have "cx_figures ?c0 = cx_figures c" by (simp add: cx_figures_def)
  ultimately show ?thesis
    using k by (auto simp: b Let_def crash_setup_def crash_text_whole split: if_splits)
qed

theorem crash_report_contents_witness:
  "let c = \<lparr>cx_magic = 7, cx_heap_free = 1, cx_heap_min = 2, cx_uptime_sec = 99999, cx_pps_count = 4,
         cx_main_stack_hwm = 5, cx_loop_count = 6\<rparr>;
       r = \<lparr>cr_ms = 16, cr_free = 50000, cr_min = 40000, cr_pps = 0, cr_hwm = 300\<rparr>;
       c' = crash_boot False [r] c in
     fst (crash_setup True c') = Some (crash_line c') \<and> cx_figures c' = (1, 2, 99999, 4, 5)"
proof -
  let ?c = "\<lparr>cx_magic = 7, cx_heap_free = 1, cx_heap_min = 2, cx_uptime_sec = 99999, cx_pps_count = 4,
         cx_main_stack_hwm = 5, cx_loop_count = 6\<rparr>"
  let ?r = "\<lparr>cr_ms = 16, cr_free = 50000, cr_min = 40000, cr_pps = 0, cr_hwm = 300\<rparr>"
  have "passes_at (\<lambda>_. 16) [?r]" by (simp add: passes_at_def to_u32_def)
  from crash_report_contents [OF this, of False ?c] show ?thesis
    by (simp add: Let_def cx_figures_def [of ?c])
qed

subsection \<open>The published latency\<close>

text \<open>What \<open>update\<close> leaves alone: everything but the sums of the interrupt latency.\<close>

lemma publish_if_simps:
  "x \<in> set (publish_if conf sensor c v) \<longleftrightarrow> conf sensor \<and> c \<and> x = (sensor, v)"
  "publish_if conf sensor c v \<noteq> [] \<longleftrightarrow> conf sensor \<and> c"
  "publish_if conf sensor c v = [] \<longleftrightarrow> \<not> (conf sensor \<and> c)"
  by (auto simp: publish_if_def)

text \<open>
  An update never touches the discipline of the clock; the report of a crash is published by
  exactly one of the updates once its sensor is configured; drift, offset and time are published
  only while synchronised.
\<close>

theorem update_publishes:
  assumes "gps_update conf gsv now (s, report) = ((s', report'), out)"
  shows "(\<exists>sum n. s' = s\<lparr>gp_lat_sum_ticks := sum, gp_lat_n := n\<rparr>) \<and>
    (conf SENSOR_CRASH \<longrightarrow> report' = None \<and> (\<forall>v. (SENSOR_CRASH, v) \<in> set out \<longleftrightarrow> (\<exists>r. report = Some r \<and> v = Written r))) \<and>
    (\<not> conf SENSOR_CRASH \<longrightarrow> report' = report) \<and>
    (\<not> gp_pps_synced s \<longrightarrow> fst ` set out \<inter> {SENSOR_CLOCK_OFFSET, SENSOR_PPS_DRIFT, SENSOR_GPS_TIME} = {})"
proof -
  have s': "s' = (if conf SENSOR_ISR_LATENCY \<and> gp_lat_n s > 0 then s\<lparr>gp_lat_sum_ticks := 0, gp_lat_n := 0\<rparr> else s)"
    and report': "report' = (if report \<noteq> None \<and> conf SENSOR_CRASH then None else report)"
    using assms [symmetric] by (cases report; simp add: gps_update_def Let_def publish_if_simps)+
  let ?c = "conf SENSOR_ISR_LATENCY \<and> gp_lat_n s > 0"
  have "s' = s\<lparr>gp_lat_sum_ticks := if ?c then 0 else gp_lat_sum_ticks s, gp_lat_n := if ?c then 0 else gp_lat_n s\<rparr>"
    by (simp add: s')
  then have 1: "\<exists>sum n. s' = s\<lparr>gp_lat_sum_ticks := sum, gp_lat_n := n\<rparr>" by blast
  have out: "out = snd (gps_update conf gsv now (s, report))" by (simp add: assms)
  have 2: "(SENSOR_CRASH, v) \<in> set out \<longleftrightarrow> conf SENSOR_CRASH \<and> (\<exists>r. report = Some r \<and> v = Written r)" for v
    unfolding out by (cases report) (simp_all add: gps_update_def Let_def publish_if_simps)
  have 3: "(SENSOR_CLOCK_OFFSET, v) \<notin> set out" "(SENSOR_PPS_DRIFT, v) \<notin> set out" "(SENSOR_GPS_TIME, v) \<notin> set out"
    if "\<not> gp_pps_synced s" for v
    unfolding out by (cases report; simp add: gps_update_def Let_def publish_if_simps that)+
  show ?thesis using 1 2 3 report' by (auto simp: image_iff)
qed

text \<open>
  The latency is published above the fastest edge of the current pairing. It is never negative
  while the sum holds edges of that pairing only; but a new pairing clears the floor and not the
  sum, so edges of the old one that ran ahead of its reference are then averaged against a floor
  that is not theirs.
\<close>

definition floor_ok :: "gps_pps \<Rightarrow> bool" where
  "floor_ok s \<longleftrightarrow> uint (gp_lat_n s) * gp_lat_min_ticks s \<le> gp_lat_sum_ticks s"

definition span_diff :: "u32 \<Rightarrow> gps_pps \<Rightarrow> int" where
  "span_diff isr_us s = uint (isr_us - gp_lat_prev_isr_us s) * 80 - uint (gp_cap_prev s - gp_lat_prev_cap s)"

definition same_pairing :: "u32 \<Rightarrow> gps_pps \<Rightarrow> bool" where
  "same_pairing isr_us s \<longleftrightarrow> gp_lat_paired s \<and> gp_cap_count s = gp_lat_prev_cap_count s + 1 \<and>
     \<bar>span_diff isr_us s\<bar> \<le> LAT_PAIR_LIMIT_TICKS"

lemma floor_ok_track:
  assumes "floor_ok s" "same_pairing isr_us s \<or> \<not> clean \<or> gp_cap_count s = 0" "uint (gp_lat_n s) < 4294967295"
  shows "floor_ok (track_isr_latency isr_us clean s)"
proof (cases "\<not> clean \<or> gp_cap_count s = 0")
  case True
  with assms(1) show ?thesis by (auto simp: track_isr_latency_def Let_def floor_ok_def)
next
  case False
  define d where "d = span_diff isr_us s"
  define level where "level = gp_lat_level_ticks s + d"
  define low where "low = (if level < gp_lat_min_ticks s then level else gp_lat_min_ticks s)"
  have p: "gp_lat_paired s" "gp_cap_count s = gp_lat_prev_cap_count s + 1" "\<not> d > 400000" "\<not> d < - 400000"
    using assms(2) False by (auto simp: same_pairing_def d_def pps_consts)
  have n: "uint (gp_lat_n s + 1) = uint (gp_lat_n s) + 1"
    using assms(3) by (subst uint_plus_simple) (simp_all add: no_olen_add)
  have d': "uint (isr_us - gp_lat_prev_isr_us s) * (80000000 sdiv 1000000) - uint (gp_cap_prev s - gp_lat_prev_cap s) = d"
    by (simp add: d_def span_diff_def)
  have t: "gp_lat_n (track_isr_latency isr_us clean s) = gp_lat_n s + 1"
    "gp_lat_min_ticks (track_isr_latency isr_us clean s) = low"
    "gp_lat_sum_ticks (track_isr_latency isr_us clean s) = gp_lat_sum_ticks s + level"
    using False p unfolding track_isr_latency_def Let_def pps_consts d'
    by (simp_all add: level_def low_def)
  have "uint (gp_lat_n s) * low \<le> uint (gp_lat_n s) * gp_lat_min_ticks s"
    by (intro mult_left_mono) (simp_all add: low_def)
  moreover have "low \<le> level" by (simp add: low_def)
  ultimately show ?thesis
    using assms(1) by (simp add: floor_ok_def t n distrib_right)
qed

lemma latency_not_negative: "floor_ok s \<Longrightarrow> 0 < uint (gp_lat_n s) \<Longrightarrow> 0 \<le> isr_latency_above_floor s"
proof -
  assume f: "floor_ok s" and n: "0 < uint (gp_lat_n s)"
  have "(of_int (gp_lat_min_ticks s) :: rat) * of_int (uint (gp_lat_n s)) \<le> of_int (gp_lat_sum_ticks s)"
    using f by (simp only: floor_ok_def mult.commute of_int_le_iff flip: of_int_mult)
  then have "(of_int (gp_lat_min_ticks s) :: rat) \<le> of_int (gp_lat_sum_ticks s) / of_int (uint (gp_lat_n s))"
    using n by (subst pos_le_divide_eq) (simp_all only: of_int_0_less_iff)
  then show ?thesis by (simp add: isr_latency_above_floor_def PPS_CAPTURE_HZ_def)
qed

text \<open>
  Two edges, the second 10 us ahead, one edge out of specification, one in: the latency published
  next is 10 us below zero.
\<close>

theorem latency_mixes_pairings:
  "let edge = (\<lambda>isr cap clean s. track_isr_latency isr clean (on_capture cap s));
       s = edge 4000000 320000000 True (edge 3000000 240000000 False
             (edge 1999990 160000000 True (edge 1000000 80000000 True gps_init))) in
     isr_latency_above_floor s = - 10"
  by (simp add: track_isr_latency_def on_capture_def gps_init_def Let_def pps_consts isr_latency_above_floor_def)

end
