(* ===== verification/EthLink.thy ===== *)
theory EthLink
  imports Prelude
begin

text \<open>
  What the two Ethernet components (\<open>ethernet_component_esp32.cpp\<close>, \<open>ethernet_component_rp2.cpp\<close>) share:
  the fields of \<open>EthernetComponent\<close> in \<open>ethernet_component.h\<close>, the connection state machine that both
  \<open>loop\<close> methods run, and the contract of the connect and disconnect triggers, stated once as a
  locale over the steps of a component.

  Everything a component does to the outside (a call into the SDK, a trigger, a listener
  notification) is appended to \<open>ec_trace\<close>. \<open>ec_failed\<close>, \<open>ec_loop_enabled\<close> and \<open>ec_warning\<close> are the
  parts of ESPHome's \<open>Component\<close> state that the code sets.
\<close>

datatype eth_type =
    ETHERNET_TYPE_UNKNOWN | ETHERNET_TYPE_LAN8720 | ETHERNET_TYPE_RTL8201 | ETHERNET_TYPE_DP83848
  | ETHERNET_TYPE_IP101 | ETHERNET_TYPE_JL1101 | ETHERNET_TYPE_KSZ8081 | ETHERNET_TYPE_KSZ8081RNA
  | ETHERNET_TYPE_W5100 | ETHERNET_TYPE_W5500 | ETHERNET_TYPE_OPENETH | ETHERNET_TYPE_DM9051
  | ETHERNET_TYPE_LAN8670 | ETHERNET_TYPE_ENC28J60 | ETHERNET_TYPE_W6100 | ETHERNET_TYPE_W6300
  | ETHERNET_TYPE_GENERIC | ETHERNET_TYPE_YT8531 | ETHERNET_TYPE_CH390

datatype eth_state = STOPPED | CONNECTING | CONNECTED

text \<open>An address is \<open>0\<close> when it is not set (\<open>IPAddress::is_set\<close>).\<close>

record manual_ip =
  mi_static_ip :: u32
  mi_gateway :: u32
  mi_subnet :: u32
  mi_dns1 :: u32
  mi_dns2 :: u32

record phy_register =
  pr_address :: u32
  pr_value :: u32
  pr_page :: u32

text \<open>The SDK calls, by what the code passes.\<close>

datatype eth_call =
    SpiBusInitialize | NewMacPhy eth_type | DriverInstall
  | PhyWrite u32 u32 | PhyRead u32
  | SetAutonego | SetMacAddr "u8 list option" | GetMacAddr | GetSpeed | GetDuplex
  | NetifAttach | RegisterEthEvent | RegisterGotIp | RegisterGotIp6
  | EthStart | EthStop | PhyPowerOff
  | SetHostname | DhcpcGetStatus | DhcpcStop | SetIpInfo u32 u32 u32 | DhcpcStart
  | SetDns nat u32 | CreateIp6Linklocal

datatype eth_output = Call eth_call | ConnectTrigger | DisconnectTrigger | NotifyIpListeners

record eth_component =
  ec_type :: eth_type
  ec_state :: eth_state
  ec_started :: bool
  ec_connected :: bool
  ec_got_ipv4_address :: bool
  ec_enable_on_boot :: bool
  ec_disabled :: bool
  ec_connect_begin :: u32
  ec_manual_ip :: "manual_ip option"
  ec_fixed_mac :: "u8 list option"
  ec_failed :: bool
  ec_loop_enabled :: bool
  ec_warning :: bool
  ec_trace :: "eth_output list"

definition emit :: "eth_output \<Rightarrow> 'a eth_component_scheme \<Rightarrow> 'a eth_component_scheme" where
  "emit x s = s\<lparr>ec_trace := ec_trace s @ [x]\<rparr>"

definition is_connected :: "'a eth_component_scheme \<Rightarrow> bool" where
  "is_connected s \<longleftrightarrow> ec_state s = CONNECTED"

definition is_enabled :: "'a eth_component_scheme \<Rightarrow> bool" where
  "is_enabled s \<longleftrightarrow> \<not> ec_disabled s"

subsection \<open>The connection state machine\<close>

text \<open>
  The \<open>switch\<close> of \<open>loop\<close>, with the platform's \<open>start_connect_\<close>, \<open>dump_connect_params_\<close> and what
  it does while connected as arguments. \<open>now\<close> is the start time of the pass. The time since the
  connection attempt began is an unsigned 32-bit difference.
\<close>

definition CONNECT_TIMEOUT_MS :: u32 where "CONNECT_TIMEOUT_MS = 15000"

definition link_switch ::
  "('a eth_component_scheme \<Rightarrow> 'a eth_component_scheme) \<Rightarrow>
   ('a eth_component_scheme \<Rightarrow> 'a eth_component_scheme) \<Rightarrow>
   ('a eth_component_scheme \<Rightarrow> 'a eth_component_scheme) \<Rightarrow>
   u32 \<Rightarrow> 'a eth_component_scheme \<Rightarrow> 'a eth_component_scheme" where
  "link_switch start dump steady now s = (case ec_state s of
     STOPPED \<Rightarrow>
       if ec_started s then start (s\<lparr>ec_state := CONNECTING\<rparr>) else s
   | CONNECTING \<Rightarrow>
       if \<not> ec_started s then s\<lparr>ec_state := STOPPED\<rparr>
       else if ec_connected s then
         emit ConnectTrigger ((dump (s\<lparr>ec_state := CONNECTED\<rparr>))\<lparr>ec_warning := False\<rparr>)
       else if now - ec_connect_begin s > CONNECT_TIMEOUT_MS then start s
       else s
   | CONNECTED \<Rightarrow>
       if \<not> ec_started s then emit DisconnectTrigger (s\<lparr>ec_state := STOPPED\<rparr>)
       else if \<not> ec_connected s then
         emit DisconnectTrigger (start (s\<lparr>ec_state := CONNECTING\<rparr>))
       else steady s)"

subsection \<open>What observers of the triggers rely on\<close>

text \<open>
  The automations attached to \<open>on_connect\<close> and \<open>on_disconnect\<close> expect strict alternation. The
  acceptor reads a trace with the link believed up or down, and refuses a second connect while
  up or a disconnect while down.
\<close>

fun trigger_run :: "bool \<Rightarrow> eth_output list \<Rightarrow> bool option" where
  "trigger_run up [] = Some up"
| "trigger_run up (ConnectTrigger # xs) = (if up then None else trigger_run True xs)"
| "trigger_run up (DisconnectTrigger # xs) = (if up then trigger_run False xs else None)"
| "trigger_run up (Call c # xs) = trigger_run up xs"
| "trigger_run up (NotifyIpListeners # xs) = trigger_run up xs"

lemma trigger_run_append:
  "trigger_run up xs = Some v \<Longrightarrow> trigger_run up (xs @ ys) = trigger_run v ys"
  by (induction up xs rule: trigger_run.induct) (auto split: if_splits)

definition silent :: "eth_output list \<Rightarrow> bool" where
  "silent xs \<longleftrightarrow> (\<forall>x \<in> set xs. x \<noteq> ConnectTrigger \<and> x \<noteq> DisconnectTrigger)"

lemma silent_simps [simp]:
  "silent []" "silent (Call c # xs) = silent xs" "silent (NotifyIpListeners # xs) = silent xs"
  "silent (ConnectTrigger # xs) = False" "silent (DisconnectTrigger # xs) = False"
  "silent (xs @ ys) \<longleftrightarrow> silent xs \<and> silent ys"
  by (auto simp: silent_def)

lemma trigger_run_silent_append: "silent xs \<Longrightarrow> trigger_run up (xs @ ys) = trigger_run up ys"
  by (induction up xs rule: trigger_run.induct) auto

lemma trigger_run_silent: "silent xs \<Longrightarrow> trigger_run up xs = Some up"
  by (induction up xs rule: trigger_run.induct) auto

text \<open>
  An operation that is \<^emph>\<open>quiet\<close> fires no trigger and leaves the connection state alone; one that
  is \<^emph>\<open>honest\<close> fires the triggers that its change of state calls for.
\<close>

definition quiet :: "'a eth_component_scheme \<Rightarrow> 'a eth_component_scheme \<Rightarrow> bool" where
  "quiet s s' \<longleftrightarrow> ec_state s' = ec_state s \<and> (\<exists>out. ec_trace s' = ec_trace s @ out \<and> silent out)"

definition honest :: "'a eth_component_scheme \<Rightarrow> 'a eth_component_scheme \<Rightarrow> bool" where
  "honest s s' \<longleftrightarrow> (\<exists>out. ec_trace s' = ec_trace s @ out \<and>
     trigger_run (is_connected s) out = Some (is_connected s'))"

lemma quietI:
  "ec_state s' = ec_state s \<Longrightarrow> ec_trace s' = ec_trace s @ out \<Longrightarrow> silent out \<Longrightarrow> quiet s s'"
  by (auto simp: quiet_def)

lemma quiet_refl [simp]: "quiet s s"
  by (rule quietI [where out = "[]"]) simp_all

lemma quiet_trans: "quiet s s' \<Longrightarrow> quiet s' s'' \<Longrightarrow> quiet s s''"
  by (auto simp: quiet_def)

lemma quiet_emit [simp]: "quiet s (emit (Call c) s)" "quiet s (emit NotifyIpListeners s)"
  by (rule quietI [OF _ _ silent_simps(2) [THEN iffD2, OF silent_simps(1)]]; simp add: emit_def)
    (rule quietI [OF _ _ silent_simps(3) [THEN iffD2, OF silent_simps(1)]]; simp add: emit_def)

lemma quiet_honest: "quiet s s' \<Longrightarrow> honest s s'"
  by (auto simp: quiet_def honest_def is_connected_def trigger_run_silent)

lemma honest_trans: "honest s s' \<Longrightarrow> honest s' s'' \<Longrightarrow> honest s s''"
  unfolding honest_def by (metis append.assoc trigger_run_append)

lemma quiet_cong:
  "ec_state t = ec_state s \<Longrightarrow> ec_trace t = ec_trace s \<Longrightarrow> quiet t s' = quiet s s'"
  by (simp add: quiet_def)

lemma quiet_cong':
  "ec_state t' = ec_state s' \<Longrightarrow> ec_trace t' = ec_trace s' \<Longrightarrow> quiet s t' = quiet s s'"
  by (simp add: quiet_def)

lemma honest_silent:
  "ec_trace s' = ec_trace s @ out \<Longrightarrow> silent out \<Longrightarrow> is_connected s' = is_connected s \<Longrightarrow> honest s s'"
  by (auto simp: honest_def trigger_run_silent)

lemma link_switch_honest:
  assumes start: "\<And>x. quiet x (start x)" and dump: "\<And>x. quiet x (dump x)"
    and steady: "\<And>x. quiet x (steady x)"
  shows "honest s (link_switch start dump steady now s)"
proof (cases "ec_state s")
  case STOPPED
  then show ?thesis
    using start [of "s\<lparr>ec_state := CONNECTING\<rparr>"]
    by (auto simp: link_switch_def quiet_def honest_def is_connected_def trigger_run_silent)
next
  case CONNECTING
  then show ?thesis
    using dump [of "s\<lparr>ec_state := CONNECTED\<rparr>"] start [of s]
    by (auto simp: link_switch_def quiet_def honest_def is_connected_def trigger_run_silent
        trigger_run_silent_append emit_def)
next
  case CONNECTED
  then show ?thesis
    using start [of "s\<lparr>ec_state := CONNECTING\<rparr>"] steady [of s]
    by (auto simp: link_switch_def quiet_def honest_def is_connected_def trigger_run_silent
        trigger_run_silent_append emit_def)
qed

text \<open>
  The contract of a component with triggers: it starts with an accepted trace and each of its steps
  is honest. Along every run the triggers then alternate, starting with a connect, and the last
  one tells the state.
\<close>

locale link_component =
  fixes init :: "'s \<Rightarrow> bool" and step :: "'s \<Rightarrow> 's \<Rightarrow> bool" and view :: "'s \<Rightarrow> 'a eth_component_scheme"
  assumes init_trace:
      "init s \<Longrightarrow> trigger_run False (ec_trace (view s)) = Some (is_connected (view s))"
    and step_honest: "step s s' \<Longrightarrow> honest (view s) (view s')"
begin

lemma triggers_alternate:
  "step\<^sup>*\<^sup>* s s' \<Longrightarrow> init s \<Longrightarrow>
   trigger_run False (ec_trace (view s')) = Some (is_connected (view s'))"
proof (induction rule: rtranclp_induct)
  case base
  then show ?case by (rule init_trace)
next
  case (step y z)
  then show ?case
    using step_honest [of y z] trigger_run_append by (fastforce simp: honest_def)
qed

end

end
