(* ===== verification/EthEsp32.thy ===== *)
theory EthEsp32
  imports EthLink
begin

text \<open>
  \<open>components/ethernet/ethernet_component_esp32.cpp\<close>: the Ethernet component on ESP-IDF. ESP-IDF itself
  is a parameter: \<open>idf k c\<close> is the error code, and the value where there is one, that call \<open>c\<close>
  returns when it is the k-th thing the component does. Build options (\<open>USE_ETHERNET_SPI\<close>,
  \<open>USE_NETWORK_IPV6\<close>, the drivers compiled in, and so on) are the record \<open>eth_build\<close>.
  Events of ESP-IDF and passes of \<open>loop\<close> are atomic with respect to each other.
\<close>

datatype esp_err = ESP_OK | ESP_FAIL | ESP_ERR_ESP_NETIF_INVALID_PARAMS
  | ESP_ERR_ESP_NETIF_DHCP_ALREADY_STARTED | ESP_ERR_ESP_NETIF_DHCP_ALREADY_STOPPED
  | ESP_ERR_OTHER nat

type_synonym idf = "nat \<Rightarrow> eth_call \<Rightarrow> esp_err \<times> u32"

record eth_build =
  eb_spi :: bool
  eb_drivers :: "eth_type list"
  eb_ipv6 :: bool
  eb_min_ipv6_addr_count :: nat
  eb_ip_listeners :: bool

record eth_esp32 = eth_component +
  ep_initialized :: bool
  ep_phy_assigned :: bool
  ep_clk_out :: bool
  ep_phy_registers :: "phy_register list"
  ep_ipv6_count :: u8
  ep_ipv6_setup_done :: bool

subsection \<open>Calls and their errors\<close>

definition mark_failed :: "eth_esp32 \<Rightarrow> eth_esp32" where
  "mark_failed s = s\<lparr>ec_failed := True\<rparr>"

definition enable_loop :: "eth_esp32 \<Rightarrow> eth_esp32" where
  "enable_loop s = s\<lparr>ec_loop_enabled := True\<rparr>"

definition disable_loop :: "eth_esp32 \<Rightarrow> eth_esp32" where
  "disable_loop s = s\<lparr>ec_loop_enabled := False\<rparr>"

definition esp_call :: "idf \<Rightarrow> eth_call \<Rightarrow> eth_esp32 \<Rightarrow> eth_esp32 \<times> esp_err \<times> u32" where
  "esp_call idf c s = (emit (Call c) s, idf (length (ec_trace s)) c)"

text \<open>\<open>ESPHL_ERROR_CHECK\<close>: an error marks the component failed and ends the function.\<close>

definition esphl_error_check :: "esp_err \<Rightarrow> (eth_esp32 \<Rightarrow> eth_esp32) \<Rightarrow> eth_esp32 \<Rightarrow> eth_esp32" where
  "esphl_error_check err k s = (if err \<noteq> ESP_OK then mark_failed s else k s)"

definition checked :: "idf \<Rightarrow> eth_call \<Rightarrow> (u32 \<Rightarrow> eth_esp32 \<Rightarrow> eth_esp32) \<Rightarrow> eth_esp32 \<Rightarrow> eth_esp32" where
  "checked idf c k s = (let (s, err, v) = esp_call idf c s in esphl_error_check err (k v) s)"

subsection \<open>PHY registers\<close>

definition ETH_PHY_PSR_REG_ADDR :: u32 where "ETH_PHY_PSR_REG_ADDR = 0x1F"
definition KSZ80XX_PC2R_REG_ADDR :: u32 where "KSZ80XX_PC2R_REG_ADDR = 0x1F"

definition write_phy_register :: "idf \<Rightarrow> phy_register \<Rightarrow> eth_esp32 \<Rightarrow> eth_esp32" where
  "write_phy_register idf r s =
     (let paged = (ec_type s = ETHERNET_TYPE_RTL8201 \<and> pr_page r \<noteq> 0);
          write = checked idf (PhyWrite (pr_address r) (pr_value r)) (\<lambda>_ s.
            if paged then checked idf (PhyWrite ETH_PHY_PSR_REG_ADDR 0) (\<lambda>_ s. s) s else s) in
      if paged then checked idf (PhyWrite ETH_PHY_PSR_REG_ADDR (pr_page r)) (\<lambda>_. write) s
      else write s)"

definition ksz8081_set_clock_reference :: "idf \<Rightarrow> eth_esp32 \<Rightarrow> eth_esp32" where
  "ksz8081_set_clock_reference idf = checked idf (PhyRead KSZ80XX_PC2R_REG_ADDR) (\<lambda>phy_control_2 s.
     if phy_control_2 AND push_bit 7 1 \<noteq> push_bit 7 1 then
       checked idf (PhyWrite KSZ80XX_PC2R_REG_ADDR (phy_control_2 OR push_bit 7 1)) (\<lambda>_.
         checked idf (PhyRead KSZ80XX_PC2R_REG_ADDR) (\<lambda>_ s. s)) s
     else s)"

definition yt8531_phy_init :: "idf \<Rightarrow> eth_esp32 \<Rightarrow> eth_esp32" where
  "yt8531_phy_init idf =
     checked idf SetAutonego (\<lambda>_.
     checked idf (PhyWrite 0x1E 0xA001) (\<lambda>_.
     checked idf (PhyRead 0x1F) (\<lambda>reg_val.
     checked idf (PhyWrite 0x1F (reg_val OR push_bit 8 1)) (\<lambda>_.
     checked idf (PhyWrite 0x1E 0xA003) (\<lambda>_.
     checked idf (PhyRead 0x1F) (\<lambda>reg_val.
     checked idf (PhyWrite 0x1F (reg_val AND NOT 0x00FF OR push_bit 4 13 OR push_bit 0 13)) (\<lambda>_ s. s)))))))"

subsection \<open>Bringing the driver up\<close>

text \<open>
  What the internal MAC needs between the driver's installation and its MAC address. A failed
  register write does not end the function; only the YT8531 branch looks at \<open>is_failed\<close>.
\<close>

definition configure_phy :: "idf \<Rightarrow> (eth_esp32 \<Rightarrow> eth_esp32) \<Rightarrow> eth_esp32 \<Rightarrow> eth_esp32" where
  "configure_phy idf k s =
     (let s = (if ec_type s = ETHERNET_TYPE_KSZ8081RNA \<and> ep_clk_out s
               then ksz8081_set_clock_reference idf s else s);
          s = fold (write_phy_register idf) (ep_phy_registers s) s in
      if ec_type s = ETHERNET_TYPE_GENERIC then checked idf SetAutonego (\<lambda>_. k) s
      else if ec_type s = ETHERNET_TYPE_YT8531 then
        (let s = yt8531_phy_init idf s in if ec_failed s then s else k s)
      else k s)"

definition attach_driver :: "eth_build \<Rightarrow> idf \<Rightarrow> eth_esp32 \<Rightarrow> eth_esp32" where
  "attach_driver b idf s =
     (let done = (\<lambda>s. s\<lparr>ep_initialized := True\<rparr>) in
      checked idf (SetMacAddr (ec_fixed_mac s)) (\<lambda>_.
      checked idf NetifAttach (\<lambda>_.
      checked idf RegisterEthEvent (\<lambda>_.
      checked idf RegisterGotIp (\<lambda>_ s.
        if eb_ipv6 b then checked idf RegisterGotIp6 (\<lambda>_. done) s else done s)))) s)"

definition install_driver :: "eth_build \<Rightarrow> idf \<Rightarrow> eth_esp32 \<Rightarrow> eth_esp32" where
  "install_driver b idf s =
     (if ec_type s \<notin> set (eb_drivers b) then mark_failed s
      else checked idf DriverInstall (\<lambda>_ s.
             if eb_spi b then attach_driver b idf s
             else configure_phy idf (attach_driver b idf) s)
           (emit (Call (NewMacPhy (ec_type s))) (s\<lparr>ep_phy_assigned := True\<rparr>)))"

definition ethernet_lazy_init :: "eth_build \<Rightarrow> idf \<Rightarrow> eth_esp32 \<Rightarrow> eth_esp32" where
  "ethernet_lazy_init b idf s =
     (if ep_initialized s then s
      else if eb_spi b then checked idf SpiBusInitialize (\<lambda>_. install_driver b idf) s
      else install_driver b idf s)"

definition eth_setup :: "eth_build \<Rightarrow> idf \<Rightarrow> eth_esp32 \<Rightarrow> eth_esp32" where
  "eth_setup b idf s =
     (if ec_enable_on_boot s then
        (let s = ethernet_lazy_init b idf s in
         if \<not> ep_initialized s then s else checked idf EthStart (\<lambda>_ s. s) s)
      else s\<lparr>ec_disabled := True\<rparr>)"

definition eth_enable :: "eth_build \<Rightarrow> idf \<Rightarrow> eth_esp32 \<Rightarrow> eth_esp32" where
  "eth_enable b idf s =
     (if \<not> ec_disabled s then s
      else
        (let s = ethernet_lazy_init b idf s in
         if \<not> ep_initialized s then s
         else
           (let (s, err, _) = esp_call idf EthStart s in
            if err \<noteq> ESP_OK then s else enable_loop (s\<lparr>ec_disabled := False\<rparr>))))"

definition eth_disable :: "idf \<Rightarrow> eth_esp32 \<Rightarrow> eth_esp32" where
  "eth_disable idf s =
     (if ec_disabled s then s
      else (let (s, err, _) = esp_call idf EthStop s in s\<lparr>ec_disabled := True\<rparr>))"

definition powerdown :: "idf \<Rightarrow> eth_esp32 \<Rightarrow> eth_esp32 \<times> bool" where
  "powerdown idf s =
     (if \<not> ep_phy_assigned s then (s, False)
      else
        (let (s, err, _) = esp_call idf PhyPowerOff (s\<lparr>ec_connected := False, ec_started := False\<rparr>) in
         (s, err = ESP_OK)))"

subsection \<open>Queries\<close>

text \<open>A failed query marks the component failed as well. Speed and duplex are the SDK's values.\<close>

definition ETH_SPEED_10M :: u32 where "ETH_SPEED_10M = 0"
definition ETH_DUPLEX_HALF :: u32 where "ETH_DUPLEX_HALF = 0"

definition query :: "idf \<Rightarrow> eth_call \<Rightarrow> u32 \<Rightarrow> eth_esp32 \<Rightarrow> eth_esp32 \<times> u32" where
  "query idf c dflt s =
     (if \<not> ep_initialized s then (s, dflt)
      else (let (s, err, v) = esp_call idf c s in
        if err \<noteq> ESP_OK then (mark_failed s, dflt) else (s, v)))"

definition get_link_speed :: "idf \<Rightarrow> eth_esp32 \<Rightarrow> eth_esp32 \<times> u32" where
  "get_link_speed idf = query idf GetSpeed ETH_SPEED_10M"

definition get_duplex_mode :: "idf \<Rightarrow> eth_esp32 \<Rightarrow> eth_esp32 \<times> u32" where
  "get_duplex_mode idf = query idf GetDuplex ETH_DUPLEX_HALF"

definition query_mac :: "idf \<Rightarrow> eth_esp32 \<Rightarrow> eth_esp32" where
  "query_mac idf s = (if \<not> ep_initialized s then s else checked idf GetMacAddr (\<lambda>_ s. s) s)"

definition dump_connect_params :: "idf \<Rightarrow> eth_esp32 \<Rightarrow> eth_esp32" where
  "dump_connect_params idf s =
     (if \<not> ep_initialized s then s
      else fst (get_duplex_mode idf (query_mac idf (fst (get_link_speed idf s)))))"

subsection \<open>Connecting\<close>

definition create_ip6_linklocal :: "eth_build \<Rightarrow> idf \<Rightarrow> (eth_esp32 \<Rightarrow> eth_esp32) \<Rightarrow> eth_esp32 \<Rightarrow> eth_esp32" where
  "create_ip6_linklocal b idf k s =
     (if eb_ipv6 b then
        (let (s, err, _) = esp_call idf CreateIp6Linklocal s in
         if err = ESP_ERR_ESP_NETIF_INVALID_PARAMS then mark_failed s else k s)
      else k s)"

definition set_dns :: "nat \<Rightarrow> u32 \<Rightarrow> eth_esp32 \<Rightarrow> eth_esp32" where
  "set_dns i addr s = (if addr \<noteq> 0 then emit (Call (SetDns i addr)) s else s)"

definition ip_info_call :: "eth_esp32 \<Rightarrow> eth_call" where
  "ip_info_call s = (case ec_manual_ip s of
     None \<Rightarrow> SetIpInfo 0 0 0
   | Some m \<Rightarrow> SetIpInfo (mi_static_ip m) (mi_gateway m) (mi_subnet m))"

definition configure_address :: "idf \<Rightarrow> (eth_esp32 \<Rightarrow> eth_esp32) \<Rightarrow> eth_esp32 \<Rightarrow> eth_esp32" where
  "configure_address idf k s = (case ec_manual_ip s of
     Some m \<Rightarrow> k (set_dns 1 (mi_dns2 m) (set_dns 0 (mi_dns1 m) s))
   | None \<Rightarrow>
       (let (s, err, _) = esp_call idf DhcpcStart s in
        if err \<noteq> ESP_ERR_ESP_NETIF_DHCP_ALREADY_STARTED then esphl_error_check err k s else k s))"

definition restart_dhcp :: "eth_build \<Rightarrow> idf \<Rightarrow> (eth_esp32 \<Rightarrow> eth_esp32) \<Rightarrow> eth_esp32 \<Rightarrow> eth_esp32" where
  "restart_dhcp b idf k =
     checked idf DhcpcGetStatus (\<lambda>_ s.
       let set_ip = (\<lambda>s. checked idf (ip_info_call s)
             (\<lambda>_. configure_address idf (create_ip6_linklocal b idf k)) s);
           (s, err, _) = esp_call idf DhcpcStop s in
       if err \<noteq> ESP_ERR_ESP_NETIF_DHCP_ALREADY_STOPPED then esphl_error_check err set_ip s
       else set_ip s)"

text \<open>\<open>t0\<close> and \<open>t1\<close> are the two readings of \<open>millis\<close>. A refused host name is only logged.\<close>

definition start_connect :: "eth_build \<Rightarrow> idf \<Rightarrow> u32 \<Rightarrow> u32 \<Rightarrow> eth_esp32 \<Rightarrow> eth_esp32" where
  "start_connect b idf t0 t1 s =
     (let s = s\<lparr>ec_got_ipv4_address := False\<rparr>;
          s = (if eb_ipv6 b then s\<lparr>ep_ipv6_count := 0, ep_ipv6_setup_done := False\<rparr> else s);
          s = s\<lparr>ec_connect_begin := t0, ec_warning := True\<rparr>;
          s = emit (Call SetHostname) s in
      restart_dhcp b idf (\<lambda>s. s\<lparr>ec_connect_begin := t1, ec_warning := True\<rparr>) s)"

definition finish_connect :: "eth_build \<Rightarrow> eth_esp32 \<Rightarrow> eth_esp32" where
  "finish_connect b s =
     (if eb_ipv6 b \<and> \<not> ep_ipv6_setup_done s
      then emit (Call CreateIp6Linklocal) s\<lparr>ep_ipv6_setup_done := True\<rparr> else s)"

definition eth_loop :: "eth_build \<Rightarrow> idf \<Rightarrow> u32 \<Rightarrow> u32 \<Rightarrow> u32 \<Rightarrow> eth_esp32 \<Rightarrow> eth_esp32" where
  "eth_loop b idf now t0 t1 =
     link_switch (start_connect b idf t0 t1) (dump_connect_params idf)
       (\<lambda>s. disable_loop (finish_connect b s)) now"

subsection \<open>Events\<close>

datatype eth_event = ETHERNET_EVENT_START | ETHERNET_EVENT_STOP | ETHERNET_EVENT_CONNECTED
  | ETHERNET_EVENT_DISCONNECTED | ETHERNET_EVENT_OTHER

definition notify_ip_state_listeners :: "eth_build \<Rightarrow> eth_esp32 \<Rightarrow> eth_esp32" where
  "notify_ip_state_listeners b s = (if eb_ip_listeners b then emit NotifyIpListeners s else s)"

definition eth_event_handler :: "eth_build \<Rightarrow> eth_event \<Rightarrow> eth_esp32 \<Rightarrow> eth_esp32" where
  "eth_event_handler b e s = (case e of
     ETHERNET_EVENT_START \<Rightarrow> enable_loop (s\<lparr>ec_started := True\<rparr>)
   | ETHERNET_EVENT_STOP \<Rightarrow> enable_loop (s\<lparr>ec_started := False, ec_connected := False\<rparr>)
   | ETHERNET_EVENT_CONNECTED \<Rightarrow>
       if ec_manual_ip s \<noteq> None then notify_ip_state_listeners b s else s
   | ETHERNET_EVENT_DISCONNECTED \<Rightarrow> enable_loop (s\<lparr>ec_connected := False\<rparr>)
   | ETHERNET_EVENT_OTHER \<Rightarrow> s)"

definition enough_ipv6 :: "eth_build \<Rightarrow> eth_esp32 \<Rightarrow> bool" where
  "enough_ipv6 b s \<longleftrightarrow> \<not> eb_ipv6 b \<or> unat (ep_ipv6_count s) \<ge> eb_min_ipv6_addr_count b"

definition got_ip_event_handler :: "eth_build \<Rightarrow> eth_esp32 \<Rightarrow> eth_esp32" where
  "got_ip_event_handler b s =
     (let s = s\<lparr>ec_got_ipv4_address := True\<rparr> in
      notify_ip_state_listeners b (enable_loop (s\<lparr>ec_connected := enough_ipv6 b s\<rparr>)))"

definition got_ip6_event_handler :: "eth_build \<Rightarrow> eth_esp32 \<Rightarrow> eth_esp32" where
  "got_ip6_event_handler b s =
     (let s = s\<lparr>ep_ipv6_count := ep_ipv6_count s + 1\<rparr> in
      notify_ip_state_listeners b
        (enable_loop (s\<lparr>ec_connected := (ec_got_ipv4_address s \<and> enough_ipv6 b s)\<rparr>)))"

subsection \<open>A run of the component\<close>

definition eth_constructed :: "eth_esp32 \<Rightarrow> bool" where
  "eth_constructed s \<longleftrightarrow> ec_state s = STOPPED \<and> \<not> ec_started s \<and> \<not> ec_connected s \<and>
     \<not> ec_got_ipv4_address s \<and> \<not> ec_disabled s \<and> \<not> ec_failed s \<and> ec_loop_enabled s \<and>
     \<not> ep_initialized s \<and> \<not> ep_phy_assigned s \<and> ep_ipv6_count s = 0 \<and>
     \<not> ep_ipv6_setup_done s \<and> ec_trace s = []"

text \<open>
  The scheduler calls \<open>loop\<close> of a component that has not failed and has its loop enabled. Events
  and the calls of automations come at any time.
\<close>

inductive eth_step :: "eth_build \<Rightarrow> idf \<Rightarrow> eth_esp32 \<Rightarrow> eth_esp32 \<Rightarrow> bool" for b idf where
  pass: "\<not> ec_failed s \<Longrightarrow> ec_loop_enabled s \<Longrightarrow> eth_step b idf s (eth_loop b idf now t0 t1 s)"
| event: "eth_step b idf s (eth_event_handler b e s)"
| got_ip: "eth_step b idf s (got_ip_event_handler b s)"
| got_ip6: "eb_ipv6 b \<Longrightarrow> eth_step b idf s (got_ip6_event_handler b s)"
| enable: "eth_step b idf s (eth_enable b idf s)"
| disable: "eth_step b idf s (eth_disable idf s)"
| down: "eth_step b idf s (fst (powerdown idf s))"

definition eth_booted :: "eth_build \<Rightarrow> idf \<Rightarrow> eth_esp32 \<Rightarrow> bool" where
  "eth_booted b idf s \<longleftrightarrow> (\<exists>s0. eth_constructed s0 \<and> s = eth_setup b idf s0)"

definition eth_reachable :: "eth_build \<Rightarrow> idf \<Rightarrow> eth_esp32 \<Rightarrow> bool" where
  "eth_reachable b idf s \<longleftrightarrow> (\<exists>s1. eth_booted b idf s1 \<and> (eth_step b idf)\<^sup>*\<^sup>* s1 s)"

text \<open>Rules for the checked calls: what holds whatever the SDK answers.\<close>

lemma checked_cases:
  "checked idf c k s = mark_failed (emit (Call c) s) \<or>
   checked idf c k s = k (snd (idf (length (ec_trace s)) c)) (emit (Call c) s)"
  by (cases "idf (length (ec_trace s)) c")
    (simp add: checked_def esp_call_def esphl_error_check_def)

lemma checked_rule:
  "P (mark_failed (emit (Call c) s)) \<Longrightarrow> (\<And>v. P (k v (emit (Call c) s))) \<Longrightarrow> P (checked idf c k s)"
  using checked_cases [of idf c k s] by auto

text \<open>
  A \<^emph>\<open>calm\<close> operation makes calls and may mark the component failed or initialised, and does not
  touch what the events and the scheduler decide.
\<close>

definition calm :: "eth_esp32 \<Rightarrow> eth_esp32 \<Rightarrow> bool" where
  "calm s s' \<longleftrightarrow> quiet s s' \<and> ec_started s' = ec_started s \<and> ec_connected s' = ec_connected s \<and>
     ec_loop_enabled s' = ec_loop_enabled s \<and> ec_disabled s' = ec_disabled s \<and>
     (ec_failed s \<longrightarrow> ec_failed s') \<and> (ep_initialized s \<longrightarrow> ep_initialized s')"

lemma calm_refl [simp]: "calm s s"
  by (simp add: calm_def)

lemma calm_trans: "calm s s' \<Longrightarrow> calm s' s'' \<Longrightarrow> calm s s''"
  unfolding calm_def by (elim conjE) (intro conjI, erule (1) quiet_trans, simp_all)

lemma calm_emit [simp]: "calm s (emit (Call c) s)" "calm s (emit NotifyIpListeners s)"
  by (simp_all add: calm_def) (simp_all add: emit_def)

lemma calm_fields [simp]:
  "calm s x \<Longrightarrow> calm s (mark_failed x)" "calm s x \<Longrightarrow> calm s (x\<lparr>ep_initialized := True\<rparr>)"
  "calm s (x\<lparr>ep_phy_assigned := a\<rparr>) = calm s x" "calm s (x\<lparr>ec_got_ipv4_address := a\<rparr>) = calm s x"
  "calm s (x\<lparr>ep_ipv6_count := c\<rparr>) = calm s x" "calm s (x\<lparr>ep_ipv6_setup_done := a\<rparr>) = calm s x"
  "calm s (x\<lparr>ec_connect_begin := t\<rparr>) = calm s x" "calm s (x\<lparr>ec_warning := a\<rparr>) = calm s x"
  by (simp_all add: calm_def quiet_def mark_failed_def)

lemma calm_call: "calm (emit (Call c) s) x \<Longrightarrow> calm s x"
  by (rule calm_trans [OF calm_emit(1)])

lemma calm_checked: "(\<And>v x. calm x (k v x)) \<Longrightarrow> calm s (checked idf c k s)"
  by (rule checked_rule) (auto intro: calm_call)

lemma calm_write_phy_register: "calm s (write_phy_register idf r s)"
  by (auto simp: write_phy_register_def Let_def intro!: calm_checked)

lemma calm_fold_phy_registers: "calm s (fold (write_phy_register idf) rs s)"
  by (induction rs arbitrary: s) (auto intro: calm_trans calm_write_phy_register)

lemma calm_ksz8081: "calm s (ksz8081_set_clock_reference idf s)"
  by (auto simp: ksz8081_set_clock_reference_def intro!: calm_checked)

lemma calm_yt8531: "calm s (yt8531_phy_init idf s)"
  by (auto simp: yt8531_phy_init_def intro!: calm_checked)

lemma calm_attach: "calm s (attach_driver b idf s)"
  by (auto simp: attach_driver_def Let_def intro!: calm_checked)

lemma calm_then: "calm s x \<Longrightarrow> (\<And>y. calm y (k y)) \<Longrightarrow> calm s (k x)"
  by (blast intro: calm_trans)

lemma calm_emit_to [simp]: "calm s (emit (Call c) x)" if "calm s x"
  using that by (rule calm_trans) simp

lemma calm_configure_phy:
  assumes k: "\<And>x. calm x (k x)"
  shows "calm s (configure_phy idf k s)"
proof -
  let ?a = "if ec_type s = ETHERNET_TYPE_KSZ8081RNA \<and> ep_clk_out s
    then ksz8081_set_clock_reference idf s else s"
  let ?c = "fold (write_phy_register idf) (ep_phy_registers ?a) ?a"
  let ?rest = "\<lambda>s. if ec_type s = ETHERNET_TYPE_GENERIC then checked idf SetAutonego (\<lambda>_. k) s
      else if ec_type s = ETHERNET_TYPE_YT8531 then
        (let s = yt8531_phy_init idf s in if ec_failed s then s else k s)
      else k s"
  have "calm s ?a" by (simp add: calm_ksz8081)
  then have c: "calm s ?c" by (rule calm_trans) (rule calm_fold_phy_registers)
  have "calm x (?rest x)" for x
    by (simp add: Let_def calm_yt8531 calm_checked k calm_then [OF calm_yt8531 k])
  with c have "calm s (?rest ?c)" by (rule calm_then)
  then show ?thesis by (simp only: configure_phy_def Let_def)
qed

lemma calm_install: "calm s (install_driver b idf s)"
proof -
  let ?s = "emit (Call (NewMacPhy (ec_type s))) (s\<lparr>ep_phy_assigned := True\<rparr>)"
  have "calm x (if eb_spi b then attach_driver b idf x else configure_phy idf (attach_driver b idf) x)" for x
    by (simp add: calm_attach calm_configure_phy)
  from calm_checked [OF this]
  have "calm s (checked idf DriverInstall (\<lambda>_ s. if eb_spi b then attach_driver b idf s
      else configure_phy idf (attach_driver b idf) s) ?s)"
    by (rule calm_trans [rotated]) simp
  then show ?thesis by (simp add: install_driver_def)
qed

lemma calm_lazy_init: "calm s (ethernet_lazy_init b idf s)"
  by (simp add: ethernet_lazy_init_def calm_checked calm_install)

lemma calm_query: "calm s (fst (query idf c d s))"
  by (simp add: query_def esp_call_def split: prod.split)

lemma calm_query_mac: "calm s (query_mac idf s)"
  by (simp add: query_mac_def calm_checked)

lemma calm_dump: "calm s (dump_connect_params idf s)"
  using calm_trans [OF calm_query calm_trans [OF calm_query_mac calm_query]]
  by (simp add: dump_connect_params_def get_link_speed_def get_duplex_mode_def)

lemma calm_create_ip6:
  assumes "\<And>x. calm x (k x)"
  shows "calm s (create_ip6_linklocal b idf k s)"
  using calm_trans [OF calm_emit(1) assms] assms
  by (simp add: create_ip6_linklocal_def esp_call_def split: prod.split)

lemma calm_configure_address:
  assumes k: "\<And>x. calm x (k x)"
  shows "calm s (configure_address idf k s)"
proof -
  have d: "calm x (set_dns i a x)" for i a x by (simp add: set_dns_def)
  show ?thesis
    using calm_then [OF calm_trans [OF d d] k] calm_trans [OF calm_emit(1) k]
    by (simp add: configure_address_def esphl_error_check_def esp_call_def split: prod.split option.split)
qed

lemma calm_restart_dhcp:
  assumes k: "\<And>x. calm x (k x)"
  shows "calm s (restart_dhcp b idf k s)"
proof -
  let ?set = "\<lambda>s. checked idf (ip_info_call s) (\<lambda>_. configure_address idf (create_ip6_linklocal b idf k)) s"
  have set: "calm x (?set x)" for x
    by (intro calm_checked calm_configure_address calm_create_ip6 k)
  have "calm x (let (s, err, _) = esp_call idf DhcpcStop x in
       if err \<noteq> ESP_ERR_ESP_NETIF_DHCP_ALREADY_STOPPED then esphl_error_check err ?set s else ?set s)" for x
    using calm_trans [OF calm_emit(1) set]
    by (simp add: esphl_error_check_def esp_call_def split: prod.split)
  then show ?thesis
    unfolding restart_dhcp_def Let_def by (intro calm_checked)
qed

lemma calm_start_connect: "calm s (start_connect b idf t0 t1 s)"
proof -
  have "calm x (restart_dhcp b idf (\<lambda>s. s\<lparr>ec_connect_begin := t1, ec_warning := True\<rparr>) x)" for x
    by (intro calm_restart_dhcp) simp
  from calm_then [OF _ this] show ?thesis
    unfolding start_connect_def Let_def by (rule calm_then) simp_all
qed

lemma calm_finish_connect: "calm s (finish_connect b s)"
  by (simp add: finish_connect_def)

subsection \<open>Honest steps\<close>

lemma eth_loop_honest: "honest s (eth_loop b idf now t0 t1 s)"
proof -
  have q: "calm x y \<Longrightarrow> quiet x y" for x y by (simp add: calm_def)
  have d: "quiet x (disable_loop y) = quiet x y" for x y by (simp add: disable_loop_def quiet_def)
  show ?thesis
    unfolding eth_loop_def
    by (rule link_switch_honest) (simp_all add: d q calm_start_connect calm_dump calm_finish_connect)
qed

lemma eth_enable_cases:
  "eth_enable b idf s = s \<or>
   (ec_disabled s \<and> calm s (eth_enable b idf s)) \<or>
   (\<exists>x. calm s x \<and> ep_initialized x \<and> eth_enable b idf s = enable_loop (x\<lparr>ec_disabled := False\<rparr>))"
proof -
  let ?i = "ethernet_lazy_init b idf s"
  let ?x = "emit (Call EthStart) ?i"
  have x: "calm s ?x" by (simp add: calm_lazy_init)
  consider "\<not> ec_disabled s" | "ec_disabled s" "\<not> ep_initialized ?i" | "ec_disabled s" "ep_initialized ?i"
    by blast
  then show ?thesis
  proof cases
    case 3
    have "ep_initialized ?x" using 3 by (simp add: emit_def)
    moreover have "eth_enable b idf s = ?x \<or> eth_enable b idf s = enable_loop (?x\<lparr>ec_disabled := False\<rparr>)"
      using 3 by (simp add: eth_enable_def Let_def esp_call_def split: prod.split)
    ultimately show ?thesis using x 3 by metis
  qed (simp_all add: eth_enable_def calm_lazy_init)
qed

lemma quiet_loop_fields [simp]:
  "quiet s (enable_loop x) = quiet s x" "quiet s (x\<lparr>ec_disabled := a\<rparr>) = quiet s x"
  "quiet s (x\<lparr>ec_started := a\<rparr>) = quiet s x" "quiet s (x\<lparr>ec_connected := a\<rparr>) = quiet s x"
  "quiet s (x\<lparr>ec_got_ipv4_address := a\<rparr>) = quiet s x" "quiet s (x\<lparr>ep_ipv6_count := c\<rparr>) = quiet s x"
  by (simp_all add: quiet_def enable_loop_def)

lemma quiet_enable: "quiet s (eth_enable b idf s)"
  using eth_enable_cases [of b idf s] by (auto simp: calm_def)

lemma quiet_disable: "quiet s (eth_disable idf s)"
  by (simp add: eth_disable_def esp_call_def split: prod.split)

lemma quiet_emit_to [simp]: "quiet s x \<Longrightarrow> quiet s (emit (Call c) x)" "quiet s x \<Longrightarrow> quiet s (emit NotifyIpListeners x)"
  by (erule quiet_trans, simp)+

lemma quiet_powerdown: "quiet s (fst (powerdown idf s))"
  by (simp add: powerdown_def esp_call_def split: prod.split)

lemma quiet_notify [simp]: "quiet s x \<Longrightarrow> quiet s (notify_ip_state_listeners b x)"
  by (simp add: notify_ip_state_listeners_def)

lemma quiet_events:
  "quiet s (eth_event_handler b e s)" "quiet s (got_ip_event_handler b s)"
  "quiet s (got_ip6_event_handler b s)"
  by (simp_all add: eth_event_handler_def got_ip_event_handler_def got_ip6_event_handler_def Let_def
      split: eth_event.split)

lemma calm_setup: "\<exists>x. calm s x \<and> (eth_setup b idf s = x \<or> eth_setup b idf s = x\<lparr>ec_disabled := True\<rparr>)"
proof (cases "ec_enable_on_boot s")
  case True
  let ?rest = "\<lambda>x. if \<not> ep_initialized x then x else checked idf EthStart (\<lambda>_ s. s) x"
  have "calm x (?rest x)" for x
    by (simp add: calm_checked)
  then have "calm s (?rest (ethernet_lazy_init b idf s))"
    by (rule calm_then [OF calm_lazy_init])
  with True show ?thesis by (auto simp: eth_setup_def Let_def)
next
  case False
  then show ?thesis by (intro exI [of _ s]) (simp add: eth_setup_def)
qed

lemma eth_step_honest: "eth_step b idf s s' \<Longrightarrow> honest s s'"
  by (induction rule: eth_step.induct)
    (simp_all add: eth_loop_honest quiet_honest quiet_events quiet_enable quiet_disable quiet_powerdown)

lemma eth_booted_trace: "eth_booted b idf s \<Longrightarrow> trigger_run False (ec_trace s) = Some (is_connected s)"
proof -
  assume "eth_booted b idf s"
  then obtain s0 where s0: "eth_constructed s0" "s = eth_setup b idf s0"
    by (auto simp: eth_booted_def)
  with calm_setup [of s0 b idf] have "quiet s0 s" by (auto simp: calm_def)
  with s0(1) show ?thesis
    by (auto simp: eth_constructed_def quiet_def is_connected_def trigger_run_silent)
qed

interpretation eth: link_component "eth_booted b idf" "eth_step b idf" "\<lambda>s. s" for b idf
  by unfold_locales (auto intro: eth_booted_trace eth_step_honest)

end
