(* ===== verification/EthRuns.thy ===== *)
theory EthRuns
  imports EthEsp32
begin

text \<open>
  What runs of the ESP-IDF Ethernet component guarantee: the triggers alternate, a loop that has
  put itself to sleep has nothing left to do, a lost address is recovered; and two situations in
  which the reported state is not what the interface has.
\<close>

subsection \<open>The driver is up or the component is out of service\<close>

lemma checked_outcome:
  "(\<And>v x. ep_initialized (k v x) \<or> ec_failed (k v x)) \<Longrightarrow>
   ep_initialized (checked idf c k s) \<or> ec_failed (checked idf c k s)"
  by (rule checked_rule) (simp_all add: mark_failed_def)

lemma attach_outcome: "ep_initialized (attach_driver b idf s) \<or> ec_failed (attach_driver b idf s)"
  by (simp add: attach_driver_def Let_def checked_outcome)

lemma configure_outcome:
  "(\<And>x. ep_initialized (k x) \<or> ec_failed (k x)) \<Longrightarrow>
   ep_initialized (configure_phy idf k s) \<or> ec_failed (configure_phy idf k s)"
  by (simp add: configure_phy_def Let_def checked_outcome)

lemma install_outcome: "ep_initialized (install_driver b idf s) \<or> ec_failed (install_driver b idf s)"
proof -
  have k: "ep_initialized x' \<or> ec_failed x'"
    if "x' = (if eb_spi b then attach_driver b idf x else configure_phy idf (attach_driver b idf) x)" for x x'
    using that by (simp add: attach_outcome configure_outcome)
  show ?thesis
    unfolding install_driver_def by (simp add: mark_failed_def checked_outcome k)
qed

lemma lazy_init_outcome: "ep_initialized (ethernet_lazy_init b idf s) \<or> ec_failed (ethernet_lazy_init b idf s)"
  by (simp add: ethernet_lazy_init_def checked_outcome install_outcome)

definition up_or_out :: "eth_esp32 \<Rightarrow> bool" where
  "up_or_out s \<longleftrightarrow> ep_initialized s \<or> ec_failed s \<or> ec_disabled s"

text \<open>
  A loop that sleeps has reached a stable connection, or the component was told to power down.
\<close>

definition rests_safely :: "eth_esp32 \<Rightarrow> bool" where
  "rests_safely s \<longleftrightarrow> ec_loop_enabled s \<or> Call PhyPowerOff \<in> set (ec_trace s) \<or>
     (ec_state s = CONNECTED \<and> ec_started s \<and> ec_connected s)"

lemma calm_up: "calm s s' \<Longrightarrow> up_or_out s \<Longrightarrow> up_or_out s'"
  by (auto simp: calm_def up_or_out_def)

lemma calm_rests: "calm s s' \<Longrightarrow> rests_safely s \<Longrightarrow> rests_safely s'"
  by (auto simp: calm_def quiet_def rests_safely_def)

lemma loop_enabled_calm: "calm s s' \<Longrightarrow> ec_loop_enabled s' = ec_loop_enabled s"
  by (simp add: calm_def)

lemma eth_loop_up: "up_or_out s \<Longrightarrow> up_or_out (eth_loop b idf now t0 t1 s)"
proof -
  have fields: "up_or_out (emit x s) = up_or_out s" "up_or_out (s\<lparr>ec_state := st\<rparr>) = up_or_out s"
      "up_or_out (s\<lparr>ec_warning := w\<rparr>) = up_or_out s" "up_or_out (disable_loop s) = up_or_out s" for x s st w
    by (simp_all add: up_or_out_def emit_def disable_loop_def)
  show "up_or_out s \<Longrightarrow> up_or_out (eth_loop b idf now t0 t1 s)"
    by (simp add: eth_loop_def link_switch_def fields calm_up [OF calm_start_connect]
        calm_up [OF calm_dump] calm_up [OF calm_finish_connect] split: eth_state.split)
qed

lemma eth_loop_rests: "ec_loop_enabled s \<Longrightarrow> rests_safely (eth_loop b idf now t0 t1 s)"
proof -
  have e: "ec_loop_enabled (emit x s) = ec_loop_enabled s" for x s by (simp add: emit_def)
  have f: "finish_connect b s = s' \<Longrightarrow> ec_state s' = ec_state s \<and> ec_started s' = ec_started s \<and>
      ec_connected s' = ec_connected s" for s'
    using calm_finish_connect [of s b] by (auto simp: calm_def quiet_def)
  show "ec_loop_enabled s \<Longrightarrow> rests_safely (eth_loop b idf now t0 t1 s)"
    by (simp add: eth_loop_def link_switch_def rests_safely_def e f [OF refl] disable_loop_def
        loop_enabled_calm [OF calm_start_connect] loop_enabled_calm [OF calm_dump] split: eth_state.split)
qed

lemma eth_step_inv:
  "eth_step b idf s s' \<Longrightarrow> up_or_out s \<and> rests_safely s \<Longrightarrow> up_or_out s' \<and> rests_safely s'"
proof (induction rule: eth_step.induct)
  case (pass s now t0 t1)
  then show ?case by (simp add: eth_loop_up eth_loop_rests)
next
  case (event s e)
  then show ?case
    by (cases e) (auto simp: eth_event_handler_def enable_loop_def notify_ip_state_listeners_def emit_def
        up_or_out_def rests_safely_def)
next
  case (got_ip s)
  then show ?case
    by (auto simp: got_ip_event_handler_def enable_loop_def notify_ip_state_listeners_def emit_def Let_def
        up_or_out_def rests_safely_def)
next
  case (got_ip6 s)
  then show ?case
    by (auto simp: got_ip6_event_handler_def enable_loop_def notify_ip_state_listeners_def emit_def Let_def
        up_or_out_def rests_safely_def)
next
  case (enable s)
  have "up_or_out (enable_loop (x\<lparr>ec_disabled := False\<rparr>)) \<and> rests_safely (enable_loop (x\<lparr>ec_disabled := False\<rparr>))"
    if "ep_initialized x" for x
    using that by (simp add: up_or_out_def rests_safely_def enable_loop_def)
  with enable show ?case
    using eth_enable_cases [of b idf s] calm_up calm_rests by metis
next
  case (disable s)
  then show ?case
    by (auto simp: eth_disable_def esp_call_def emit_def up_or_out_def rests_safely_def split: prod.split)
next
  case (down s)
  then show ?case
    by (auto simp: powerdown_def esp_call_def emit_def up_or_out_def rests_safely_def split: prod.split)
qed

lemma eth_booted_inv: "eth_booted b idf s \<Longrightarrow> up_or_out s \<and> rests_safely s"
proof -
  assume "eth_booted b idf s"
  then obtain s0 where s0: "eth_constructed s0" "s = eth_setup b idf s0"
    by (auto simp: eth_booted_def)
  have up: "up_or_out s"
  proof (cases "ec_enable_on_boot s0")
    case True
    have "ep_initialized (checked idf EthStart (\<lambda>_ s. s) x)" if "ep_initialized x" for x
      using that calm_checked [of "\<lambda>_ s. s" x idf EthStart] by (simp add: calm_def)
    with True s0(2) lazy_init_outcome [of b idf s0] show ?thesis
      by (auto simp: eth_setup_def Let_def up_or_out_def)
  qed (simp add: s0(2) eth_setup_def up_or_out_def)
  from calm_setup [of s0 b idf] s0 have "ec_loop_enabled s"
    by (auto simp: calm_def eth_constructed_def)
  with up show ?thesis by (simp add: rests_safely_def)
qed

lemma eth_reachable_inv: "eth_reachable b idf s \<Longrightarrow> up_or_out s \<and> rests_safely s"
proof -
  assume "eth_reachable b idf s"
  then obtain s1 where "(eth_step b idf)\<^sup>*\<^sup>* s1 s" "eth_booted b idf s1"
    by (auto simp: eth_reachable_def)
  then show ?thesis
    by (induction rule: rtranclp_induct) (auto dest: eth_booted_inv eth_step_inv)
qed

subsection \<open>The contract of the triggers and of the sleeping loop\<close>

definition eth_example :: eth_esp32 where
  "eth_example = \<lparr>ec_type = ETHERNET_TYPE_W5500, ec_state = STOPPED, ec_started = False,
     ec_connected = False, ec_got_ipv4_address = False, ec_enable_on_boot = True, ec_disabled = False,
     ec_connect_begin = 0, ec_manual_ip = None, ec_fixed_mac = None, ec_failed = False,
     ec_loop_enabled = True, ec_warning = False, ec_trace = [], ep_initialized = False,
     ep_phy_assigned = False, ep_clk_out = False, ep_phy_registers = [], ep_ipv6_count = 0,
     ep_ipv6_setup_done = False\<rparr>"

definition w5500_build :: eth_build where
  "w5500_build = \<lparr>eb_spi = True, eb_drivers = [ETHERNET_TYPE_W5500], eb_ipv6 = False,
     eb_min_ipv6_addr_count = 0, eb_ip_listeners = False\<rparr>"

definition idf_ok :: idf where
  "idf_ok k c = (ESP_OK, 0)"

text \<open>Boot, link up, an address, and the passes of the loop that see them.\<close>

definition example_up :: eth_esp32 where
  "example_up =
     (let up = eth_event_handler w5500_build ETHERNET_EVENT_START (eth_setup w5500_build idf_ok eth_example);
          asked = eth_loop w5500_build idf_ok 100 101 102 up;
          addressed = got_ip_event_handler w5500_build asked in
      eth_loop w5500_build idf_ok 300 0 0 (eth_loop w5500_build idf_ok 200 0 0 addressed))"

lemmas example_defs = example_up_def eth_example_def w5500_build_def eth_setup_def ethernet_lazy_init_def
  checked_def esp_call_def esphl_error_check_def install_driver_def attach_driver_def idf_ok_def
  emit_def eth_event_handler_def enable_loop_def disable_loop_def eth_loop_def link_switch_def
  start_connect_def restart_dhcp_def ip_info_call_def configure_address_def create_ip6_linklocal_def
  got_ip_event_handler_def enough_ipv6_def notify_ip_state_listeners_def dump_connect_params_def
  get_link_speed_def get_duplex_mode_def query_def query_mac_def finish_connect_def is_connected_def
  CONNECT_TIMEOUT_MS_def

lemma example_up_state:
  "ec_state example_up = CONNECTED" "ec_started example_up" "ec_connected example_up"
  "\<not> ec_loop_enabled example_up" "\<not> ec_failed example_up" "\<not> ec_disabled example_up"
  "ep_initialized example_up"
  by (simp_all add: example_defs Let_def)

lemma example_up_trace:
  "ec_trace example_up =
    map Call [SpiBusInitialize, NewMacPhy ETHERNET_TYPE_W5500, DriverInstall, SetMacAddr None, NetifAttach,
      RegisterEthEvent, RegisterGotIp, EthStart, SetHostname, DhcpcGetStatus, DhcpcStop, SetIpInfo 0 0 0,
      DhcpcStart, GetSpeed, GetMacAddr, GetDuplex] @ [ConnectTrigger]"
  by (simp add: example_defs Let_def)

lemma eth_reachable_step: "eth_reachable b idf s \<Longrightarrow> eth_step b idf s s' \<Longrightarrow> eth_reachable b idf s'"
  by (auto simp: eth_reachable_def intro: rtranclp.rtrancl_into_rtrancl)

lemma eth_reachable_boot: "eth_constructed s \<Longrightarrow> eth_reachable b idf (eth_setup b idf s)"
  by (auto simp: eth_reachable_def eth_booted_def)

lemma eth_constructed_example: "eth_constructed eth_example"
  by (simp add: eth_constructed_def eth_example_def)

lemma example_reachable: "eth_reachable w5500_build idf_ok example_up"
proof -
  let ?b = w5500_build and ?i = idf_ok
  let ?s0 = "eth_setup ?b ?i eth_example"
  let ?s1 = "eth_event_handler ?b ETHERNET_EVENT_START ?s0"
  let ?s2 = "eth_loop ?b ?i 100 101 102 ?s1"
  let ?s3 = "got_ip_event_handler ?b ?s2"
  let ?s4 = "eth_loop ?b ?i 200 0 0 ?s3"
  have "eth_reachable ?b ?i ?s0" by (rule eth_reachable_boot) (rule eth_constructed_example)
  then have "eth_reachable ?b ?i ?s1" by (rule eth_reachable_step) (rule eth_step.event)
  then have "eth_reachable ?b ?i ?s2"
    by (rule eth_reachable_step) (rule eth_step.pass; simp add: example_defs Let_def)
  then have "eth_reachable ?b ?i ?s3" by (rule eth_reachable_step) (rule eth_step.got_ip)
  then have "eth_reachable ?b ?i ?s4"
    by (rule eth_reachable_step) (rule eth_step.pass; simp add: example_defs Let_def)
  then have "eth_reachable ?b ?i (eth_loop ?b ?i 300 0 0 ?s4)"
    by (rule eth_reachable_step) (rule eth_step.pass; simp add: example_defs Let_def)
  then show ?thesis by (simp add: example_up_def Let_def)
qed

text \<open>
  C21: Whatever ESP-IDF answers and in whatever order events, loop passes and calls of enable and
  disable come, the connect and disconnect triggers alternate, the first is a connect, and the last
  fired one tells the state that is_connected reports.\<close>

theorem eth_triggers_alternate:
  "eth_reachable b idf s \<Longrightarrow> trigger_run False (ec_trace s) = Some (is_connected s)"
  using eth.triggers_alternate by (auto simp: eth_reachable_def)

theorem eth_triggers_alternate_witness:
  "trigger_run False (ec_trace example_up) = Some (is_connected example_up) \<and>
   ConnectTrigger \<in> set (ec_trace example_up)"
  using eth_triggers_alternate [OF example_reachable] by (simp add: example_up_trace)

text \<open>
  C22: A component whose loop has been disabled to save cycles has nothing left to notice: it is
  started, connected and in the connected state, unless it was told to power the PHY down. Every
  event that ends this wakes the loop again. It is also initialised, failed or disabled.\<close>

theorem eth_sleeps_only_when_stable:
  "eth_reachable b idf s \<Longrightarrow>
   (ep_initialized s \<or> ec_failed s \<or> ec_disabled s) \<and>
   (ec_loop_enabled s \<or> Call PhyPowerOff \<in> set (ec_trace s) \<or>
     (ec_state s = CONNECTED \<and> ec_started s \<and> ec_connected s))"
  using eth_reachable_inv by (simp add: up_or_out_def rests_safely_def)

theorem eth_sleeps_only_when_stable_witness:
  "\<not> ec_loop_enabled example_up \<and> Call PhyPowerOff \<notin> set (ec_trace example_up) \<and>
   ec_state example_up = CONNECTED \<and> ec_started example_up \<and> ec_connected example_up"
proof -
  have a: "\<not> ec_loop_enabled example_up" by (rule example_up_state)
  have b: "Call PhyPowerOff \<notin> set (ec_trace example_up)" by (simp add: example_up_trace)
  from eth_sleeps_only_when_stable [OF example_reachable] a b show ?thesis by blast
qed

subsection \<open>A connection attempt\<close>

definition new_outputs :: "'a eth_component_scheme \<Rightarrow> 'a eth_component_scheme \<Rightarrow> eth_output list" where
  "new_outputs s s' = drop (length (ec_trace s)) (ec_trace s')"

definition answers_ok :: "idf \<Rightarrow> bool" where
  "answers_ok idf \<longleftrightarrow> (\<forall>k c. fst (idf k c) = ESP_OK)"

lemma checked_ok: "answers_ok idf \<Longrightarrow> checked idf c k s = k (snd (idf (length (ec_trace s)) c)) (emit (Call c) s)"
  by (simp add: checked_def esp_call_def esphl_error_check_def answers_ok_def split: prod.split)
    (metis fst_conv)

lemma esp_call_ok:
  "answers_ok idf \<Longrightarrow> \<exists>v. esp_call idf c s = (emit (Call c) s, ESP_OK, v)"
  by (simp add: esp_call_def answers_ok_def) (metis prod.collapse)

definition dns_calls :: "manual_ip \<Rightarrow> eth_output list" where
  "dns_calls m = (if mi_dns1 m \<noteq> 0 then [Call (SetDns 0 (mi_dns1 m))] else []) @
     (if mi_dns2 m \<noteq> 0 then [Call (SetDns 1 (mi_dns2 m))] else [])"

definition address_calls :: "eth_esp32 \<Rightarrow> eth_output list" where
  "address_calls s = Call (ip_info_call s) #
     (case ec_manual_ip s of None \<Rightarrow> [Call DhcpcStart] | Some m \<Rightarrow> dns_calls m)"

text \<open>What a connection attempt does when every call succeeds.\<close>

definition attempted :: "eth_build \<Rightarrow> u32 \<Rightarrow> eth_esp32 \<Rightarrow> eth_esp32" where
  "attempted b t1 s = s\<lparr>ec_got_ipv4_address := False, ec_connect_begin := t1, ec_warning := True,
     ec_trace := ec_trace s @ [Call SetHostname, Call DhcpcGetStatus, Call DhcpcStop] @ address_calls s @
       (if eb_ipv6 b then [Call CreateIp6Linklocal] else []),
     ep_ipv6_count := (if eb_ipv6 b then 0 else ep_ipv6_count s),
     ep_ipv6_setup_done := (if eb_ipv6 b then False else ep_ipv6_setup_done s)\<rparr>"

lemma start_connect_ok: "answers_ok idf \<Longrightarrow> start_connect b idf t0 t1 s = attempted b t1 s"
proof -
  assume ok: "answers_ok idf"
  have c: "create_ip6_linklocal b idf k x = k (if eb_ipv6 b then emit (Call CreateIp6Linklocal) x else x)" for k x
    using esp_call_ok [OF ok, of CreateIp6Linklocal x] by (auto simp: create_ip6_linklocal_def)
  have a: "configure_address idf k x = k (case ec_manual_ip x of None \<Rightarrow> emit (Call DhcpcStart) x
      | Some m \<Rightarrow> set_dns 1 (mi_dns2 m) (set_dns 0 (mi_dns1 m) x))" for k x
    using esp_call_ok [OF ok, of DhcpcStart x]
    by (auto simp: configure_address_def esphl_error_check_def split: option.split)
  have r: "restart_dhcp b idf k x = checked idf (ip_info_call x)
      (\<lambda>_. configure_address idf (create_ip6_linklocal b idf k)) (emit (Call DhcpcStop) (emit (Call DhcpcGetStatus) x))"
    for k x
    using esp_call_ok [OF ok, of DhcpcStop "emit (Call DhcpcGetStatus) x"]
    by (auto simp: restart_dhcp_def checked_ok [OF ok] esphl_error_check_def ip_info_call_def emit_def)
  show ?thesis
    by (simp add: start_connect_def Let_def r c a checked_ok [OF ok])
      (simp add: attempted_def emit_def address_calls_def dns_calls_def set_dns_def ip_info_call_def
        split: option.split)
qed

lemma query_ok: "answers_ok idf \<Longrightarrow> ec_failed (fst (query idf c d s)) = ec_failed s"
  using esp_call_ok [of idf c s] by (auto simp: query_def emit_def)

lemma dump_ok: "answers_ok idf \<Longrightarrow> ec_failed (dump_connect_params idf s) = ec_failed s"
  by (simp add: dump_connect_params_def get_link_speed_def get_duplex_mode_def query_ok query_mac_def
      checked_ok) (simp add: emit_def query_ok)

definition triggers :: "eth_output list \<Rightarrow> eth_output list" where
  "triggers xs = filter (\<lambda>x. x = ConnectTrigger \<or> x = DisconnectTrigger) xs"

lemma triggers_append [simp]: "triggers (xs @ ys) = triggers xs @ triggers ys"
  by (simp add: triggers_def)

lemma triggers_single [simp]:
  "triggers [DisconnectTrigger] = [DisconnectTrigger]" "triggers [ConnectTrigger] = [ConnectTrigger]"
  "triggers [NotifyIpListeners] = []" "triggers [Call c] = []"
  by (simp_all add: triggers_def)

lemma triggers_silent: "silent xs \<Longrightarrow> triggers xs = []"
  by (auto simp: silent_def triggers_def filter_empty_conv)

lemma silent_address_calls: "silent (address_calls s)"
  by (simp add: address_calls_def dns_calls_def split: option.split)

text \<open>
  What a pass of \<open>loop\<close> does once an address is there: the connection is reported, with whatever
  the queries of the log message left behind.
\<close>

lemma connect_pass:
  assumes "ec_state s = CONNECTING" "ec_started s" "ec_connected s"
  shows "is_connected (eth_loop b idf now t0 t1 s)"
    "ec_got_ipv4_address (eth_loop b idf now t0 t1 s) = ec_got_ipv4_address (dump_connect_params idf (s\<lparr>ec_state := CONNECTED\<rparr>))"
    "triggers (ec_trace (eth_loop b idf now t0 t1 s)) = triggers (ec_trace s) @ [ConnectTrigger]"
    "answers_ok idf \<Longrightarrow> ec_failed (eth_loop b idf now t0 t1 s) = ec_failed s"
proof -
  let ?d = "dump_connect_params idf (s\<lparr>ec_state := CONNECTED\<rparr>)"
  have e: "eth_loop b idf now t0 t1 s = emit ConnectTrigger (?d\<lparr>ec_warning := False\<rparr>)"
    using assms by (simp add: eth_loop_def link_switch_def)
  have q: "quiet (s\<lparr>ec_state := CONNECTED\<rparr>) ?d"
    using calm_dump by (simp add: calm_def)
  then show "is_connected (eth_loop b idf now t0 t1 s)"
    by (simp add: e is_connected_def emit_def quiet_def)
  show "ec_got_ipv4_address (eth_loop b idf now t0 t1 s) = ec_got_ipv4_address ?d"
    by (simp add: e emit_def)
  show "triggers (ec_trace (eth_loop b idf now t0 t1 s)) = triggers (ec_trace s) @ [ConnectTrigger]"
    using q by (auto simp: e emit_def quiet_def triggers_silent)
  show "answers_ok idf \<Longrightarrow> ec_failed (eth_loop b idf now t0 t1 s) = ec_failed s"
    by (simp add: e emit_def dump_ok)
qed

lemma dump_keeps_ipv4: "ec_got_ipv4_address (dump_connect_params idf s) = ec_got_ipv4_address s"
proof -
  have q: "ec_got_ipv4_address (fst (query idf c d x)) = ec_got_ipv4_address x" for c d x
    by (simp add: query_def esp_call_def emit_def mark_failed_def split: prod.split)
  have m: "ec_got_ipv4_address (query_mac idf x) = ec_got_ipv4_address x" for x
    using checked_cases [of idf GetMacAddr "\<lambda>_ s. s" x]
    by (auto simp: query_mac_def emit_def mark_failed_def)
  show ?thesis by (simp add: dump_connect_params_def get_link_speed_def get_duplex_mode_def q m)
qed

subsection \<open>Waiting for the address\<close>

text \<open>
  What may happen while the component waits for a connection: passes of the loop, scheduled as for every
  component, with or without a new attempt; events of the link other than the stop of the driver; addresses.
\<close>

inductive eth_wait :: "eth_build \<Rightarrow> idf \<Rightarrow> eth_esp32 \<Rightarrow> eth_esp32 \<Rightarrow> bool" for b idf where
  retry: "\<not> ec_failed s \<Longrightarrow> ec_loop_enabled s \<Longrightarrow> \<not> ec_connected s \<Longrightarrow> eth_wait b idf s (eth_loop b idf now t0 t1 s)"
| link: "e \<noteq> ETHERNET_EVENT_STOP \<Longrightarrow> eth_wait b idf s (eth_event_handler b e s)"
| ip: "eth_wait b idf s (got_ip_event_handler b s)"
| ip6: "eb_ipv6 b \<Longrightarrow> eth_wait b idf s (got_ip6_event_handler b s)"

definition recovering :: "eth_esp32 \<Rightarrow> eth_esp32 \<Rightarrow> bool" where
  "recovering s z \<longleftrightarrow> ec_state z = CONNECTING \<and> ec_started z \<and> ec_loop_enabled z \<and>
     triggers (ec_trace z) = triggers (ec_trace s) @ [DisconnectTrigger]"

lemma calm_recovering: "calm z z' \<Longrightarrow> recovering s z \<Longrightarrow> recovering s z'"
  by (auto simp: calm_def quiet_def recovering_def triggers_silent)

lemma notify_fields [simp]:
  "ec_state (notify_ip_state_listeners b z) = ec_state z" "ec_started (notify_ip_state_listeners b z) = ec_started z"
  "ec_loop_enabled (notify_ip_state_listeners b z) = ec_loop_enabled z"
  "ec_connected (notify_ip_state_listeners b z) = ec_connected z" "ec_failed (notify_ip_state_listeners b z) = ec_failed z"
  "ec_got_ipv4_address (notify_ip_state_listeners b z) = ec_got_ipv4_address z"
  "triggers (ec_trace (notify_ip_state_listeners b z)) = triggers (ec_trace z)"
  by (simp_all add: notify_ip_state_listeners_def emit_def)

lemma got_ip_fields:
  "recovering s z \<Longrightarrow> recovering s (got_ip_event_handler b z)" "ec_failed (got_ip_event_handler b z) = ec_failed z"
  "ec_got_ipv4_address (got_ip_event_handler b z)" "ec_connected (got_ip_event_handler b z) = enough_ipv6 b z"
  "recovering s z \<Longrightarrow> recovering s (got_ip6_event_handler b z)" "ec_failed (got_ip6_event_handler b z) = ec_failed z"
  "ec_got_ipv4_address (got_ip6_event_handler b z) = ec_got_ipv4_address z"
  "ec_connected (got_ip6_event_handler b z) =
    (ec_got_ipv4_address z \<and> enough_ipv6 b (z\<lparr>ep_ipv6_count := ep_ipv6_count z + 1\<rparr>))"
  by (simp_all add: got_ip_event_handler_def got_ip6_event_handler_def Let_def enable_loop_def recovering_def enough_ipv6_def)

lemma eth_wait_recovering:
  assumes "eth_wait b idf z z'" "recovering s z"
  shows "recovering s z' \<and> (answers_ok idf \<longrightarrow> ec_failed z' = ec_failed z)"
  using assms
proof (induction rule: eth_wait.induct)
  case (retry z now t0 t1)
  then have "eth_loop b idf now t0 t1 z = start_connect b idf t0 t1 z \<or> eth_loop b idf now t0 t1 z = z"
    by (simp add: recovering_def eth_loop_def link_switch_def)
  moreover have "answers_ok idf \<Longrightarrow> ec_failed (start_connect b idf t0 t1 z) = ec_failed z"
    by (simp add: start_connect_ok attempted_def)
  ultimately show ?case using calm_recovering [OF calm_start_connect retry.prems] retry.prems by metis
next
  case (link e z)
  then show ?case by (cases e) (auto simp: eth_event_handler_def enable_loop_def recovering_def)
qed (simp_all add: got_ip_fields)

lemma wait_recovering:
  assumes "(eth_wait b idf)\<^sup>*\<^sup>* y z" "recovering s y"
  shows "recovering s z \<and> (answers_ok idf \<longrightarrow> ec_failed z = ec_failed y)"
  using assms by (induction rule: rtranclp_induct) (auto dest: eth_wait_recovering)

lemma loss_reported:
  assumes "ec_state s = CONNECTED" "ec_started s" "x = eth_event_handler b ETHERNET_EVENT_DISCONNECTED s"
    and "y = eth_loop b idf now t0 t1 x"
  shows "ec_loop_enabled x \<and> recovering s y"
    "answers_ok idf \<Longrightarrow> ec_failed y = ec_failed s \<and> \<not> ec_got_ipv4_address y \<and>
      (\<exists>pre post. new_outputs s y = pre @ address_calls s @ post)"
proof -
  let ?x = "x\<lparr>ec_state := CONNECTING\<rparr>"
  have y: "y = emit DisconnectTrigger (start_connect b idf t0 t1 ?x)"
    using assms(1-3) by (simp add: assms(4) eth_loop_def link_switch_def eth_event_handler_def enable_loop_def)
  have c: "calm ?x (start_connect b idf t0 t1 ?x)" by (rule calm_start_connect)
  have x: "ec_started x" "ec_loop_enabled x" "triggers (ec_trace x) = triggers (ec_trace s)" "ec_failed x = ec_failed s"
    "ec_trace x = ec_trace s" "address_calls ?x = address_calls s"
    using assms(2) by (simp_all add: assms(3) eth_event_handler_def enable_loop_def address_calls_def ip_info_call_def)
  from c x show "ec_loop_enabled x \<and> recovering s y"
    by (auto simp: y calm_def quiet_def emit_def recovering_def triggers_silent)
  assume ok: "answers_ok idf"
  have "new_outputs s y = [Call SetHostname, Call DhcpcGetStatus, Call DhcpcStop] @ address_calls s @
      ((if eb_ipv6 b then [Call CreateIp6Linklocal] else []) @ [DisconnectTrigger])"
    by (simp add: y start_connect_ok [OF ok] new_outputs_def emit_def attempted_def x)
  then have "\<exists>pre post. new_outputs s y = pre @ address_calls s @ post" by blast
  then show "ec_failed y = ec_failed s \<and> \<not> ec_got_ipv4_address y \<and>
      (\<exists>pre post. new_outputs s y = pre @ address_calls s @ post)"
    by (simp add: y start_connect_ok [OF ok] emit_def attempted_def x)
qed

text \<open>
  C23: A lost link is recovered, unless an ESP-IDF call fails. From the connected state, a disconnect event
  wakes the loop, and the next pass reports the loss and starts an attempt. Then the component may wait as
  long as it takes: through any number of passes, new attempts after the time-out, link events and addresses
  the loop stays awake. When the IPv4 address is there, and as many IPv6 addresses as are
  configured, then the next pass is scheduled, if the component has not failed, and
  reports the connection: one disconnect and one connect trigger have fired, in this order. With no failing call
  the old address is withdrawn, a new one is asked for (or the static one is set again), and the component
  has not failed; after a failing one it may have, and then it is never scheduled again.\<close>

theorem eth_reconnects:
  assumes up: "ec_state s = CONNECTED" "ec_started s" "\<not> ec_failed s"
    and lost: "x = eth_event_handler b ETHERNET_EVENT_DISCONNECTED s"
    and reported: "y = eth_loop b idf now t0 t1 x"
    and waiting: "(eth_wait b idf)\<^sup>*\<^sup>* y z"
    and address: "z' = got_ip_event_handler b z \<and> enough_ipv6 b z \<or>
      eb_ipv6 b \<and> z' = got_ip6_event_handler b z \<and> ec_got_ipv4_address z \<and>
        enough_ipv6 b (z\<lparr>ep_ipv6_count := ep_ipv6_count z + 1\<rparr>)"
    and found: "u = eth_loop b idf now' t2 t3 z'"
  shows "eth_step b idf x y \<and> \<not> is_connected y \<and> \<not> is_connected z \<and> ec_loop_enabled z \<and>
    (ec_failed z \<or> eth_step b idf z' u) \<and>
    is_connected u \<and> ec_got_ipv4_address u \<and>
    triggers (ec_trace u) = triggers (ec_trace s) @ [DisconnectTrigger, ConnectTrigger] \<and>
    (answers_ok idf \<longrightarrow> \<not> ec_failed u \<and> \<not> ec_got_ipv4_address y \<and>
      (\<exists>pre post. new_outputs s y = pre @ address_calls s @ post))"
proof -
  note l = loss_reported [OF up(1,2) lost reported]
  note z = wait_recovering [OF waiting l(1) [THEN conjunct2]]
  have z': "recovering s z'" "ec_connected z'" "ec_got_ipv4_address z'" "ec_failed z' = ec_failed z"
    using address z by (auto simp: got_ip_fields)
  then have r: "ec_state z' = CONNECTING" "ec_started z'" "ec_loop_enabled z'"
    "triggers (ec_trace z') = triggers (ec_trace s) @ [DisconnectTrigger]" by (simp_all add: recovering_def)
  note p = connect_pass [OF r(1,2) z'(2), where b = b and idf = idf and now = now' and ?t0.0 = t2 and ?t1.0 = t3,
      folded found]
  have "\<not> ec_failed x" using up(3) by (simp add: lost eth_event_handler_def enable_loop_def)
  then have "eth_step b idf x y" using l(1) unfolding reported by (intro eth_step.pass) simp_all
  moreover have "ec_failed z \<or> eth_step b idf z' u"
    using z'(4) r(3) unfolding found by (auto intro: eth_step.pass)
  moreover have "\<not> is_connected y" "\<not> is_connected z" "ec_loop_enabled z"
    using l(1) z by (simp_all add: recovering_def is_connected_def)
  ultimately show ?thesis
    using p r(4) z l(2) up(3) z'(3,4) by (simp add: dump_keeps_ipv4)
qed

text \<open>The time-out passes once before the address comes.\<close>

theorem eth_reconnects_witness:
  "let y = eth_loop w5500_build idf_ok 500 501 502 (eth_event_handler w5500_build ETHERNET_EVENT_DISCONNECTED example_up);
       z = eth_loop w5500_build idf_ok 16000 16001 16002 y in
   \<not> is_connected z \<and> is_connected (eth_loop w5500_build idf_ok 16900 0 0 (got_ip_event_handler w5500_build z)) \<and>
   \<not> ec_failed (eth_loop w5500_build idf_ok 16900 0 0 (got_ip_event_handler w5500_build z))"
proof -
  define x where "x = eth_event_handler w5500_build ETHERNET_EVENT_DISCONNECTED example_up"
  define y where "y = eth_loop w5500_build idf_ok 500 501 502 x"
  define z where "z = eth_loop w5500_build idf_ok 16000 16001 16002 y"
  have ok: "answers_ok idf_ok" by (simp add: answers_ok_def idf_ok_def)
  note l = loss_reported [OF example_up_state(1,2) x_def y_def]
  have "\<not> ec_failed y" using l(2) [OF ok] example_up_state(5) by simp
  moreover have "ec_connected y = ec_connected x"
    using calm_start_connect [of "x\<lparr>ec_state := CONNECTING\<rparr>" w5500_build idf_ok 501 502] example_up_state(1,2)
    by (simp add: y_def x_def eth_loop_def link_switch_def eth_event_handler_def enable_loop_def emit_def calm_def)
  then have "\<not> ec_connected y" by (simp add: x_def eth_event_handler_def enable_loop_def)
  ultimately have w: "(eth_wait w5500_build idf_ok)\<^sup>*\<^sup>* y z"
    using l(1) unfolding z_def by (intro r_into_rtranclp eth_wait.retry) (simp_all add: recovering_def)
  have a: "got_ip_event_handler w5500_build z = got_ip_event_handler w5500_build z \<and> enough_ipv6 w5500_build z \<or>
      eb_ipv6 w5500_build \<and> got_ip_event_handler w5500_build z = got_ip6_event_handler w5500_build z \<and>
      ec_got_ipv4_address z \<and> enough_ipv6 w5500_build (z\<lparr>ep_ipv6_count := ep_ipv6_count z + 1\<rparr>)"
    by (simp add: enough_ipv6_def w5500_build_def)
  from eth_reconnects [OF example_up_state(1,2,5) x_def y_def w a refl, of 16900 0 0] ok show ?thesis
    unfolding Let_def x_def [symmetric] y_def [symmetric] z_def [symmetric] by blast
qed

text \<open>
  An address that arrives before the first pass of loop is lost, and nobody is told. The first
  pass withdraws the address and asks for a new one, but leaves connected_ set, so the second pass
  fires the connect trigger and reports a connection, although no address has been received since.\<close>

theorem early_address_reported_connected:
  assumes ok: "answers_ok idf"
    and s: "ec_state s = STOPPED" "ec_started s" "ec_connected s" "ec_manual_ip s = None"
    and first: "x = eth_loop b idf now t0 t1 s" and second: "y = eth_loop b idf now' t2 t3 x"
  shows "is_connected y \<and> \<not> ec_got_ipv4_address y \<and>
    triggers (ec_trace y) = triggers (ec_trace s) @ [ConnectTrigger] \<and>
    (\<exists>pre post. ec_trace x = ec_trace s @ pre @ [Call (SetIpInfo 0 0 0), Call DhcpcStart] @ post)"
proof -
  have x: "x = attempted b t1 (s\<lparr>ec_state := CONNECTING\<rparr>)"
    using s by (simp add: first eth_loop_def link_switch_def start_connect_ok [OF ok])
  have tx: "ec_trace x = ec_trace s @ [Call SetHostname, Call DhcpcGetStatus, Call DhcpcStop] @
      [Call (SetIpInfo 0 0 0), Call DhcpcStart] @ (if eb_ipv6 b then [Call CreateIp6Linklocal] else [])"
    using s by (simp add: x attempted_def address_calls_def ip_info_call_def)
  then have tt: "triggers (ec_trace x) = triggers (ec_trace s)"
    by (simp add: triggers_def)
  have "ec_state x = CONNECTING" "ec_started x" "ec_connected x" "\<not> ec_got_ipv4_address x"
    using s by (simp_all add: x attempted_def)
  moreover have "\<exists>pre post. ec_trace x = ec_trace s @ pre @ [Call (SetIpInfo 0 0 0), Call DhcpcStart] @ post"
    unfolding tx by (metis append.assoc)
  ultimately show ?thesis
    using connect_pass [of x, where b = b and idf = idf and now = now' and ?t0.0 = t2 and ?t1.0 = t3] tt by (simp add: second dump_keeps_ipv4)
qed

text \<open>The situation is reachable: the address beats the loop.\<close>

definition early_address :: eth_esp32 where
  "early_address = got_ip_event_handler w5500_build
     (eth_event_handler w5500_build ETHERNET_EVENT_START (eth_setup w5500_build idf_ok eth_example))"

theorem early_address_reported_connected_witness:
  "eth_reachable w5500_build idf_ok early_address \<and>
   is_connected (eth_loop w5500_build idf_ok 200 0 0 (eth_loop w5500_build idf_ok 100 101 102 early_address)) \<and>
   \<not> ec_got_ipv4_address (eth_loop w5500_build idf_ok 200 0 0 (eth_loop w5500_build idf_ok 100 101 102 early_address))"
proof -
  have r: "eth_reachable w5500_build idf_ok early_address"
    unfolding early_address_def
    by (intro eth_reachable_step [OF _ eth_step.got_ip] eth_reachable_step [OF _ eth_step.event]
        eth_reachable_boot eth_constructed_example)
  have s: "ec_state early_address = STOPPED" "ec_started early_address" "ec_connected early_address"
    "ec_manual_ip early_address = None"
    by (simp_all add: early_address_def example_defs Let_def)
  have ok: "answers_ok idf_ok" by (simp add: answers_ok_def idf_ok_def)
  show ?thesis
    using r early_address_reported_connected [OF ok s refl refl] by blast
qed

text \<open>
  With a minimum number of IPv6 addresses configured, the eight-bit count of IPv6 events wraps:
  the event that makes it zero clears connected_, and the next pass drops the connection, although
  every address is still there.\<close>

theorem ipv6_count_wrap_drops_link:
  assumes ipv6: "eb_min_ipv6_addr_count b > 0" "eb_ipv6 b"
    and s: "ec_state s = CONNECTED" "ec_started s" "ep_ipv6_count s = 255"
    and g: "g = got_ip6_event_handler b s"
  shows "ep_ipv6_count g = 0 \<and> \<not> ec_connected g \<and> ec_got_ipv4_address g = ec_got_ipv4_address s \<and>
    \<not> is_connected (eth_loop b idf now t0 t1 g) \<and>
    last (ec_trace (eth_loop b idf now t0 t1 g)) = DisconnectTrigger"
proof -
  have g': "ep_ipv6_count g = 0" "\<not> ec_connected g" "ec_got_ipv4_address g = ec_got_ipv4_address s"
    "ec_state g = CONNECTED" "ec_started g"
    using s ipv6 by (simp_all add: g got_ip6_event_handler_def Let_def notify_ip_state_listeners_def emit_def
        enable_loop_def enough_ipv6_def)
  moreover have "ec_state (start_connect b idf t0 t1 (g\<lparr>ec_state := CONNECTING\<rparr>)) = CONNECTING"
    using calm_start_connect [of "g\<lparr>ec_state := CONNECTING\<rparr>" b idf t0 t1] by (simp add: calm_def quiet_def)
  ultimately show ?thesis
    by (simp add: eth_loop_def link_switch_def is_connected_def emit_def)
qed

theorem ipv6_count_wrap_drops_link_witness:
  "\<not> ec_connected (got_ip6_event_handler (w5500_build\<lparr>eb_ipv6 := True, eb_min_ipv6_addr_count := 1\<rparr>)
     (example_up\<lparr>ep_ipv6_count := 255, ec_got_ipv4_address := True\<rparr>))"
  using ipv6_count_wrap_drops_link
    [of "w5500_build\<lparr>eb_ipv6 := True, eb_min_ipv6_addr_count := 1\<rparr>"
      "example_up\<lparr>ep_ipv6_count := 255, ec_got_ipv4_address := True\<rparr>", OF _ _ _ _ _ refl]
  by (simp add: example_up_state w5500_build_def)

text \<open>
  While connecting without an address, a pass of loop starts a new attempt exactly when more than
  15 s have gone by since the attempt began, also across the wrap of the millisecond clock.\<close>

theorem connect_timeout_exact:
  assumes s: "ec_state s = CONNECTING" "ec_started s" "\<not> ec_connected s"
    and began: "ec_connect_begin s = of_nat tb" and time: "tb \<le> tn" "tn - tb < 2 ^ 32"
  shows "eth_loop b idf (of_nat tn) t0 t1 s =
    (if tn - tb > 15000 then start_connect b idf t0 t1 s else s)"
proof -
  have d: "(of_nat tn - of_nat tb :: u32) = of_nat (tn - tb)"
    using time by (simp add: of_nat_diff)
  have "(of_nat (tn - tb) :: u32) > 15000 \<longleftrightarrow> tn - tb > 15000"
    using time(2) by (simp add: word_less_nat_alt unat_of_nat)
  then show ?thesis
    using s d by (simp add: eth_loop_def link_switch_def began CONNECT_TIMEOUT_MS_def)
qed

theorem connect_timeout_exact_witness:
  "eth_loop w5500_build idf_ok (of_nat 20000) 0 0 (eth_example\<lparr>ec_state := CONNECTING, ec_started := True\<rparr>) =
   start_connect w5500_build idf_ok 0 0 (eth_example\<lparr>ec_state := CONNECTING, ec_started := True\<rparr>)"
  using connect_timeout_exact [of "eth_example\<lparr>ec_state := CONNECTING, ec_started := True\<rparr>" 0 20000]
  by (simp add: eth_example_def)

end
