(* ===== verification/EthRp2.thy ===== *)
theory EthRp2
  imports EthLink
begin

text \<open>
  \<open>components/ethernet/ethernet_component_rp2.cpp\<close>: the Ethernet component on RP2040, which has no
  events and polls the link. arduino-pico's driver is a parameter: \<open>begin_ok\<close> is what \<open>begin\<close>
  returns, and a poll sees whether the link is up and whether there is an address. The component
  shares its state machine with the ESP-IDF one.
\<close>

definition LINK_CHECK_INTERVAL :: u32 where "LINK_CHECK_INTERVAL = 500"

text \<open>\<open>pe_detects_link\<close> is false for the W5100, whose link state cannot be read.\<close>

record rp2_build =
  pe_detects_link :: bool
  pe_ip_listeners :: bool

record eth_rp2 = eth_component +
  rp_eth :: bool
  rp_last_link_check :: u32

definition rp2_setup :: "bool \<Rightarrow> eth_rp2 \<Rightarrow> eth_rp2" where
  "rp2_setup begin_ok s =
     (if begin_ok then s\<lparr>rp_eth := True\<rparr> else s\<lparr>rp_eth := False, ec_failed := True\<rparr>)"

text \<open>Static DNS servers are handed to lwIP again at every attempt.\<close>

definition rp2_start_connect :: "u32 \<Rightarrow> eth_rp2 \<Rightarrow> eth_rp2" where
  "rp2_start_connect t0 s =
     (let s = s\<lparr>ec_got_ipv4_address := False, ec_connect_begin := t0, ec_warning := True\<rparr>;
          dns = (\<lambda>i addr s. if addr \<noteq> 0 then emit (Call (SetDns i addr)) s else s) in
      case ec_manual_ip s of None \<Rightarrow> s | Some m \<Rightarrow> dns 1 (mi_dns2 m) (dns 0 (mi_dns1 m) s))"

definition rp2_link_up :: "rp2_build \<Rightarrow> bool \<Rightarrow> bool" where
  "rp2_link_up b link_on \<longleftrightarrow> (if pe_detects_link b then link_on else True)"

definition rp2_note_link :: "rp2_build \<Rightarrow> bool \<Rightarrow> bool \<Rightarrow> eth_rp2 \<Rightarrow> eth_rp2" where
  "rp2_note_link b link_up has_ip s =
     (if \<not> link_up then
        (if ec_started s then s\<lparr>ec_started := False, ec_connected := False\<rparr> else s)
      else
        (let s = s\<lparr>ec_started := True\<rparr>;
             was_connected = ec_connected s;
             s = s\<lparr>ec_connected := has_ip\<rparr> in
         if ec_connected s \<and> \<not> was_connected \<and> pe_ip_listeners b then emit NotifyIpListeners s else s))"

definition rp2_poll_due :: "u32 \<Rightarrow> eth_rp2 \<Rightarrow> bool" where
  "rp2_poll_due now s \<longleftrightarrow> rp_eth s \<and> now - rp_last_link_check s \<ge> LINK_CHECK_INTERVAL"

definition rp2_poll :: "rp2_build \<Rightarrow> u32 \<Rightarrow> bool \<Rightarrow> bool \<Rightarrow> eth_rp2 \<Rightarrow> eth_rp2" where
  "rp2_poll b now link_on has_ip s =
     (if rp2_poll_due now s
      then rp2_note_link b (rp2_link_up b link_on) has_ip (s\<lparr>rp_last_link_check := now\<rparr>) else s)"

definition rp2_loop :: "rp2_build \<Rightarrow> u32 \<Rightarrow> bool \<Rightarrow> bool \<Rightarrow> u32 \<Rightarrow> eth_rp2 \<Rightarrow> eth_rp2" where
  "rp2_loop b now link_on has_ip t0 s =
     link_switch (rp2_start_connect t0) (\<lambda>s. s) (\<lambda>s. s) now (rp2_poll b now link_on has_ip s)"

definition rp2_powerdown :: "eth_rp2 \<Rightarrow> eth_rp2" where
  "rp2_powerdown s = s\<lparr>ec_connected := False, ec_started := False\<rparr>"

definition rp2_enable :: "eth_rp2 \<Rightarrow> eth_rp2" where
  "rp2_enable s = (if \<not> ec_disabled s then s else s\<lparr>ec_disabled := False\<rparr>)"

definition rp2_disable :: "eth_rp2 \<Rightarrow> eth_rp2" where
  "rp2_disable s = (if ec_disabled s then s else s\<lparr>ec_disabled := True\<rparr>)"

subsection \<open>A run of the component\<close>

definition rp2_constructed :: "eth_rp2 \<Rightarrow> bool" where
  "rp2_constructed s \<longleftrightarrow> ec_state s = STOPPED \<and> \<not> ec_started s \<and> \<not> ec_connected s \<and>
     \<not> ec_got_ipv4_address s \<and> \<not> ec_disabled s \<and> \<not> ec_failed s \<and> \<not> rp_eth s \<and>
     rp_last_link_check s = 0 \<and> ec_trace s = []"

definition rp2_booted :: "eth_rp2 \<Rightarrow> bool" where
  "rp2_booted s \<longleftrightarrow> (\<exists>s0 begin_ok. rp2_constructed s0 \<and> s = rp2_setup begin_ok s0)"

inductive rp2_step :: "rp2_build \<Rightarrow> eth_rp2 \<Rightarrow> eth_rp2 \<Rightarrow> bool" for b where
  pass: "\<not> ec_failed s \<Longrightarrow> rp2_step b s (rp2_loop b now link_on has_ip t0 s)"
| enable: "rp2_step b s (rp2_enable s)"
| disable: "rp2_step b s (rp2_disable s)"
| down: "rp2_step b s (rp2_powerdown s)"

definition rp2_reachable :: "rp2_build \<Rightarrow> eth_rp2 \<Rightarrow> bool" where
  "rp2_reachable b s \<longleftrightarrow> (\<exists>s1. rp2_booted s1 \<and> (rp2_step b)\<^sup>*\<^sup>* s1 s)"

lemma quiet_rp2_start: "quiet s (rp2_start_connect t0 s)"
  by (rule quietI [where out = "drop (length (ec_trace s)) (ec_trace (rp2_start_connect t0 s))"])
    (simp_all add: rp2_start_connect_def Let_def emit_def split: option.split)

lemma quiet_rp2_poll: "quiet s (rp2_poll b now link_on has_ip s)"
  by (rule quietI [where out = "drop (length (ec_trace s)) (ec_trace (rp2_poll b now link_on has_ip s))"])
    (simp_all add: rp2_poll_def rp2_note_link_def Let_def emit_def)

lemma rp2_step_honest: "rp2_step b s s' \<Longrightarrow> honest s s'"
proof (induction rule: rp2_step.induct)
  case (pass s now link_on has_ip t0)
  have "honest (rp2_poll b now link_on has_ip s) (rp2_loop b now link_on has_ip t0 s)"
    unfolding rp2_loop_def by (rule link_switch_honest) (simp_all add: quiet_rp2_start)
  then show ?case using honest_trans quiet_honest quiet_rp2_poll by blast
qed (auto simp: rp2_enable_def rp2_disable_def rp2_powerdown_def quiet_def intro!: quiet_honest)

lemma rp2_booted_trace: "rp2_booted s \<Longrightarrow> trigger_run False (ec_trace s) = Some (is_connected s)"
  by (auto simp: rp2_booted_def rp2_constructed_def rp2_setup_def is_connected_def)

interpretation rp2: link_component rp2_booted "rp2_step b" "\<lambda>s. s" for b
  by unfold_locales (auto intro: rp2_booted_trace rp2_step_honest)

text \<open>
  Unlike the ESP-IDF component this one has a sound notion of being connected: the flag follows the
  last poll, and is never set while the link is down.
\<close>

definition rp2_inv :: "eth_rp2 \<Rightarrow> bool" where
  "rp2_inv s \<longleftrightarrow> (ec_connected s \<longrightarrow> ec_started s) \<and> (ec_started s \<longrightarrow> rp_eth s)"

lemma rp2_start_fields:
  "ec_connected (rp2_start_connect t0 s) = ec_connected s" "ec_started (rp2_start_connect t0 s) = ec_started s"
  "ec_state (rp2_start_connect t0 s) = ec_state s" "rp_eth (rp2_start_connect t0 s) = rp_eth s"
  by (simp_all add: rp2_start_connect_def Let_def emit_def split: option.split)

lemma rp2_poll_inv: "rp2_inv s \<Longrightarrow> rp2_inv (rp2_poll b now link_on has_ip s)"
  by (auto simp: rp2_inv_def rp2_poll_def rp2_poll_due_def rp2_note_link_def Let_def emit_def)

lemma rp2_step_inv: "rp2_step b s s' \<Longrightarrow> rp2_inv s \<Longrightarrow> rp2_inv s'"
proof (induction rule: rp2_step.induct)
  case (pass s now link_on has_ip t0)
  then have "rp2_inv (rp2_poll b now link_on has_ip s)" by (simp add: rp2_poll_inv)
  then show ?case
    by (cases "ec_state (rp2_poll b now link_on has_ip s)")
      (auto simp: rp2_loop_def link_switch_def rp2_inv_def emit_def rp2_start_fields)
qed (auto simp: rp2_inv_def rp2_enable_def rp2_disable_def rp2_powerdown_def)

lemma rp2_booted_inv: "rp2_booted s \<Longrightarrow> rp2_inv s"
  by (auto simp: rp2_booted_def rp2_constructed_def rp2_setup_def rp2_inv_def split: if_splits)

lemma rp2_reachable_inv: "rp2_reachable b s \<Longrightarrow> rp2_inv s"
proof -
  assume "rp2_reachable b s"
  then obtain s1 where "(rp2_step b)\<^sup>*\<^sup>* s1 s" "rp2_booted s1"
    by (auto simp: rp2_reachable_def)
  then show ?thesis
    by (induction rule: rtranclp_induct) (auto dest: rp2_booted_inv rp2_step_inv)
qed

lemma rp2_reachable_step: "rp2_reachable b s \<Longrightarrow> rp2_step b s s' \<Longrightarrow> rp2_reachable b s'"
  by (auto simp: rp2_reachable_def intro: rtranclp.rtrancl_into_rtrancl)

text \<open>
  C40: The polling component reports what it polls. In every reachable state the triggers have
  alternated and tell the reported state; a pass whose poll finds the link down leaves the component
  stopped, and a pass whose poll finds a link without an address never leaves it connected.\<close>

theorem rp2_reports_what_it_polls:
  assumes r: "rp2_reachable b s" and "\<not> ec_failed s" and due: "rp2_poll_due now s"
    and y: "y = rp2_loop b now link_on has_ip t0 s"
  shows "trigger_run False (ec_trace y) = Some (is_connected y) \<and>
    (\<not> rp2_link_up b link_on \<longrightarrow> ec_state y = STOPPED) \<and>
    (is_connected y \<longrightarrow> rp2_link_up b link_on \<and> has_ip)"
proof -
  have inv: "rp2_inv s" using r by (rule rp2_reachable_inv)
  have "rp2_reachable b y"
    using r assms(2) unfolding y by (blast intro: rp2_reachable_step rp2_step.pass)
  then have "trigger_run False (ec_trace y) = Some (is_connected y)"
    using rp2.triggers_alternate by (auto simp: rp2_reachable_def)
  then show ?thesis
    using inv due
    by (auto simp: y rp2_loop_def link_switch_def rp2_poll_def rp2_note_link_def Let_def emit_def
        rp2_inv_def is_connected_def rp2_start_fields split: eth_state.splits if_splits)
qed

definition rp2_example :: eth_rp2 where
  "rp2_example = \<lparr>ec_type = ETHERNET_TYPE_W5500, ec_state = STOPPED, ec_started = False,
     ec_connected = False, ec_got_ipv4_address = False, ec_enable_on_boot = True, ec_disabled = False,
     ec_connect_begin = 0, ec_manual_ip = None, ec_fixed_mac = None, ec_failed = False,
     ec_loop_enabled = True, ec_warning = False, ec_trace = [], rp_eth = False, rp_last_link_check = 0\<rparr>"

definition rp2_w5500 :: rp2_build where
  "rp2_w5500 = \<lparr>pe_detects_link = True, pe_ip_listeners = False\<rparr>"

theorem rp2_reports_what_it_polls_witness:
  "ec_state (rp2_loop rp2_w5500 600 False False 601 (rp2_setup True rp2_example)) = STOPPED"
proof -
  have "rp2_constructed rp2_example" by (simp add: rp2_constructed_def rp2_example_def)
  then have r: "rp2_reachable rp2_w5500 (rp2_setup True rp2_example)"
    unfolding rp2_reachable_def rp2_booted_def by blast
  show ?thesis
    using rp2_reports_what_it_polls [OF r _ _ refl, of 600 False False 601]
    by (simp add: rp2_setup_def rp2_example_def rp2_poll_due_def LINK_CHECK_INTERVAL_def rp2_w5500_def rp2_link_up_def)
qed

end
