(* ===== verification/HwCapture.thy ===== *)
theory HwCapture
  imports Prelude
begin

text \<open>
  Arming the two hardware captures: \<open>w5500_start_int_capture\<close> of
  \<open>components/ethernet/w5500_custom_spi.cpp\<close> on the interrupt line of the W5500 and
  \<open>start_pps_capture_\<close> of \<open>components/gps_pps_time/gps_pps_time.cpp\<close> on the pulse. The calls into the
  MCPWM driver are listed in order; whether the two that can fail do is an input.
\<close>

datatype capture_call = NewTimer nat | NewChannel int bool bool | RegisterCallback | EnableChannel
  | EnableTimer | StartTimer

text \<open>
  The common part: a timer of the group, a channel on the pin that latches falling or rising edges
  with or without a pull-up, the callback, and the start. The result says whether it was armed.
\<close>

definition arm_capture ::
  "nat \<Rightarrow> int \<Rightarrow> bool \<Rightarrow> bool \<Rightarrow> bool \<Rightarrow> bool \<Rightarrow> capture_call list \<times> bool" where
  "arm_capture grp gpio falling pull_up timer_ok channel_ok =
     (if \<not> timer_ok then ([NewTimer grp], False)
      else if \<not> channel_ok then ([NewTimer grp, NewChannel gpio falling pull_up], False)
      else ([NewTimer grp, NewChannel gpio falling pull_up, RegisterCallback, EnableChannel, EnableTimer,
        StartTimer], True))"

definition w5500_start_int_capture :: "int \<Rightarrow> bool \<Rightarrow> bool \<Rightarrow> capture_call list" where
  "w5500_start_int_capture gpio_num timer_ok channel_ok =
     (if gpio_num < 0 then [] else fst (arm_capture 0 gpio_num True True timer_ok channel_ok))"

text \<open>\<open>pin\<close> is the configured pulse pin, \<open>started\<close> the member that remembers a success.\<close>

definition start_pps_capture :: "int option \<Rightarrow> bool \<Rightarrow> bool \<Rightarrow> bool \<Rightarrow> bool \<times> capture_call list" where
  "start_pps_capture pin timer_ok channel_ok started =
     (case pin of None \<Rightarrow> (started, [])
      | Some gpio \<Rightarrow> if started then (started, [])
          else case arm_capture 1 gpio False False timer_ok channel_ok of (calls, armed) \<Rightarrow> (armed, calls))"

text \<open>
  The callback is registered before the channel may run and the timer starts last; the two
  captures never share a group, so neither can take the other's timer; and once the pulse capture
  runs, further calls do nothing.
\<close>

theorem captures_armed_in_order:
  "\<exists>a b. fst (arm_capture g p f u t c) = a @ b \<and> set b \<subseteq> {EnableChannel, EnableTimer, StartTimer} \<and>
    (b \<noteq> [] \<longleftrightarrow> snd (arm_capture g p f u t c)) \<and>
    (b \<noteq> [] \<longrightarrow> RegisterCallback \<in> set a \<and> last b = StartTimer) \<and> (b = [] \<longrightarrow> RegisterCallback \<notin> set a)"
  by (rule exI [of _ "takeWhile (\<lambda>x. x \<noteq> EnableChannel) (fst (arm_capture g p f u t c))"],
      rule exI [of _ "dropWhile (\<lambda>x. x \<noteq> EnableChannel) (fst (arm_capture g p f u t c))"])
    (auto simp: arm_capture_def)

theorem captures_use_own_group:
  "NewTimer g \<in> set (w5500_start_int_capture gpio t1 c1) \<Longrightarrow>
   NewTimer h \<in> set (snd (start_pps_capture pin t2 c2 started)) \<Longrightarrow> g \<noteq> h"
  by (auto simp: w5500_start_int_capture_def start_pps_capture_def arm_capture_def
      split: option.splits if_splits)

theorem pps_capture_armed_once:
  "fst (start_pps_capture pin t c started) \<Longrightarrow>
   start_pps_capture pin t' c' (fst (start_pps_capture pin t c started)) = (True, [])"
  by (auto simp: start_pps_capture_def split: option.splits)

end
