(* ===== verification/EthConfig.thy ===== *)
theory EthConfig
  imports EthEsp32 HwCapture Printf "HOL-Library.Signed_Division"
begin

text \<open>
  The configuration of the ESP-IDF Ethernet component (\<open>components/ethernet/ethernet_component_esp32.cpp\<close>,
  \<open>automation.h\<close>): the pins the generated code sets, what the SPI bus, the chip's driver and the
  internal MAC are told about them, what \<open>dump_config\<close> logs, and the queries other components ask.
  The default configurations of ESP-IDF, the address texts and the addresses of the network
  interface are arguments.
\<close>

subsection \<open>The component and its pins\<close>

datatype component_setting = Set_type eth_type | Set_manual_ip manual_ip | Set_fixed_mac "u8 list"
  | Set_enable_on_boot bool

fun component_set :: "component_setting \<Rightarrow> 'a eth_component_scheme \<Rightarrow> 'a eth_component_scheme" where
  "component_set (Set_type t) s = s\<lparr>ec_type := t\<rparr>"
| "component_set (Set_manual_ip m) s = s\<lparr>ec_manual_ip := Some m\<rparr>"
| "component_set (Set_fixed_mac m) s = s\<lparr>ec_fixed_mac := Some m\<rparr>"
| "component_set (Set_enable_on_boot x) s = s\<lparr>ec_enable_on_boot := x\<rparr>"

datatype spi_host = SPI2_HOST | SPI3_HOST

record spi_pins =
  sp_clk_pin :: u8
  sp_miso_pin :: u8
  sp_mosi_pin :: u8
  sp_cs_pin :: u8
  sp_interrupt_pin :: int
  sp_reset_pin :: int
  sp_phy_addr_spi :: int
  sp_clock_speed :: int
  sp_interface :: spi_host
  sp_polling_interval :: u32

text \<open>The members with an initialiser; the others hold what they hold until they are set.\<close>

definition spi_pins_init :: "spi_pins \<Rightarrow> spi_pins" where
  "spi_pins_init p = p\<lparr>sp_interrupt_pin := -1, sp_reset_pin := -1, sp_phy_addr_spi := -1,
     sp_interface := SPI2_HOST, sp_polling_interval := 0\<rparr>"

datatype spi_setting = Set_clk_pin u8 | Set_miso_pin u8 | Set_mosi_pin u8 | Set_cs_pin u8
  | Set_interrupt_pin u8 | Set_reset_pin u8 | Set_clock_speed int | Set_interface spi_host
  | Set_polling_interval u32

fun spi_set :: "spi_setting \<Rightarrow> spi_pins \<Rightarrow> spi_pins" where
  "spi_set (Set_clk_pin v) p = p\<lparr>sp_clk_pin := v\<rparr>"
| "spi_set (Set_miso_pin v) p = p\<lparr>sp_miso_pin := v\<rparr>"
| "spi_set (Set_mosi_pin v) p = p\<lparr>sp_mosi_pin := v\<rparr>"
| "spi_set (Set_cs_pin v) p = p\<lparr>sp_cs_pin := v\<rparr>"
| "spi_set (Set_interrupt_pin v) p = p\<lparr>sp_interrupt_pin := uint v\<rparr>"
| "spi_set (Set_reset_pin v) p = p\<lparr>sp_reset_pin := uint v\<rparr>"
| "spi_set (Set_clock_speed v) p = p\<lparr>sp_clock_speed := v\<rparr>"
| "spi_set (Set_interface v) p = p\<lparr>sp_interface := v\<rparr>"
| "spi_set (Set_polling_interval v) p = p\<lparr>sp_polling_interval := v\<rparr>"

datatype clk_mode = EMAC_CLK_DEFAULT | EMAC_CLK_EXT_IN | EMAC_CLK_OUT

record emac_pins =
  em_power_pin :: int
  em_clk_mode :: clk_mode
  em_phy_registers :: "phy_register list"
  em_clk_pin :: u8
  em_phy_addr :: u8
  em_mdc_pin :: u8
  em_mdio_pin :: u8

definition emac_pins_init :: emac_pins where
  "emac_pins_init = \<lparr>em_power_pin = -1, em_clk_mode = EMAC_CLK_EXT_IN, em_phy_registers = [],
     em_clk_pin = 0, em_phy_addr = 0, em_mdc_pin = 23, em_mdio_pin = 18\<rparr>"

datatype emac_setting = Set_phy_addr u8 | Set_power_pin int | Set_mdc_pin u8 | Set_mdio_pin u8
  | Set_emac_clk_pin u8 | Set_clk_mode clk_mode | Add_phy_register phy_register

fun emac_set :: "emac_setting \<Rightarrow> emac_pins \<Rightarrow> emac_pins" where
  "emac_set (Set_phy_addr v) p = p\<lparr>em_phy_addr := v\<rparr>"
| "emac_set (Set_power_pin v) p = p\<lparr>em_power_pin := v\<rparr>"
| "emac_set (Set_mdc_pin v) p = p\<lparr>em_mdc_pin := v\<rparr>"
| "emac_set (Set_mdio_pin v) p = p\<lparr>em_mdio_pin := v\<rparr>"
| "emac_set (Set_emac_clk_pin v) p = p\<lparr>em_clk_pin := v\<rparr>"
| "emac_set (Set_clk_mode v) p = p\<lparr>em_clk_mode := v\<rparr>"
| "emac_set (Add_phy_register r) p = p\<lparr>em_phy_registers := em_phy_registers p @ [r]\<rparr>"

subsection \<open>What the drivers are told\<close>

record spi_bus_config =
  bc_mosi_io_num :: int
  bc_miso_io_num :: int
  bc_sclk_io_num :: int
  bc_other_io_nums :: "int list"
  bc_max_transfer_sz :: int
  bc_flags :: u32
  bc_intr_flags :: int

text \<open>The six others are the quad and octal data lines.\<close>

definition bus_config :: "spi_pins \<Rightarrow> spi_bus_config" where
  "bus_config p = \<lparr>bc_mosi_io_num = uint (sp_mosi_pin p), bc_miso_io_num = uint (sp_miso_pin p),
     bc_sclk_io_num = uint (sp_clk_pin p), bc_other_io_nums = replicate 6 (-1),
     bc_max_transfer_sz = 0, bc_flags = 0, bc_intr_flags = 0\<rparr>"

record spi_device_config =
  dc_command_bits :: u8
  dc_address_bits :: u8
  dc_dummy_bits :: u8
  dc_mode :: u8
  dc_duty_cycle_pos :: u16
  dc_cs_ena_pretrans :: u16
  dc_cs_ena_posttrans :: u8
  dc_clock_speed_hz :: int
  dc_input_delay_ns :: int
  dc_spics_io_num :: int
  dc_flags :: u32
  dc_queue_size :: int

definition device_config :: "spi_pins \<Rightarrow> spi_device_config" where
  "device_config p = \<lparr>dc_command_bits = 0, dc_address_bits = 0, dc_dummy_bits = 0, dc_mode = 0,
     dc_duty_cycle_pos = 0, dc_cs_ena_pretrans = 0, dc_cs_ena_posttrans = 0,
     dc_clock_speed_hz = sp_clock_speed p, dc_input_delay_ns = 0,
     dc_spics_io_num = uint (sp_cs_pin p), dc_flags = 0, dc_queue_size = 20\<rparr>"

text \<open>
  The chip's configuration. \<open>dflt\<close> is the poll period of ESP-IDF's default, \<open>polling\<close> whether the
  framework supports polling, and \<open>hold\<close> ESP-IDF's \<open>enc28j60_cal_spi_cs_hold_time\<close>. For the
  W5500 the custom SPI driver is installed and the capture armed on the same pin.
\<close>

datatype spi_chip = CHIP_W5500 | CHIP_DM9051 | CHIP_ENC28J60 | CHIP_CH390

record chip_config =
  cc_int_gpio_num :: int
  cc_poll_period_ms :: u32
  cc_devcfg :: spi_device_config
  cc_async_spi :: bool
  cc_capture_pin :: "int option"

definition chip_config :: "(int \<Rightarrow> u8) \<Rightarrow> u32 \<Rightarrow> bool \<Rightarrow> spi_chip \<Rightarrow> spi_pins \<Rightarrow> chip_config" where
  "chip_config hold dflt polling chip p =
     (let c = \<lparr>cc_int_gpio_num = sp_interrupt_pin p,
            cc_poll_period_ms = (if polling \<and> chip \<noteq> CHIP_ENC28J60 then sp_polling_interval p else dflt),
            cc_devcfg = device_config p, cc_async_spi = False, cc_capture_pin = None\<rparr> in
      case chip of
        CHIP_W5500 \<Rightarrow> c\<lparr>cc_async_spi := True, cc_capture_pin := Some (sp_interrupt_pin p)\<rparr>
      | CHIP_ENC28J60 \<Rightarrow> c\<lparr>cc_devcfg := (cc_devcfg c)
            \<lparr>dc_cs_ena_posttrans := hold ((sp_clock_speed p + 999999) sdiv 1000000)\<rparr>\<rparr>
      | _ \<Rightarrow> c)"

record phy_config =
  ph_phy_addr :: int
  ph_reset_gpio_num :: int
  ph_autonego_timeout_ms :: u32

definition spi_phy_config :: "phy_config \<Rightarrow> spi_pins \<Rightarrow> phy_config" where
  "spi_phy_config dflt p = dflt\<lparr>ph_phy_addr := sp_phy_addr_spi p, ph_reset_gpio_num := sp_reset_pin p\<rparr>"

definition emac_phy_config :: "phy_config \<Rightarrow> emac_pins \<Rightarrow> phy_config" where
  "emac_phy_config dflt p = dflt\<lparr>ph_phy_addr := uint (em_phy_addr p), ph_reset_gpio_num := em_power_pin p\<rparr>"

definition phy_config_of_type :: "eth_type \<Rightarrow> phy_config \<Rightarrow> phy_config" where
  "phy_config_of_type t c = (if t = ETHERNET_TYPE_OPENETH then c\<lparr>ph_autonego_timeout_ms := 1000\<rparr> else c)"

record emac_config =
  mc_mdc_num :: int
  mc_mdio_num :: int
  mc_clock_mode :: clk_mode
  mc_clock_gpio :: int

text \<open>The types with an RGMII interface keep the clock configuration of the default.\<close>

definition emac_config :: "emac_config \<Rightarrow> eth_type \<Rightarrow> emac_pins \<Rightarrow> emac_config" where
  "emac_config dflt t p =
     (let c = dflt\<lparr>mc_mdc_num := uint (em_mdc_pin p), mc_mdio_num := uint (em_mdio_pin p)\<rparr> in
      if t \<noteq> ETHERNET_TYPE_GENERIC \<and> t \<noteq> ETHERNET_TYPE_YT8531
      then c\<lparr>mc_clock_mode := em_clk_mode p, mc_clock_gpio := uint (em_clk_pin p)\<rparr> else c)"

subsection \<open>\<open>dump_config\<close>\<close>

text \<open>\<open>used\<close> are the types the build names (\<open>USE_ETHERNET_...\<close>).\<close>

definition type_name :: "eth_type list \<Rightarrow> eth_type \<Rightarrow> string" where
  "type_name used t = (if t \<notin> set used then ''Unknown'' else case t of
     ETHERNET_TYPE_LAN8720 \<Rightarrow> ''LAN8720''
   | ETHERNET_TYPE_RTL8201 \<Rightarrow> ''RTL8201''
   | ETHERNET_TYPE_DP83848 \<Rightarrow> ''DP83848''
   | ETHERNET_TYPE_IP101 \<Rightarrow> ''IP101''
   | ETHERNET_TYPE_JL1101 \<Rightarrow> ''JL1101''
   | ETHERNET_TYPE_KSZ8081 \<Rightarrow> ''KSZ8081''
   | ETHERNET_TYPE_KSZ8081RNA \<Rightarrow> ''KSZ8081RNA''
   | ETHERNET_TYPE_W5500 \<Rightarrow> ''W5500''
   | ETHERNET_TYPE_DM9051 \<Rightarrow> ''DM9051''
   | ETHERNET_TYPE_ENC28J60 \<Rightarrow> ''ENC28J60''
   | ETHERNET_TYPE_CH390 \<Rightarrow> ''CH390''
   | ETHERNET_TYPE_OPENETH \<Rightarrow> ''OPENETH''
   | ETHERNET_TYPE_LAN8670 \<Rightarrow> ''LAN8670''
   | ETHERNET_TYPE_GENERIC \<Rightarrow> ''Generic (RGMII)''
   | ETHERNET_TYPE_YT8531 \<Rightarrow> ''YT8531 (RGMII)''
   | _ \<Rightarrow> ''Unknown'')"

definition yes_no :: "bool \<Rightarrow> string" where "yes_no x = (if x then ''YES'' else ''NO'')"

text \<open>Settings, each with its label on a line of its own.\<close>

definition labelled :: "(string \<times> string) list \<Rightarrow> string" where
  "labelled xs = concat (map (\<lambda>(i, l, v). (if i = 0 then '''' else NL) @ ''  '' @ l @ '': '' @ v) (enumerate 0 xs))"

definition wait_line :: "bool \<Rightarrow> spi_pins \<Rightarrow> string" where
  "wait_line polling p =
     (if polling \<and> sp_polling_interval p \<noteq> 0
      then labelled [(''Polling Interval'', u32_field (sp_polling_interval p) @ '' ms'')]
      else labelled [(''IRQ Pin'', fmt_d (sp_interrupt_pin p))])"

definition u8_field :: "u8 \<Rightarrow> string" where "u8_field w = fmt_u (unat w)"

definition dump_spi :: "bool \<Rightarrow> spi_pins \<Rightarrow> string list" where
  "dump_spi polling p =
     [labelled [(''CLK Pin'', u8_field (sp_clk_pin p)), (''MISO Pin'', u8_field (sp_miso_pin p)),
        (''MOSI Pin'', u8_field (sp_mosi_pin p)), (''CS Pin'', u8_field (sp_cs_pin p))],
      labelled [(''Interface'', if sp_interface p = SPI2_HOST then ''spi2'' else ''spi3'')],
      wait_line polling p,
      labelled [(''Reset Pin'', fmt_d (sp_reset_pin p)),
        (''Clock Speed'', fmt_d (sp_clock_speed p sdiv 1000000) @ '' MHz'')]]"

definition dump_emac :: "emac_pins \<Rightarrow> string list" where
  "dump_emac p =
     (if em_power_pin p \<noteq> -1 then [labelled [(''Power Pin'', u32_field (to_u32 (em_power_pin p)))] ] else []) @
     [labelled [(''CLK Pin'', u8_field (em_clk_pin p)), (''MDC Pin'', u8_field (em_mdc_pin p)),
        (''MDIO Pin'', u8_field (em_mdio_pin p)), (''PHY addr'', u8_field (em_phy_addr p))]]"

text \<open>
  \<open>dump_connect_params_\<close> with its text. The texts of the addresses are arguments, \<open>ct_mac\<close> that of
  whatever the query left in the buffer; \<open>gigabit\<close> is whether the framework knows that speed.
\<close>

record connect_texts =
  ct_ip :: string
  ct_hostname :: string
  ct_subnet :: string
  ct_gateway :: string
  ct_dns1 :: string
  ct_dns2 :: string
  ct_mac :: string
  ct_ip6 :: "string list"

definition ETH_SPEED_100M :: u32 where "ETH_SPEED_100M = 1"
definition ETH_SPEED_1000M :: u32 where "ETH_SPEED_1000M = 2"
definition ETH_DUPLEX_FULL :: u32 where "ETH_DUPLEX_FULL = 1"

definition speed_mbit :: "bool \<Rightarrow> u32 \<Rightarrow> u16" where
  "speed_mbit gigabit v =
     (if v = ETH_SPEED_100M then 100 else if gigabit \<and> v = ETH_SPEED_1000M then 1000 else 10)"

definition connect_params_log :: "eth_build \<Rightarrow> bool \<Rightarrow> idf \<Rightarrow> connect_texts \<Rightarrow> eth_esp32 \<Rightarrow> eth_esp32 \<times> string list" where
  "connect_params_log b gigabit idf t s =
     (if \<not> ep_initialized s then (s, [''  uninitialized/disabled''])
      else
        (let (s, speed) = get_link_speed idf s;
             s = query_mac idf s;
             (s, duplex) = get_duplex_mode idf s in
         (s, labelled [(''IP Address'', ct_ip t), (''Hostname'', CHR 0x27 # ct_hostname t @ [CHR 0x27]),
               (''Subnet'', ct_subnet t), (''Gateway'', ct_gateway t), (''DNS1'', ct_dns1 t),
               (''DNS2'', ct_dns2 t), (''MAC Address'', ct_mac t),
               (''Is Full Duplex'', yes_no (duplex = ETH_DUPLEX_FULL)),
               (''Link Speed'', u16_field (speed_mbit gigabit speed))]
             # (if eb_ipv6 b then map (\<lambda>a. labelled [(''IPv6'', a)]) (ct_ip6 t) else []))))"

definition eth_dump_config ::
  "eth_build \<Rightarrow> bool \<Rightarrow> bool \<Rightarrow> idf \<Rightarrow> eth_type list \<Rightarrow> connect_texts \<Rightarrow> spi_pins \<Rightarrow> emac_pins \<Rightarrow> eth_esp32 \<Rightarrow>
   eth_esp32 \<times> string list" where
  "eth_dump_config b gigabit polling idf used t sp em s =
     (let (s', params) = connect_params_log b gigabit idf t s in
      (s', (''Ethernet:'' @ NL @ labelled [(''Connected'', yes_no (is_connected s))]) # params @
        (if eb_spi b then dump_spi polling sp else dump_emac em) @
        [labelled [(''Type'', type_name used (ec_type s))]]))"

subsection \<open>Queries and automations\<close>

text \<open>
  The addresses, in an array of \<open>n\<close> entries: the IPv4 address where there is one, then the \<open>ip6s\<close>
  of the interface, of which ESP-IDF keeps at most \<open>limit\<close>. \<open>None\<close> is a failed assertion.
\<close>

datatype ip_address = IP4 u32 | IP6 "u8 list"

definition eth_get_ip_addresses ::
  "eth_build \<Rightarrow> nat \<Rightarrow> nat \<Rightarrow> u32 option \<Rightarrow> u8 list list \<Rightarrow> eth_esp32 \<Rightarrow> ip_address list option" where
  "eth_get_ip_addresses b n limit ip ip6s s =
     (let addresses = replicate n (IP4 0) in
      if \<not> ep_initialized s then Some addresses
      else
        (let addresses = (case ip of None \<Rightarrow> addresses | Some a \<Rightarrow> addresses[0 := IP4 a]) in
         if \<not> eb_ipv6 b then Some addresses
         else if length ip6s > limit \<or> length ip6s \<ge> n then None
         else Some (fold (\<lambda>(i, a) addresses. addresses[Suc i := IP6 a]) (enumerate 0 ip6s) addresses)))"

text \<open>What each listener is told, in the order they were added.\<close>

definition ip_state_notifications ::
  "'l list \<Rightarrow> ip_address list \<Rightarrow> (nat \<Rightarrow> ip_address) \<Rightarrow> ('l \<times> ip_address list \<times> ip_address \<times> ip_address) list" where
  "ip_state_notifications listeners ips dns = map (\<lambda>l. (l, ips, dns 0, dns 1)) listeners"

text \<open>
  The MAC address: the configured or the built-in one while the driver is not installed, else the
  driver's. \<open>None\<close> is a buffer nothing was written to.
\<close>

definition get_eth_mac_address_raw ::
  "idf \<Rightarrow> u8 list \<Rightarrow> u8 list \<Rightarrow> eth_esp32 \<Rightarrow> eth_esp32 \<times> u8 list option" where
  "get_eth_mac_address_raw idf builtin drv s =
     (if \<not> ep_initialized s then (s, Some (case ec_fixed_mac s of Some m \<Rightarrow> m | None \<Rightarrow> builtin))
      else (let (s, err, _) = esp_call idf GetMacAddr s in
        if err \<noteq> ESP_OK then (mark_failed s, None) else (s, Some drv)))"

definition get_eth_mac_address_pretty ::
  "(u8 list \<Rightarrow> string) \<Rightarrow> idf \<Rightarrow> u8 list \<Rightarrow> u8 list \<Rightarrow> eth_esp32 \<Rightarrow> eth_esp32 \<times> string option" where
  "get_eth_mac_address_pretty format_mac_addr_upper idf builtin drv s =
     (let (s, mac) = get_eth_mac_address_raw idf builtin drv s in (s, map_option format_mac_addr_upper mac))"

definition EthernetConnectedCondition :: "eth_esp32 \<Rightarrow> bool" where
  "EthernetConnectedCondition global_eth_component = is_connected global_eth_component"

definition EthernetEnabledCondition :: "eth_esp32 \<Rightarrow> bool" where
  "EthernetEnabledCondition global_eth_component = is_enabled global_eth_component"

definition EthernetEnableAction :: "eth_build \<Rightarrow> idf \<Rightarrow> eth_esp32 \<Rightarrow> eth_esp32" where
  "EthernetEnableAction b idf global_eth_component = eth_enable b idf global_eth_component"

definition EthernetDisableAction :: "idf \<Rightarrow> eth_esp32 \<Rightarrow> eth_esp32" where
  "EthernetDisableAction idf global_eth_component = eth_disable idf global_eth_component"

subsection \<open>A build names what it can drive\<close>

definition never_named :: "eth_type set" where
  "never_named = {ETHERNET_TYPE_UNKNOWN, ETHERNET_TYPE_W5100, ETHERNET_TYPE_W6100, ETHERNET_TYPE_W6300}"

lemma type_name_unknown: "type_name used t = ''Unknown'' \<longleftrightarrow> t \<notin> set used \<or> t \<in> never_named"
  by (cases t) (simp_all add: type_name_def never_named_def)

text \<open>The log tells two types apart whenever it names them.\<close>

lemma type_names_distinct:
  assumes "type_name used t = type_name used u" "type_name used t \<noteq> ''Unknown''"
  shows "t = u"
proof -
  have "t \<in> set used" "u \<in> set used"
    using assms type_name_unknown [of used t] type_name_unknown [of used u] by simp_all
  with assms show ?thesis by (cases t; cases u) (simp_all add: type_name_def)
qed

text \<open>A component of a type the log calls unknown has failed, since no driver is built for it.\<close>

theorem unknown_type_failed:
  assumes "set (eb_drivers b) \<subseteq> set used - never_named" "type_name used (ec_type s) = ''Unknown''"
  shows "ec_failed (install_driver b idf s)"
  using assms by (auto simp: type_name_unknown install_driver_def mark_failed_def)

subsection \<open>The driver either waits for the interrupt or polls\<close>

text \<open>
  ESP-IDF's drivers refuse a configuration with both an interrupt pin and a poll period, or with
  neither. The generated code sets one of the two.
\<close>

definition interrupt_xor_poll :: "chip_config \<Rightarrow> bool" where
  "interrupt_xor_poll c \<longleftrightarrow> (0 \<le> cc_int_gpio_num c) \<noteq> (0 < cc_poll_period_ms c)"

lemma interrupt_pin_set: "Set_interrupt_pin v \<in> set ss \<or> 0 \<le> sp_interrupt_pin p \<Longrightarrow>
    0 \<le> sp_interrupt_pin (fold spi_set ss p)"
proof (induction ss arbitrary: p)
  case (Cons a ss)
  then show ?case by (cases a) auto
qed simp

lemma interrupt_pin_kept: "\<forall>v. Set_interrupt_pin v \<notin> set ss \<Longrightarrow>
    sp_interrupt_pin (fold spi_set ss p) = sp_interrupt_pin p"
proof (induction ss arbitrary: p)
  case (Cons a ss)
  then show ?case by (cases a) auto
qed simp

lemma poll_interval_set: "Set_polling_interval v \<in> set ss \<or> sp_polling_interval p \<noteq> 0 \<Longrightarrow>
    Set_polling_interval 0 \<notin> set ss \<Longrightarrow> sp_polling_interval (fold spi_set ss p) \<noteq> 0"
proof (induction ss arbitrary: p)
  case (Cons a ss)
  then show ?case by (cases a) auto
qed simp

lemma poll_interval_kept: "\<forall>v. Set_polling_interval v \<notin> set ss \<Longrightarrow>
    sp_polling_interval (fold spi_set ss p) = sp_polling_interval p"
proof (induction ss arbitrary: p)
  case (Cons a ss)
  then show ?case by (cases a) auto
qed simp

lemma chip_config_waits:
  "cc_int_gpio_num (chip_config hold dflt polling chip p) = sp_interrupt_pin p"
  "cc_poll_period_ms (chip_config hold dflt polling chip p) =
     (if polling \<and> chip \<noteq> CHIP_ENC28J60 then sp_polling_interval p else dflt)"
  "cc_capture_pin (chip_config hold dflt polling chip p) =
     (if chip = CHIP_W5500 then Some (sp_interrupt_pin p) else None)"
  by (cases chip; simp add: chip_config_def Let_def)+

theorem driver_waits_one_way:
  assumes pins: "p = fold spi_set ss (spi_pins_init p0)"
    and one: "if v = 0 then Set_interrupt_pin pin \<in> set ss \<and> (\<forall>v. Set_polling_interval v \<notin> set ss)
      else Set_polling_interval v \<in> set ss \<and> Set_polling_interval 0 \<notin> set ss \<and>
        (\<forall>pin. Set_interrupt_pin pin \<notin> set ss) \<and> polling \<and> chip \<noteq> CHIP_ENC28J60"
  shows "interrupt_xor_poll (chip_config hold 0 polling chip p) \<and>
    wait_line polling p = (if v = 0 then labelled [(''IRQ Pin'', fmt_d (sp_interrupt_pin p))]
      else labelled [(''Polling Interval'', u32_field (sp_polling_interval p) @ '' ms'')]) \<and>
    (chip = CHIP_W5500 \<longrightarrow> (\<exists>gpio. cc_capture_pin (chip_config hold 0 polling chip p) = Some gpio \<and>
      (w5500_start_int_capture gpio timer_ok channel_ok = [] \<longleftrightarrow> v \<noteq> 0)))"
proof (cases "v = 0")
  case True
  with one have "0 \<le> sp_interrupt_pin p" "sp_polling_interval p = 0"
    by (auto simp: pins poll_interval_kept spi_pins_init_def interrupt_pin_set)
  with True show ?thesis
    by (auto simp: chip_config_waits interrupt_xor_poll_def wait_line_def w5500_start_int_capture_def
        arm_capture_def)
next
  case False
  with one have "sp_interrupt_pin p = -1" by (simp add: pins interrupt_pin_kept spi_pins_init_def)
  moreover have "sp_polling_interval p \<noteq> 0"
    using one False unfolding pins by (intro poll_interval_set) auto
  ultimately show ?thesis
    using False one
    by (auto simp: chip_config_waits interrupt_xor_poll_def wait_line_def w5500_start_int_capture_def
        word_gt_0)
qed

subsection \<open>Queries\<close>

lemma connect_params_log_state: "fst (connect_params_log b gigabit idf t s) = dump_connect_params idf s"
  by (simp add: connect_params_log_def dump_connect_params_def Let_def case_prod_beta)

lemma get_eth_mac_address_raw_state: "fst (get_eth_mac_address_raw idf builtin drv s) = query_mac idf s"
  by (simp add: get_eth_mac_address_raw_def query_mac_def checked_def esphl_error_check_def Let_def case_prod_beta)

text \<open>A failed query leaves the buffer as it was, and the caller formats it all the same.\<close>

theorem mac_unwritten_iff_query_failed:
  "snd (get_eth_mac_address_raw idf builtin drv s) = None \<longleftrightarrow>
     ep_initialized s \<and> fst (idf (length (ec_trace s)) GetMacAddr) \<noteq> ESP_OK"
  by (simp add: get_eth_mac_address_raw_def esp_call_def Let_def case_prod_beta)

lemma fold_update_length: "length (fold (\<lambda>(i, a) xs. xs[Suc i := f a]) ps xs) = length xs"
  by (induction ps arbitrary: xs) (auto simp: case_prod_beta)

lemma fold_update_nth:
  "j < length xs \<Longrightarrow> fold (\<lambda>(i, a) xs. xs[Suc i := f a]) (enumerate m as) xs ! j =
     (if m < j \<and> j \<le> m + length as then f (as ! (j - 1 - m)) else xs ! j)"
proof (induction as arbitrary: m xs)
  case (Cons a as)
  then show ?case by (cases "j = Suc m") (auto simp: nth_list_update nth_Cons' Suc_le_eq)
qed auto

theorem ip_addresses_exact:
  assumes "ep_initialized s" "eb_ipv6 b" "0 < n"
  shows "eth_get_ip_addresses b n limit ip ip6s s =
    (if length ip6s \<le> limit \<and> length ip6s < n
     then Some (IP4 (case ip of None \<Rightarrow> 0 | Some a \<Rightarrow> a) # map IP6 ip6s @ replicate (n - 1 - length ip6s) (IP4 0))
     else None)"
proof (cases "length ip6s \<le> limit \<and> length ip6s < n")
  case True
  let ?l = "(replicate n (IP4 0))[0 := IP4 (case ip of None \<Rightarrow> 0 | Some a \<Rightarrow> a)]"
  have l: "(case ip of None \<Rightarrow> replicate n (IP4 0) | Some a \<Rightarrow> (replicate n (IP4 0))[0 := IP4 a]) = ?l"
    using assms(3) by (cases n) (auto split: option.split)
  have "fold (\<lambda>(i, a) xs. xs[Suc i := IP6 a]) (enumerate 0 ip6s) ?l =
      IP4 (case ip of None \<Rightarrow> 0 | Some a \<Rightarrow> a) # map IP6 ip6s @ replicate (n - 1 - length ip6s) (IP4 0)"
    using True assms(3)
    by (intro nth_equalityI)
      (auto simp: fold_update_length fold_update_nth nth_Cons' nth_append nth_list_update)
  with True assms show ?thesis by (simp add: eth_get_ip_addresses_def Let_def l)
qed (use assms in \<open>auto simp: eth_get_ip_addresses_def Let_def\<close>)

end
