(* ===== verification/Rp2Config.thy ===== *)
theory Rp2Config
  imports EthRp2 EthConfig
begin

text \<open>
  Set-up, log and queries of the Ethernet component on RP2040
  (\<open>components/ethernet/ethernet_component_rp2.cpp\<close>): the pins, the calls \<open>setup\<close> makes in order, what
  \<open>dump_config\<close> logs and what other components can ask. arduino-pico's driver and the address texts
  are arguments.
\<close>

datatype rp2_chip = RP_W5500 | RP_W5100 | RP_W6100 | RP_W6300 | RP_ENC28J60

record rp2_pins =
  rp_clk_pin :: u8
  rp_miso_pin :: u8
  rp_mosi_pin :: u8
  rp_cs_pin :: u8
  rp_interrupt_pin :: "8 word"
  rp_reset_pin :: "8 word"

text \<open>The last two are \<open>int8_t\<close>: \<open>sint\<close> reads them.\<close>

definition rp2_pins_init :: "rp2_pins \<Rightarrow> rp2_pins" where
  "rp2_pins_init p = p\<lparr>rp_interrupt_pin := -1, rp_reset_pin := -1\<rparr>"

datatype rp2_setting = Rp_clk_pin u8 | Rp_miso_pin u8 | Rp_mosi_pin u8 | Rp_cs_pin u8
  | Rp_interrupt_pin "8 word" | Rp_reset_pin "8 word"

fun rp2_set :: "rp2_setting \<Rightarrow> rp2_pins \<Rightarrow> rp2_pins" where
  "rp2_set (Rp_clk_pin v) p = p\<lparr>rp_clk_pin := v\<rparr>"
| "rp2_set (Rp_miso_pin v) p = p\<lparr>rp_miso_pin := v\<rparr>"
| "rp2_set (Rp_mosi_pin v) p = p\<lparr>rp_mosi_pin := v\<rparr>"
| "rp2_set (Rp_cs_pin v) p = p\<lparr>rp_cs_pin := v\<rparr>"
| "rp2_set (Rp_interrupt_pin v) p = p\<lparr>rp_interrupt_pin := v\<rparr>"
| "rp2_set (Rp_reset_pin v) p = p\<lparr>rp_reset_pin := v\<rparr>"

subsection \<open>Set-up\<close>

definition RESET_DELAY_MS :: "rp2_chip \<Rightarrow> u32" where
  "RESET_DELAY_MS chip = (case chip of RP_W5100 \<Rightarrow> 150 | RP_W6300 \<Rightarrow> 100 | _ \<Rightarrow> 10)"

datatype rp2_call = SetRX u8 | SetTX u8 | SetSCK u8
  | ResetOutput int | ResetWrite int bool | Delay u32
  | NewDevice rp2_chip u8 int | DeviceHostname | DeviceConfig u32 u32 u32 u32 u32
  | DeviceBegin "u8 list option" | DeleteDevice | SetDefault

definition rp2_spi_calls :: "rp2_chip \<Rightarrow> rp2_pins \<Rightarrow> rp2_call list" where
  "rp2_spi_calls chip p =
     (if chip = RP_W6300 then [] else [SetRX (rp_miso_pin p), SetTX (rp_mosi_pin p), SetSCK (rp_clk_pin p)])"

definition rp2_reset_calls :: "rp2_chip \<Rightarrow> rp2_pins \<Rightarrow> rp2_call list" where
  "rp2_reset_calls chip p =
     (let pin = sint (rp_reset_pin p) in
      if pin \<ge> 0
      then [ResetOutput pin, ResetWrite pin False, Delay 1, ResetWrite pin True, Delay (RESET_DELAY_MS chip)]
      else [])"

definition rp2_begin_calls :: "eth_rp2 \<Rightarrow> rp2_call list" where
  "rp2_begin_calls s =
     [DeviceHostname] @
     (case ec_manual_ip s of None \<Rightarrow> []
      | Some m \<Rightarrow> [DeviceConfig (mi_static_ip m) (mi_gateway m) (mi_subnet m) (mi_dns1 m) (mi_dns2 m)]) @
     [DeviceBegin (ec_fixed_mac s)]"

definition rp2_setup_run :: "rp2_chip \<Rightarrow> rp2_pins \<Rightarrow> bool \<Rightarrow> eth_rp2 \<Rightarrow> eth_rp2 \<times> rp2_call list" where
  "rp2_setup_run chip p begin_ok s =
     (rp2_setup begin_ok s,
      rp2_spi_calls chip p @ rp2_reset_calls chip p @
      [NewDevice chip (rp_cs_pin p) (sint (rp_interrupt_pin p))] @ rp2_begin_calls s @
      (if begin_ok then [SetDefault] else [DeleteDevice]))"

text \<open>
  The chip is out of reset, and has had the time it needs, before its device exists; the host name
  and a static address are known before it begins; and the interface becomes the default, and is
  kept, exactly when it began.
\<close>

theorem rp2_setup_order:
  assumes "rp2_setup_run chip p begin_ok s = (s', calls)"
  shows "\<exists>before after. calls = before @ [NewDevice chip (rp_cs_pin p) (sint (rp_interrupt_pin p))] @ after \<and>
    (sint (rp_reset_pin p) \<ge> 0 \<longrightarrow> (\<exists>pre. before = pre @
       [ResetWrite (sint (rp_reset_pin p)) True, Delay (RESET_DELAY_MS chip)])) \<and>
    (\<forall>pin level. ResetWrite pin level \<notin> set after) \<and>
    (\<exists>config done. after = config @ [DeviceBegin (ec_fixed_mac s)] @ [done] \<and> DeviceHostname \<in> set config \<and>
       (done = SetDefault \<longleftrightarrow> rp_eth s') \<and> (done = DeleteDevice \<longleftrightarrow> ec_failed s' \<and> \<not> begin_ok) \<and>
       (\<forall>m. ec_manual_ip s = Some m \<longrightarrow>
          DeviceConfig (mi_static_ip m) (mi_gateway m) (mi_subnet m) (mi_dns1 m) (mi_dns2 m) \<in> set config))"
proof -
  let ?before = "rp2_spi_calls chip p @ rp2_reset_calls chip p"
  let ?config = "butlast (rp2_begin_calls s)"
  let ?done = "if begin_ok then SetDefault else DeleteDevice"
  have c: "rp2_begin_calls s = ?config @ [DeviceBegin (ec_fixed_mac s)]"
    by (simp add: rp2_begin_calls_def butlast_append)
  have k: "calls = ?before @ [NewDevice chip (rp_cs_pin p) (sint (rp_interrupt_pin p))] @
      ?config @ [DeviceBegin (ec_fixed_mac s)] @ [?done]" and s': "s' = rp2_setup begin_ok s"
    using assms c by (auto simp: rp2_setup_run_def)
  let ?tail = "?config @ [DeviceBegin (ec_fixed_mac s)] @ [?done]"
  have pre: "sint (rp_reset_pin p) \<ge> 0 \<longrightarrow> (\<exists>pre. ?before = pre @
       [ResetWrite (sint (rp_reset_pin p)) True, Delay (RESET_DELAY_MS chip)])"
    by (simp add: rp2_reset_calls_def Let_def)
  have config: "DeviceHostname \<in> set ?config" "\<forall>m. ec_manual_ip s = Some m \<longrightarrow>
       DeviceConfig (mi_static_ip m) (mi_gateway m) (mi_subnet m) (mi_dns1 m) (mi_dns2 m) \<in> set ?config"
    and tail: "\<forall>pin level. ResetWrite pin level \<notin> set ?tail"
    by (simp_all add: rp2_begin_calls_def butlast_append split: option.split)
  have outcome: "(?done = SetDefault) = rp_eth s'" "(?done = DeleteDevice) = (ec_failed s' \<and> \<not> begin_ok)"
    by (simp_all add: s' rp2_setup_def)
  show ?thesis
    by (rule exI [of _ ?before], rule exI [of _ ?tail], intro conjI, rule k, rule pre, rule tail,
        rule exI [of _ ?config], rule exI [of _ ?done], intro conjI, rule refl, rule config(1),
        rule outcome(1), rule outcome(2), rule config(2))
qed

subsection \<open>Log and queries\<close>

definition rp2_type_str :: "rp2_chip \<Rightarrow> string" where
  "rp2_type_str chip = (case chip of RP_W5500 \<Rightarrow> ''W5500'' | RP_W5100 \<Rightarrow> ''W5100''
     | RP_W6100 \<Rightarrow> ''W6100'' | RP_W6300 \<Rightarrow> ''W6300'' | RP_ENC28J60 \<Rightarrow> ''ENC28J60'')"

definition rp2_dump_connect_params :: "connect_texts \<Rightarrow> eth_rp2 \<Rightarrow> string list" where
  "rp2_dump_connect_params t s =
     (if \<not> rp_eth s then []
      else [labelled [(''IP Address'', ct_ip t), (''Hostname'', CHR 0x27 # ct_hostname t @ [CHR 0x27]),
        (''Subnet'', ct_subnet t), (''Gateway'', ct_gateway t), (''DNS1'', ct_dns1 t),
        (''DNS2'', ct_dns2 t), (''MAC Address'', ct_mac t)]])"

definition rp2_dump_config :: "rp2_chip \<Rightarrow> connect_texts \<Rightarrow> rp2_pins \<Rightarrow> eth_rp2 \<Rightarrow> string list" where
  "rp2_dump_config chip t p s =
     (''Ethernet:'' @ NL @ labelled
        (if chip = RP_W6300
         then [(''Type'', rp2_type_str chip @ '' (PIO QSPI)''), (''Connected'', yes_no (is_connected s)),
           (''IRQ Pin'', fmt_d (sint (rp_interrupt_pin p))), (''Reset Pin'', fmt_d (sint (rp_reset_pin p)))]
         else [(''Type'', rp2_type_str chip), (''Connected'', yes_no (is_connected s)),
           (''CLK Pin'', u8_field (rp_clk_pin p)), (''MISO Pin'', u8_field (rp_miso_pin p)),
           (''MOSI Pin'', u8_field (rp_mosi_pin p)), (''CS Pin'', u8_field (rp_cs_pin p)),
           (''IRQ Pin'', fmt_d (sint (rp_interrupt_pin p))), (''Reset Pin'', fmt_d (sint (rp_reset_pin p)))]))
     # rp2_dump_connect_params t s"

definition rp2_get_ip_addresses :: "nat \<Rightarrow> u32 \<Rightarrow> eth_rp2 \<Rightarrow> ip_address list" where
  "rp2_get_ip_addresses n local_ip s =
     (let addresses = replicate n (IP4 0) in if rp_eth s then addresses[0 := IP4 local_ip] else addresses)"

definition rp2_get_eth_mac_address_raw :: "u8 list \<Rightarrow> eth_rp2 \<Rightarrow> u8 list" where
  "rp2_get_eth_mac_address_raw drv s = (if rp_eth s then drv else replicate 6 0)"

definition rp2_get_eth_mac_address_pretty :: "(u8 list \<Rightarrow> string) \<Rightarrow> u8 list \<Rightarrow> eth_rp2 \<Rightarrow> string" where
  "rp2_get_eth_mac_address_pretty format_mac_addr_upper drv s =
     format_mac_addr_upper (rp2_get_eth_mac_address_raw drv s)"

datatype eth_duplex = HALF | FULL
datatype eth_speed = SPEED_10M | SPEED_100M

definition rp2_get_duplex_mode :: eth_duplex where "rp2_get_duplex_mode = FULL"

definition rp2_get_link_speed :: "rp2_chip \<Rightarrow> eth_speed" where
  "rp2_get_link_speed chip = (if chip = RP_ENC28J60 then SPEED_10M else SPEED_100M)"

text \<open>
  A failed set-up is visible in every query, and in the log, for good: there is no address, the MAC
  address is zero, and no step of the component brings the device back.
\<close>

lemma rp2_step_eth: "rp2_step b s s' \<Longrightarrow> rp_eth s' = rp_eth s"
proof (induction rule: rp2_step.induct)
  case (pass s now link_on has_ip t0)
  have "rp_eth (rp2_poll b now link_on has_ip s) = rp_eth s"
    by (simp add: rp2_poll_def rp2_note_link_def Let_def emit_def)
  then show ?case by (simp add: rp2_loop_def link_switch_def emit_def rp2_start_fields split: eth_state.split)
qed (simp_all add: rp2_enable_def rp2_disable_def rp2_powerdown_def)

theorem rp2_failed_setup_stays:
  assumes "rp2_setup_run chip p False s0 = (s1, calls)" "(rp2_step b)\<^sup>*\<^sup>* s1 s"
  shows "\<not> rp_eth s \<and> rp2_get_ip_addresses n ip s = replicate n (IP4 0) \<and>
    rp2_get_eth_mac_address_raw drv s = replicate 6 0 \<and> length (rp2_dump_config chip t p s) = 1"
proof -
  have "\<not> rp_eth s1" using assms(1) by (auto simp: rp2_setup_run_def rp2_setup_def)
  with assms(2) have "\<not> rp_eth s" by (induction rule: rtranclp_induct) (simp_all add: rp2_step_eth)
  then show ?thesis
    by (simp add: rp2_get_ip_addresses_def rp2_get_eth_mac_address_raw_def rp2_dump_config_def
        rp2_dump_connect_params_def)
qed

text \<open>
  On RP2040 \<open>enable\<close> and \<open>disable\<close> only move the flag: a disabled component goes on polling, and
  reports the same connection, as one that was never disabled.
\<close>

theorem rp2_disable_has_no_effect:
  "rp2_loop b now link_on has_ip t0 (rp2_disable s) =
     (rp2_loop b now link_on has_ip t0 s)\<lparr>ec_disabled := True\<rparr>"
proof -
  have d: "rp2_disable s = s\<lparr>ec_disabled := True\<rparr>"
    by (cases "ec_disabled s") (simp_all add: rp2_disable_def)
  have p: "rp2_poll b now link_on has_ip (s\<lparr>ec_disabled := True\<rparr>) =
      (rp2_poll b now link_on has_ip s)\<lparr>ec_disabled := True\<rparr>"
    by (simp add: rp2_poll_def rp2_poll_due_def rp2_note_link_def Let_def emit_def)
  have c: "rp2_start_connect t0 (x\<lparr>ec_disabled := True\<rparr>) = (rp2_start_connect t0 x)\<lparr>ec_disabled := True\<rparr>"
    "rp2_start_connect t0 (x\<lparr>ec_disabled := True, ec_state := CONNECTING\<rparr>) =
      (rp2_start_connect t0 (x\<lparr>ec_state := CONNECTING\<rparr>))\<lparr>ec_disabled := True\<rparr>" for x
    by (simp_all add: rp2_start_connect_def Let_def emit_def split: option.split)
  show ?thesis by (simp add: d p c rp2_loop_def link_switch_def emit_def split: eth_state.split)
qed

end
