(* ===== verification/Jl1101.thy ===== *)
theory Jl1101
  imports Prelude
begin

text \<open>
  \<open>components/ethernet/esp_eth_phy_jl1101.c\<close>: the driver of the JL1101 PHY. The PHY's registers are
  reached through the mediator of ESP-IDF, a parameter: \<open>mii k op\<close> is whether the k-th operation of
  the driver succeeds and, for a read, the value. The bits of the standard registers are those of
  IEEE 802.3 clause 22, which the SDK's bit fields name. \<open>jl_trace\<close> holds the operations in order.
\<close>

definition BMCR :: u16 where "BMCR = 0"
definition BMSR :: u16 where "BMSR = 1"
definition IDR1 :: u16 where "IDR1 = 2"
definition IDR2 :: u16 where "IDR2 = 3"
definition ANAR :: u16 where "ANAR = 4"
definition ANLPAR :: u16 where "ANLPAR = 5"
definition PSR :: u16 where "PSR = 0x1F"

definition bmcr_reset :: "u16 \<Rightarrow> bool" where "bmcr_reset v = bit v 15"
definition bmcr_speed_select :: "u16 \<Rightarrow> bool" where "bmcr_speed_select v = bit v 13"
definition bmcr_power_down :: "u16 \<Rightarrow> bool" where "bmcr_power_down v = bit v 11"
definition bmcr_duplex_mode :: "u16 \<Rightarrow> bool" where "bmcr_duplex_mode v = bit v 8"
definition bmsr_link_status :: "u16 \<Rightarrow> bool" where "bmsr_link_status v = bit v 2"
definition bmsr_auto_nego_complete :: "u16 \<Rightarrow> bool" where "bmsr_auto_nego_complete v = bit v 5"
definition anlpar_symmetric_pause :: "u16 \<Rightarrow> bool" where "anlpar_symmetric_pause v = bit v 10"

datatype phy_change = StateSpeed bool | StateDuplex bool | StatePause bool | StateLink bool

text \<open>Speed is true for 100 Mbit/s, duplex for full.\<close>

datatype mii_op = RegRead u16 | RegWrite u16 u16 | StateChanged phy_change | DelayMs nat
  | DetectAddr | GpioLevel int bool

type_synonym mii = "nat \<Rightarrow> mii_op \<Rightarrow> bool \<times> u16"

record jl1101 =
  jl_addr :: int
  jl_reset_timeout_ms :: u32
  jl_autonego_timeout_ms :: u32
  jl_link_up :: bool
  jl_reset_gpio_num :: int
  jl_trace :: "mii_op list"

text \<open>An operation of the driver returns its state and whether it returned \<open>ESP_OK\<close>.\<close>

type_synonym jl_result = "jl1101 \<times> bool"

definition jl_do :: "mii_op \<Rightarrow> jl1101 \<Rightarrow> jl1101" where
  "jl_do op s = s\<lparr>jl_trace := jl_trace s @ [op]\<rparr>"

text \<open>\<open>PHY_CHECK\<close> on a call of the mediator: a failure ends the function with \<open>ESP_FAIL\<close>.\<close>

definition phy_check :: "mii \<Rightarrow> mii_op \<Rightarrow> (u16 \<Rightarrow> jl1101 \<Rightarrow> jl_result) \<Rightarrow> jl1101 \<Rightarrow> jl_result" where
  "phy_check mii op k s =
     (let (ok, v) = mii (length (jl_trace s)) op; s = jl_do op s in
      if \<not> ok then (s, False) else k v s)"

definition jl_ok :: "jl1101 \<Rightarrow> jl_result" where "jl_ok s = (s, True)"

definition jl_then :: "(jl1101 \<Rightarrow> jl_result) \<Rightarrow> (jl1101 \<Rightarrow> jl_result) \<Rightarrow> jl1101 \<Rightarrow> jl_result" where
  "jl_then f k s = (let (s, ok) = f s in if \<not> ok then (s, False) else k s)"

definition page_select :: "mii \<Rightarrow> u16 \<Rightarrow> jl1101 \<Rightarrow> jl_result" where
  "page_select mii page = phy_check mii (RegWrite PSR (page AND 0xFF)) (\<lambda>_. jl_ok)"

subsection \<open>The link\<close>

definition report_link :: "mii \<Rightarrow> bool \<Rightarrow> jl1101 \<Rightarrow> jl_result" where
  "report_link mii link = phy_check mii (StateChanged (StateLink link))
     (\<lambda>_ s. (s\<lparr>jl_link_up := link\<rparr>, True))"

definition report_negotiated :: "mii \<Rightarrow> u16 \<Rightarrow> (jl1101 \<Rightarrow> jl_result) \<Rightarrow> jl1101 \<Rightarrow> jl_result" where
  "report_negotiated mii anlpar k =
     phy_check mii (RegRead BMCR) (\<lambda>bmcr.
     phy_check mii (StateChanged (StateSpeed (bmcr_speed_select bmcr))) (\<lambda>_.
     phy_check mii (StateChanged (StateDuplex (bmcr_duplex_mode bmcr))) (\<lambda>_.
     phy_check mii (StateChanged (StatePause (bmcr_duplex_mode bmcr \<and> anlpar_symmetric_pause anlpar))) (\<lambda>_. k))))"

definition update_link_duplex_speed :: "mii \<Rightarrow> jl1101 \<Rightarrow> jl_result" where
  "update_link_duplex_speed mii =
     jl_then (page_select mii 0)
     (phy_check mii (RegRead BMSR) (\<lambda>bmsr.
      phy_check mii (RegRead ANLPAR) (\<lambda>anlpar s.
        let link = bmsr_link_status bmsr in
        if jl_link_up s \<noteq> link then
          (if link then report_negotiated mii anlpar (report_link mii link) s
           else report_link mii link s)
        else (s, True))))"

definition get_link :: "mii \<Rightarrow> jl1101 \<Rightarrow> jl_result" where
  "get_link mii = update_link_duplex_speed mii"

subsection \<open>Waiting for a register\<close>

text \<open>
  The polling loops: \<open>n\<close> attempts are left, each sleeps and reads. \<open>Some True\<close> when the register
  satisfied the condition, \<open>Some False\<close> when the attempts ran out, \<open>None\<close> when a read failed.
\<close>

fun poll_register :: "mii \<Rightarrow> nat \<Rightarrow> u16 \<Rightarrow> (u16 \<Rightarrow> bool) \<Rightarrow> nat \<Rightarrow> jl1101 \<Rightarrow> jl1101 \<times> bool option" where
  "poll_register mii ms reg P 0 s = (s, Some False)"
| "poll_register mii ms reg P (Suc n) s =
     (let s = jl_do (DelayMs ms) s; (ok, v) = mii (length (jl_trace s)) (RegRead reg); s = jl_do (RegRead reg) s in
      if \<not> ok then (s, None) else if P v then (s, Some True) else poll_register mii ms reg P n s)"

definition attempts :: "u32 \<Rightarrow> u32 \<Rightarrow> nat" where
  "attempts timeout_ms step_ms = unat (timeout_ms div step_ms)"

definition jl_reset :: "mii \<Rightarrow> jl1101 \<Rightarrow> jl_result" where
  "jl_reset mii s =
     phy_check mii (RegWrite BMCR (push_bit 15 1)) (\<lambda>_ s.
       let (s, r) = poll_register mii 50 BMCR (\<lambda>v. \<not> bmcr_reset v) (attempts (jl_reset_timeout_ms s) 50) s in
       (s, r = Some True)) (s\<lparr>jl_link_up := False\<rparr>)"

definition jl_reset_hw :: "jl1101 \<Rightarrow> jl_result" where
  "jl_reset_hw s =
     (if jl_reset_gpio_num s \<ge> 0
      then (jl_do (GpioLevel (jl_reset_gpio_num s) True) (jl_do (GpioLevel (jl_reset_gpio_num s) False) s), True)
      else (s, True))"

text \<open>A negotiation that does not complete in time is only logged.\<close>

definition AUTONEG_BMCR :: u16 where
  "AUTONEG_BMCR = push_bit 13 1 OR push_bit 8 1 OR push_bit 12 1 OR push_bit 9 1"

definition jl_negotiate :: "mii \<Rightarrow> jl1101 \<Rightarrow> jl_result" where
  "jl_negotiate mii s =
     phy_check mii (RegWrite BMCR AUTONEG_BMCR) (\<lambda>_ s.
       let (s, r) = poll_register mii 100 BMSR bmsr_auto_nego_complete (attempts (jl_autonego_timeout_ms s) 100) s in
       (s, r \<noteq> None)) (s\<lparr>jl_link_up := False\<rparr>)"

definition jl_pwrctl :: "mii \<Rightarrow> bool \<Rightarrow> jl1101 \<Rightarrow> jl_result" where
  "jl_pwrctl mii enable =
     phy_check mii (RegRead BMCR) (\<lambda>bmcr.
     phy_check mii (RegWrite BMCR (if \<not> enable then set_bit 11 bmcr else unset_bit 11 bmcr)) (\<lambda>_.
     if \<not> enable then phy_check mii (RegRead BMCR) (\<lambda>bmcr s. (s, bmcr_power_down bmcr))
     else (\<lambda>s. let (s, r) = poll_register mii 10 BMCR (\<lambda>v. \<not> bmcr_power_down v)
                 (attempts (jl_reset_timeout_ms s) 10) s in (s, r = Some True))))"

definition advertise_pause_ability :: "mii \<Rightarrow> bool \<Rightarrow> jl1101 \<Rightarrow> jl_result" where
  "advertise_pause_ability mii ability =
     phy_check mii (RegRead ANAR) (\<lambda>anar.
     phy_check mii (RegWrite ANAR (if ability then set_bit 10 (set_bit 11 anar)
       else unset_bit 10 (unset_bit 11 anar))) (\<lambda>_. jl_ok))"

subsection \<open>Starting and stopping\<close>

definition ESP_ETH_PHY_ADDR_AUTO :: int where "ESP_ETH_PHY_ADDR_AUTO = - 1"

definition detect_addr :: "mii \<Rightarrow> (jl1101 \<Rightarrow> jl_result) \<Rightarrow> jl1101 \<Rightarrow> jl_result" where
  "detect_addr mii k s =
     (if jl_addr s = ESP_ETH_PHY_ADDR_AUTO
      then phy_check mii DetectAddr (\<lambda>a s. k (s\<lparr>jl_addr := uint a\<rparr>)) s else k s)"

definition chip_id_ok :: "u16 \<Rightarrow> u16 \<Rightarrow> bool" where
  "chip_id_ok id1 id2 \<longleftrightarrow> id1 = 0x937C \<and> drop_bit 10 id2 = 0x10 \<and> drop_bit 4 id2 AND 0x3F = 0x2"

definition jl_init :: "mii \<Rightarrow> jl1101 \<Rightarrow> jl_result" where
  "jl_init mii = detect_addr mii
     (jl_then (jl_pwrctl mii True)
     (jl_then (jl_reset mii)
     (phy_check mii (RegRead IDR1) (\<lambda>id1.
      phy_check mii (RegRead IDR2) (\<lambda>id2 s. (s, chip_id_ok id1 id2))))))"

definition jl_deinit :: "mii \<Rightarrow> jl1101 \<Rightarrow> jl_result" where
  "jl_deinit mii = jl_pwrctl mii False"

definition jl_new :: "int \<Rightarrow> int \<Rightarrow> u32 \<Rightarrow> u32 \<Rightarrow> jl1101" where
  "jl_new addr reset_gpio reset_timeout_ms autonego_timeout_ms =
     \<lparr>jl_addr = addr, jl_reset_timeout_ms = reset_timeout_ms, jl_autonego_timeout_ms = autonego_timeout_ms,
      jl_link_up = False, jl_reset_gpio_num = reset_gpio, jl_trace = []\<rparr>"

definition jl_set_addr :: "int \<Rightarrow> jl1101 \<Rightarrow> jl1101" where
  "jl_set_addr addr s = s\<lparr>jl_addr := addr\<rparr>"

definition jl_get_addr :: "jl1101 \<Rightarrow> int" where
  "jl_get_addr s = jl_addr s"

subsection \<open>What the mediator is told\<close>

definition link_reports :: "mii_op list \<Rightarrow> bool list" where
  "link_reports ops = List.map_filter (\<lambda>op. case op of StateChanged (StateLink l) \<Rightarrow> Some l | _ \<Rightarrow> None) ops"

definition jl_new_ops :: "jl1101 \<Rightarrow> jl1101 \<Rightarrow> mii_op list" where
  "jl_new_ops s s' = drop (length (jl_trace s)) (jl_trace s')"

lemma jl_do_trace [simp]:
  "jl_trace (jl_do op s) = jl_trace s @ [op]" "jl_link_up (jl_do op s) = jl_link_up s"
  "jl_reset_timeout_ms (jl_do op s) = jl_reset_timeout_ms s"
  "jl_autonego_timeout_ms (jl_do op s) = jl_autonego_timeout_ms s" "jl_addr (jl_do op s) = jl_addr s"
  by (simp_all add: jl_do_def)

text \<open>
  The driver and the stack above it agree on the link. When a poll of the link succeeds, the
  driver's state is the link bit the PHY reported; the stack is told about it exactly when it
  changed, and of a link that comes up only after speed, duplex and pause were given. When the
  poll fails, the driver's state is unchanged, so the next poll reports the change again.\<close>

theorem link_change_reported:
  assumes "get_link mii s = (s', ok)"
  shows "(ok \<longrightarrow>
      (let link = bmsr_link_status (snd (mii (length (jl_trace s) + 1) (RegRead BMSR))) in
       jl_link_up s' = link \<and>
       link_reports (jl_new_ops s s') = (if link \<noteq> jl_link_up s then [link] else []) \<and>
       (link \<and> \<not> jl_link_up s \<longrightarrow> (\<exists>pre speed duplex pause. jl_new_ops s s' = pre @
         map StateChanged [StateSpeed speed, StateDuplex duplex, StatePause pause, StateLink True] \<and>
         (pause \<longrightarrow> duplex))))) \<and>
    (\<not> ok \<longrightarrow> jl_link_up s' = jl_link_up s)"
  using assms
  apply (simp add: get_link_def update_link_duplex_speed_def jl_then_def page_select_def phy_check_def
      report_link_def report_negotiated_def jl_ok_def Let_def split: prod.splits if_split_asm)
  apply (auto simp: jl_new_ops_def link_reports_def map_filter_def)
  done

theorem link_change_reported_witness:
  "jl_link_up (fst (get_link (\<lambda>_ op. (True, if op = RegRead BMSR then 4 else 0)) (jl_new 1 (- 1) 100 4000)))"
  using link_change_reported [of "\<lambda>_ op. (True, if op = RegRead BMSR then 4 else 0)" "jl_new 1 (- 1) 100 4000",
      OF surjective_pairing]
  by (simp add: get_link_def update_link_duplex_speed_def jl_then_def page_select_def phy_check_def
      report_link_def report_negotiated_def jl_ok_def jl_do_def jl_new_def bmsr_link_status_def
      BMSR_def ANLPAR_def BMCR_def PSR_def bit_numeral_rec Let_def)

subsection \<open>How long the loops take\<close>

definition slept :: "mii_op list \<Rightarrow> nat" where
  "slept ops = sum_list (map (\<lambda>op. case op of DelayMs n \<Rightarrow> n | _ \<Rightarrow> 0) ops)"

lemma slept_simps [simp]:
  "slept [] = 0" "slept (DelayMs n # ops) = n + slept ops" "slept (RegRead r # ops) = slept ops"
  "slept (RegWrite r v # ops) = slept ops" "slept (xs @ ys) = slept xs + slept ys"
  by (simp_all add: slept_def)

lemma poll_register_outcome:
  "poll_register mii ms reg P n s = (s', r) \<Longrightarrow>
   \<exists>ops. jl_trace s' = jl_trace s @ ops \<and> slept ops \<le> n * ms \<and> s' = s\<lparr>jl_trace := jl_trace s'\<rparr> \<and>
     (r = Some False \<longrightarrow> slept ops = n * ms) \<and>
     (r = Some True \<longrightarrow> n > 0 \<and> ops \<noteq> [] \<and> last ops = RegRead reg \<and>
       P (snd (mii (length (jl_trace s') - 1) (RegRead reg))))"
proof (induction n arbitrary: s)
  case (Suc n)
  let ?s1 = "jl_do (RegRead reg) (jl_do (DelayMs ms) s)"
  obtain ok v where m: "mii (length (jl_trace (jl_do (DelayMs ms) s))) (RegRead reg) = (ok, v)" by fastforce
  consider "\<not> ok" | "ok" "P v" | "ok" "\<not> P v" by blast
  then show ?case
  proof cases
    case 3
    then have p: "poll_register mii ms reg P n ?s1 = (s', r)" using Suc.prems m by (simp add: Let_def)
    from Suc.IH [OF this] obtain ops where o: "jl_trace s' = jl_trace ?s1 @ ops" "slept ops \<le> n * ms"
      "s' = ?s1\<lparr>jl_trace := jl_trace s'\<rparr>" "r = Some False \<longrightarrow> slept ops = n * ms"
      "r = Some True \<longrightarrow> n > 0 \<and> ops \<noteq> [] \<and> last ops = RegRead reg \<and>
        P (snd (mii (length (jl_trace s') - 1) (RegRead reg)))" by blast
    have "s' = s\<lparr>jl_trace := jl_trace s'\<rparr>" using o(3) by (simp add: jl_do_def)
    with o show ?thesis
      by (intro exI [of _ "[DelayMs ms, RegRead reg] @ ops"]) auto
  next
    case 1
    then have "s' = ?s1" "r = None" using Suc.prems m by (simp_all add: Let_def)
    then show ?thesis by (intro exI [of _ "[DelayMs ms, RegRead reg]"]) (simp add: jl_do_def)
  next
    case 2
    then have "s' = ?s1" "r = Some True" using Suc.prems m by (simp_all add: Let_def)
    with 2 m show ?thesis by (intro exI [of _ "[DelayMs ms, RegRead reg]"]) (simp add: jl_do_def)
  qed
qed auto

lemma attempts_bound: "0 < unat step \<Longrightarrow> attempts t step * unat step \<le> unat t"
  by (simp add: attempts_def unat_div div_times_less_eq_dividend)

lemma jl_new_ops_append: "jl_trace s' = jl_trace s @ ops \<Longrightarrow> jl_new_ops s s' = ops"
  by (simp add: jl_new_ops_def)

text \<open>
  A reset of the PHY returns within its time-out, marks the link down, and succeeds only when the
  PHY itself has cleared the reset bit. With a time-out below one polling step of 50 ms it always
  fails, even when the PHY was reset.\<close>

theorem reset_bounded:
  assumes "jl_reset mii s = (s', ok)"
  shows "slept (jl_new_ops s s') \<le> unat (jl_reset_timeout_ms s) \<and> \<not> jl_link_up s' \<and>
    (ok \<longrightarrow> \<not> bmcr_reset (snd (mii (length (jl_trace s') - 1) (RegRead BMCR)))) \<and>
    (jl_reset_timeout_ms s < 50 \<longrightarrow> \<not> ok)"
proof -
  let ?w = "RegWrite BMCR (push_bit 15 1)"
  let ?s0 = "s\<lparr>jl_link_up := False\<rparr>" and ?n = "attempts (jl_reset_timeout_ms s) 50"
  let ?P = "\<lambda>v. \<not> bmcr_reset v"
  obtain wok v where w: "mii (length (jl_trace s)) ?w = (wok, v)" by fastforce
  show ?thesis
  proof (cases wok)
    case False
    then have "s' = jl_do ?w ?s0" "\<not> ok" using assms w by (simp_all add: jl_reset_def phy_check_def)
    then show ?thesis by (simp add: jl_new_ops_def)
  next
    case True
    obtain t r where p: "poll_register mii 50 BMCR ?P ?n (jl_do ?w ?s0) = (t, r)" by fastforce
    then have s': "s' = t" "ok = (r = Some True)"
      using assms w True by (auto simp: jl_reset_def phy_check_def Let_def)
    from poll_register_outcome [OF p] obtain ops where o': "jl_trace t = jl_trace (jl_do ?w ?s0) @ ops"
      and o: "slept ops \<le> ?n * 50" "t = (jl_do ?w ?s0)\<lparr>jl_trace := jl_trace t\<rparr>"
        "r = Some True \<longrightarrow> ?n > 0 \<and> ?P (snd (mii (length (jl_trace t) - 1) (RegRead BMCR)))"
      by blast
    then have t: "jl_trace t = jl_trace s @ ?w # ops" by simp
    have "\<not> jl_link_up t" by (subst o(2)) (simp add: jl_do_def)
    moreover have "?n * 50 \<le> unat (jl_reset_timeout_ms s)"
      using attempts_bound [of 50 "jl_reset_timeout_ms s"] by simp
    moreover have "jl_reset_timeout_ms s < 50 \<longrightarrow> ?n = 0"
      by (simp add: attempts_def unat_div word_less_nat_alt)
    moreover have "slept (jl_new_ops s t) \<le> ?n * 50"
      using o(1) jl_new_ops_append [OF t] by simp
    ultimately show ?thesis using o(3) s' by auto
  qed
qed

theorem reset_bounded_witness:
  "\<not> snd (jl_reset (\<lambda>_ _. (True, 0)) (jl_new 1 (- 1) 40 4000)) \<and>
   snd (jl_reset (\<lambda>_ _. (True, 0)) (jl_new 1 (- 1) 100 4000))"
proof -
  have two: "attempts 100 50 = Suc (Suc 0)" by (simp add: attempts_def unat_div)
  have "\<not> snd (jl_reset (\<lambda>_ _. (True, 0)) (jl_new 1 (- 1) 40 4000))"
    using reset_bounded [of "\<lambda>_ _. (True, 0)" "jl_new 1 (- 1) 40 4000", OF surjective_pairing]
    by (simp add: jl_new_def)
  moreover have "snd (jl_reset (\<lambda>_ _. (True, 0)) (jl_new 1 (- 1) 100 4000))"
    by (simp add: jl_reset_def phy_check_def jl_new_def two bmcr_reset_def Let_def jl_do_def)
  ultimately show ?thesis by blast
qed

text \<open>
  Start-up succeeds only for the right chip, and stopping only when the PHY confirms that it is
  powered down.\<close>

theorem init_checks_chip:
  "jl_init mii s = (s', True) \<Longrightarrow>
   \<exists>ops. jl_trace s' = ops @ [RegRead IDR1, RegRead IDR2] \<and>
     chip_id_ok (snd (mii (length ops) (RegRead IDR1))) (snd (mii (length ops + 1) (RegRead IDR2)))"
  by (auto simp: jl_init_def detect_addr_def jl_then_def phy_check_def Let_def
      split: prod.splits if_split_asm)

theorem deinit_confirmed:
  "jl_deinit mii s = (s', True) \<Longrightarrow>
   bmcr_power_down (snd (mii (length (jl_trace s') - 1) (RegRead BMCR)))"
  by (auto simp: jl_deinit_def jl_pwrctl_def phy_check_def Let_def split: prod.splits if_split_asm)

end
