(* ===== verification/PortableClock.thy ===== *)
theory PortableClock
  imports PpsClock
begin

text \<open>
  The branches of \<open>apply_pps_correction_\<close> in \<open>components/gps_pps_time/gps_pps_time.cpp\<close> for platforms
  without \<open>adjtime\<close>: the clock is set at every edge, a little early or late so that the crystal's
  error over the coming second is compensated, and the compensation is learned. The state is that
  of the component with \<open>drift_compensation_us_\<close> beside it; no anchor is ever published here.
\<close>

definition set_pps_time :: "int \<Rightarrow> u32 \<Rightarrow> u32 \<Rightarrow> int \<Rightarrow> timeval" where
  "set_pps_time epoch pps_micros now_micros compensation_us =
     (let elapsed_us = i32 (now_micros - pps_micros);
          adjusted_us = elapsed_us - compensation_us in
      \<lparr>tv_sec = epoch, tv_usec = (if adjusted_us > 0 then adjusted_us else 0)\<rparr>)"

definition learn_compensation :: "int \<Rightarrow> int \<Rightarrow> int \<Rightarrow> int" where
  "learn_compensation latency last_drift_us c =
     (if latency = 0 \<and> last_drift_us > - 50 \<and> last_drift_us < 50 then c + last_drift_us sdiv 4 else c)"

definition portable_discipline ::
  "u32 \<Rightarrow> int \<Rightarrow> int \<Rightarrow> u32 \<Rightarrow> gps_pps \<times> int \<Rightarrow> (gps_pps \<times> int) \<times> clock_action list" where
  "portable_discipline pps_micros corrected_epoch latency now_micros x = (case x of (s, c) \<Rightarrow>
     if \<not> gp_pps_synced s then
       ((s\<lparr>gp_last_drift_us := 0, gp_pps_synced := True\<rparr>, c),
        [Settimeofday (set_pps_time corrected_epoch pps_micros now_micros 0)])
     else if gp_last_drift_us s > 2000000 \<or> gp_last_drift_us s < - 2000000 then ((reset_sync s, c), [])
     else if gp_last_drift_us s > 100000 \<or> gp_last_drift_us s < - 100000 then
       ((s\<lparr>gp_last_drift_us := 0, gp_drift_mean_x256 := 0\<rparr>, c),
        [Settimeofday (set_pps_time corrected_epoch pps_micros now_micros 0)])
     else
       ((s, learn_compensation latency (gp_last_drift_us s) c),
        [Settimeofday (set_pps_time corrected_epoch pps_micros now_micros (c - latency))]))"

text \<open>
  One second of the loop with a crystal that gains \<open>d\<close> us per second: the clock set \<open>elapsed\<close> us
  after an edge with compensation \<open>c\<close> is off by this much at the next edge, and that is the drift
  the next edge measures.
\<close>

definition drift_at_next_edge :: "int \<Rightarrow> u32 \<Rightarrow> u32 \<Rightarrow> int \<Rightarrow> int" where
  "drift_at_next_edge d pps_micros now_micros c =
     tv_usec (set_pps_time 0 pps_micros now_micros c) - i32 (now_micros - pps_micros) + d"

definition portable_second :: "int \<Rightarrow> int \<Rightarrow> u32 \<times> u32 \<Rightarrow> int" where
  "portable_second d c edge = learn_compensation 0 (drift_at_next_edge d (fst edge) (snd edge) c) c"

lemma next_drift:
  "c < i32 (now - edge) \<Longrightarrow> drift_at_next_edge d edge now c = d - c"
  by (simp add: drift_at_next_edge_def set_pps_time_def Let_def)

interpretation compensation: ewma "div_step 4" "\<lambda>_. True" 4 4
  using div_step_hull [of 4] div_step_rises [of 4] div_step_falls [of 4] div_step_rests [of 4]
  by unfold_locales auto

lemma portable_second_step:
  "\<bar>d - c\<bar> < 50 \<Longrightarrow> c < i32 (snd e - fst e) \<Longrightarrow> portable_second d c e = div_step 4 c d"
  by (auto simp: portable_second_def next_drift learn_compensation_def div_step_def)

lemma compensation_hull: "min c d \<le> div_step 4 c d \<and> div_step 4 c d \<le> max c d"
  by (rule div_step_hull) simp

text \<open>
  The portable discipline converges. As long as the loop gets to each edge later than the
  compensation in use, a constant crystal error below 50 us per second, learned from zero, is
  compensated to 3 us after at most 50 edges, and stays so.\<close>

theorem portable_drift_settles:
  assumes d: "\<bar>d\<bar> < 50" and edges: "\<forall>(edge, now) \<in> set es. 50 \<le> i32 (now - edge)"
    and enough: "50 \<le> length es"
  shows "\<bar>d - foldl (portable_second d) 0 es\<bar> \<le> 3"
proof -
  have step: "foldl (portable_second d) c es = foldl (div_step 4) c (replicate (length es) d) \<and>
      min 0 d \<le> foldl (portable_second d) c es \<and> foldl (portable_second d) c es \<le> max 0 d"
    if "min 0 d \<le> c" "c \<le> max 0 d" "\<forall>(edge, now) \<in> set es. 50 \<le> i32 (now - edge)" for c es
    using that
  proof (induction es arbitrary: c)
    case (Cons e es)
    have "c < i32 (snd e - fst e)" "\<bar>d - c\<bar> < 50"
      using Cons.prems d by (auto split: prod.splits)
    then have s: "portable_second d c e = div_step 4 c d" by (intro portable_second_step)
    have "min 0 d \<le> div_step 4 c d" "div_step 4 c d \<le> max 0 d"
      using compensation_hull [of c d] Cons.prems(1,2) by linarith+
    with Cons.IH [of "div_step 4 c d"] Cons.prems(3) s show ?case by simp
  qed simp
  have "compensation.settled d (foldl (div_step 4) 0 (replicate (length es) d))"
    using d enough by (intro compensation.converges) auto
  with step [of 0 es] edges show ?thesis
    by (simp add: compensation.settled_def) linarith
qed

theorem portable_drift_settles_witness:
  "\<bar>20 - foldl (portable_second 20) 0 (replicate 60 (1000, 2000))\<bar> \<le> 3"
  by (rule portable_drift_settles) (simp_all add: i32_def)

text \<open>
  A loop that reaches the edge a second or more late sets the clock to an invalid time: the
  microseconds that \<open>settimeofday\<close> gets are a million or more.\<close>

theorem late_loop_sets_invalid_time:
  assumes "i32 (now - edge) - c \<ge> 1000000"
  shows "tv_usec (set_pps_time epoch edge now c) \<ge> 1000000"
  using assms by (simp add: set_pps_time_def Let_def)

end
