(* ===== verification/SpiLifecycle.thy ===== *)
theory SpiLifecycle
  imports Prelude
begin

text \<open>
  \<open>w5500_custom_spi_init\<close> and \<open>w5500_custom_spi_deinit\<close> of \<open>components/ethernet/w5500_custom_spi.cpp\<close>:
  what the custom SPI driver allocates and frees, and the global \<open>g_spi_ctx\<close> through which the
  INTLEVEL accesses reach the bus from outside the driver's callbacks. Whether an allocation
  succeeds is an input.
\<close>

text \<open>The context with this number, its device on the bus, its lock.\<close>

datatype spi_resource = SpiContext nat | SpiDevice nat | SpiLock nat

record spi_world =
  sw_live :: "spi_resource list"
  sw_next :: nat
  sw_g_spi_ctx :: "nat option"

record spi_allocs =
  al_context :: bool
  al_device :: bool
  al_lock :: bool

definition acquire :: "spi_resource \<Rightarrow> spi_world \<Rightarrow> spi_world" where
  "acquire x w = w\<lparr>sw_live := x # sw_live w\<rparr>"

definition release :: "spi_resource \<Rightarrow> spi_world \<Rightarrow> spi_world" where
  "release x w = w\<lparr>sw_live := remove1 x (sw_live w)\<rparr>"

definition w5500_custom_spi_init :: "spi_allocs \<Rightarrow> spi_world \<Rightarrow> spi_world \<times> nat option" where
  "w5500_custom_spi_init al w =
     (let n = sw_next w in
      if \<not> al_context al then (w, None)
      else
        let w = acquire (SpiContext n) (w\<lparr>sw_next := n + 1\<rparr>) in
        if \<not> al_device al then (release (SpiContext n) w, None)
        else
          let w = acquire (SpiDevice n) w in
          if \<not> al_lock al then (release (SpiContext n) (release (SpiDevice n) w), None)
          else ((acquire (SpiLock n) w)\<lparr>sw_g_spi_ctx := Some n\<rparr>, Some n))"

definition w5500_custom_spi_deinit :: "nat \<Rightarrow> spi_world \<Rightarrow> spi_world" where
  "w5500_custom_spi_deinit ctx w =
     (let w = (if sw_g_spi_ctx w = Some ctx then w\<lparr>sw_g_spi_ctx := None\<rparr> else w) in
      release (SpiContext ctx) (release (SpiLock ctx) (release (SpiDevice ctx) w)))"

text \<open>The driver deinitialises a context it got from \<open>init\<close> and has not deinitialised yet.\<close>

inductive spi_reachable :: "spi_world \<Rightarrow> bool" where
  boot: "spi_reachable \<lparr>sw_live = [], sw_next = 0, sw_g_spi_ctx = None\<rparr>"
| init: "spi_reachable w \<Longrightarrow> spi_reachable (fst (w5500_custom_spi_init al w))"
| deinit: "spi_reachable w \<Longrightarrow> SpiContext ctx \<in> set (sw_live w) \<Longrightarrow>
    spi_reachable (w5500_custom_spi_deinit ctx w)"

text \<open>Each live context comes with its device and its lock, and each of them once.\<close>

definition spi_inv :: "spi_world \<Rightarrow> bool" where
  "spi_inv w \<longleftrightarrow> distinct (sw_live w) \<and>
     (\<forall>n. (SpiContext n \<in> set (sw_live w) \<longleftrightarrow> SpiDevice n \<in> set (sw_live w)) \<and>
          (SpiContext n \<in> set (sw_live w) \<longleftrightarrow> SpiLock n \<in> set (sw_live w)) \<and>
          (SpiContext n \<in> set (sw_live w) \<longrightarrow> n < sw_next w)) \<and>
     (\<forall>n. sw_g_spi_ctx w = Some n \<longrightarrow> SpiContext n \<in> set (sw_live w))"

lemma init_inv: "spi_inv w \<Longrightarrow> spi_inv (fst (w5500_custom_spi_init al w))"
  unfolding spi_inv_def w5500_custom_spi_init_def Let_def acquire_def release_def
  by (auto simp: less_Suc_eq)

lemma deinit_inv: "spi_inv w \<Longrightarrow> spi_inv (w5500_custom_spi_deinit ctx w)"
  unfolding spi_inv_def w5500_custom_spi_deinit_def Let_def release_def
  by (auto simp: distinct_remove1)

lemma spi_reachable_inv: "spi_reachable w \<Longrightarrow> spi_inv w"
proof (induction rule: spi_reachable.induct)
  case boot
  show ?case by (simp add: spi_inv_def)
qed (simp_all add: init_inv deinit_inv)

text \<open>
  The driver leaks nothing and leaves nothing dangling: \<open>g_spi_ctx\<close> is null or a context whose
  device and lock are alive; a failed \<open>init\<close> leaves every allocation and \<open>g_spi_ctx\<close> as they were;
  and \<open>deinit\<close> of what \<open>init\<close> returned gives everything back.
\<close>

theorem spi_driver_leaks_nothing:
  assumes r: "spi_reachable w"
  shows "(\<forall>n. sw_g_spi_ctx w = Some n \<longrightarrow> {SpiContext n, SpiDevice n, SpiLock n} \<subseteq> set (sw_live w)) \<and>
    (case w5500_custom_spi_init al w of
       (w', None) \<Rightarrow> sw_live w' = sw_live w \<and> sw_g_spi_ctx w' = sw_g_spi_ctx w
     | (w', Some n) \<Rightarrow> sw_g_spi_ctx w' = Some n \<and> sw_live (w5500_custom_spi_deinit n w') = sw_live w \<and>
         sw_g_spi_ctx (w5500_custom_spi_deinit n w') = None)"
proof -
  have "spi_inv w" using r by (rule spi_reachable_inv)
  then show ?thesis
    by (auto simp: spi_inv_def w5500_custom_spi_init_def w5500_custom_spi_deinit_def Let_def
        acquire_def release_def)
qed

theorem spi_driver_leaks_nothing_witness:
  "sw_live (w5500_custom_spi_deinit 0 (fst (w5500_custom_spi_init \<lparr>al_context = True, al_device = True, al_lock = True\<rparr>
     \<lparr>sw_live = [], sw_next = 0, sw_g_spi_ctx = None\<rparr>))) = []"
  using spi_driver_leaks_nothing [OF spi_reachable.boot, of "\<lparr>al_context = True, al_device = True, al_lock = True\<rparr>"]
  by (simp add: w5500_custom_spi_init_def Let_def acquire_def)

end
