(* ===== verification/TimeTransfer.thy ===== *)
theory TimeTransfer
  imports Server PpsClock
begin

text \<open>
  From the pulse to the reply: the GPS component and the server together. The anchor that
  \<open>gps_pps_time\<close> publishes at a pulse is the one from which \<open>ntp_server\<close> dates a request, so the times
  in the reply can be compared with the true ones, counted from the pulse itself.
\<close>

text \<open>
  A disciplined pulse, \<open>k\<close> seconds after the last one, at the reading \<open>pps\<close> of the microsecond counter:
  the interrupt is accepted, the loop handles it \<open>delay\<close> microseconds later with satellites in view, the
  component is synchronised and the system clock, taken back to the pulse, is within 100 ms.
\<close>

definition disciplined_pulse :: "gps_pps \<Rightarrow> pps_reads \<Rightarrow> int \<Rightarrow> int \<Rightarrow> int \<Rightarrow> bool" where
  "disciplined_pulse g r pps delay k \<longleftrightarrow>
     (let interval = to_u32 pps - gp_prev_pps_micros g; second = gp_last_gps_epoch g + k in
      gps_reachable g \<and> gp_pps_synced g \<and> gp_pps_count g \<noteq> 0 \<and> gp_last_gps_epoch g \<noteq> 0 \<and> second \<noteq> 0 \<and>
      (gp_satellite_count g \<noteq> 0 \<or> gsv_total g \<noteq> 0) \<and>
      (gp_isr_anchor_micros g = 0 \<or> 900000 \<le> to_u32 pps - gp_isr_anchor_micros g) \<and>
      pr_micros r = to_u32 (pps + delay) \<and> 0 \<le> delay \<and> delay < 2147483648 \<and>
      0 \<le> pps \<and> pps < 18446744073709551616 \<and>
      \<bar>uint interval - k * 1000000\<bar> < 500000 \<and> uint interval + 500000 < 4294967296 \<and>
      \<bar>tv_sec (pr_tv r) * 1000000 + tv_usec (pr_tv r) - delay - isr_latency interval - second * 1000000\<bar> \<le> 100000)"

definition after_pulse :: "gps_pps \<Rightarrow> pps_reads \<Rightarrow> int \<Rightarrow> gps_pps \<times> clock_action list" where
  "after_pulse g r pps = gps_loop r None (pps_isr (to_u32 pps) g)"

definition anchor_after :: "gps_pps \<Rightarrow> pps_reads \<Rightarrow> int \<Rightarrow> pps_anchor option" where
  "anchor_after g r pps = get_pps_anchor_now (gp_anchor (fst (after_pulse g r pps)))"

text \<open>
  What the crystal does: in \<open>tau\<close> true microseconds the counter, whose rate error is
  \<open>rho\<close> ppb, has advanced by \<open>ticks\<close>, read to within a microsecond.
\<close>

definition counted :: "int \<Rightarrow> int \<Rightarrow> int \<Rightarrow> bool" where
  "counted rho ticks tau \<longleftrightarrow> 0 \<le> tau \<and> \<bar>ticks * 1000000000 - tau * (1000000000 + rho)\<bar> \<le> 1000000000"

lemma pulse_is_measured:
  assumes "disciplined_pulse g r pps delay k"
  shows "after_pulse g r pps =
    measure_edge (to_u32 pps) (tv_sec (pr_tv r) * 1000000 + tv_usec (pr_tv r) - delay)
      (g\<lparr>gp_last_pps_micros := to_u32 pps, gp_isr_anchor_micros := to_u32 pps, gp_pps_flag := False,
         gp_pps_count := gp_pps_count g + 1, gp_last_pps_millis := pr_millis r\<rparr>)"
proof -
  note p = assms [unfolded disciplined_pulse_def Let_def]
  have "gp_gps_time_valid g" using p gps_reachable_inv by (auto simp: gps_inv_def sync_inv_def)
  moreover have "i32 (pr_micros r - to_u32 pps) = delay"
    using p to_i32_id [of delay] i32_to_u32 [of delay] by (simp add: to_u32_def)
  moreover have "gp_pps_count g + 1 \<noteq> 1" using p by simp
  ultimately show ?thesis
    using p by (auto simp: after_pulse_def gps_loop_def apply_pps_correction_def pps_isr_def gsv_total_def Let_def not_less)
qed

lemma anchor_after_pulse:
  assumes "disciplined_pulse g r pps delay k"
  shows "\<exists>a. anchor_after g r pps = Some a \<and> pa_epoch a = gp_last_gps_epoch g + k \<and>
    pa_micros a = to_u32 pps \<and> \<bar>pa_drift_ppb a\<bar> < 100000"
proof -
  let ?g = "g\<lparr>gp_last_pps_micros := to_u32 pps, gp_isr_anchor_micros := to_u32 pps, gp_pps_flag := False,
     gp_pps_count := gp_pps_count g + 1, gp_last_pps_millis := pr_millis r\<rparr>"
  note p = assms [unfolded disciplined_pulse_def Let_def]
  have "gps_inv g" using p gps_reachable_inv by blast
  then have "gps_inv ?g" by (simp add: gps_inv_defs)
  then show ?thesis
    using edge_publishes_anchor [of ?g pps k "tv_sec (pr_tv r) * 1000000 + tv_usec (pr_tv r) - delay"] p
    by (auto simp: anchor_after_def pulse_is_measured [OF assms] case_prod_beta Let_def)
qed

lemma served_is_true:
  fixes a :: pps_anchor
  assumes "pa_micros a = to_u32 pps" "\<bar>pa_drift_ppb a\<bar> < 100000" "pps \<le> i" "i \<le> pps + 2000000"
    and "counted rho (i - pps) tau" "\<bar>rho - pa_drift_ppb a\<bar> \<le> 500"
  shows "\<bar>pa_epoch a * 1000000 + undrift (i - pps) (pa_drift_ppb a) - (pa_epoch a * 1000000 + tau)\<bar> \<le> 3"
proof -
  note c = assms(5) [unfolded counted_def]
  have d: "\<bar>pa_drift_ppb a\<bar> < 100000" "\<bar>rho\<bar> \<le> 100500" using assms(2,6) by linarith+
  have tau: "tau \<le> 2001500"
  proof (rule ccontr)
    assume "\<not> tau \<le> 2001500"
    then have "2001501 * (1000000000 - 100500) \<le> tau * (1000000000 + rho)"
      using d by (intro mult_mono) auto
    moreover have "tau * (1000000000 + rho) \<le> (i - pps) * 1000000000 + 1000000000"
      using c unfolding abs_le_iff by (simp add: algebra_simps)
    ultimately show False using assms(4) by simp
  qed
  have "\<bar>tau * (rho - pa_drift_ppb a)\<bar> \<le> 2001500 * 500"
    unfolding abs_mult using tau c assms(6) by (intro mult_mono) auto
  moreover have "tau * (1000000000 + rho) = tau * (1000000000 + pa_drift_ppb a) + tau * (rho - pa_drift_ppb a)"
    by (simp add: algebra_simps)
  ultimately have "\<bar>(i - pps) * 1000000000 - tau * (1000000000 + pa_drift_ppb a)\<bar> \<le> 2 * 1000000000 + 2000000"
    using c by linarith
  with assms(1-4) c show ?thesis
    using anchor_time_near [of a pps i tau 2] by force
qed

text \<open>
  C1: GPS time on the wire, to within the latency of the pulse's interrupt. In any reachable state of both
  components, let the pulse that marks a true second be taken by the interrupt, whose counter reading comes
  \<open>lat\<close> true microseconds after the pulse, and let the loop discipline the clock by it. Let a request come in within two
  seconds of that reading, with the server synchronised, its corrections on and the request's interrupt edge captured, and let hook and
  serving task both read the anchor of this pulse. The server answers the request. As long as the crystal is
  within 500 ppb of the published rate, the receive time of the reply is the true time of the request's first bit
  (the edge less the frame's duration and the chip's latency) less \<open>lat\<close>, to within 3 us; its transmit time
  is the true time at which it was computed less \<open>lat\<close>, to within 3 us, plus the predicted way to the SEND; and both are in order.
  \<open>tau2\<close> and \<open>tau3\<close> count from the pulse, not from its interrupt. The component measures the latency of a late
  interrupt (\<open>isr_latency\<close>) but publishes the anchor at the interrupt's reading, so that \<open>lat\<close> goes into every reply in full.\<close>

theorem gps_time_on_the_wire:
  assumes pulse: "disciplined_pulse g r pps delay k"
    and request: "server_reachable port (s, w)" "request_captured s w f u n edge burst t v"
    and anchor: "ck_anchor (rv_at_hook v) = anchor_after g r pps" "rp_anchor (rv_reply v) = anchor_after g r pps"
    and order: "pps \<le> arrival_instant f edge" "arrival_instant f edge \<le> rp_clock_us (rv_reply v)"
      "rp_clock_us (rv_reply v) \<le> pps + 2000000"
    and crystal: "counted rho (arrival_instant f edge - pps) (tau2 - lat)"
      "counted rho (rp_clock_us (rv_reply v) - pps) (tau3 - lat)"
      "\<forall>a. anchor_after g r pps = Some a \<longrightarrow> \<bar>rho - pa_drift_ppb a\<bar> \<le> 500"
  shows "\<exists>s1 b s' x2 x3. eth_input_hook t w f s = Some (s1, f) \<and> recv_iteration v s1 = Some (Served b, s') \<and>
    field_at 24 8 b = take 8 (drop (n + 40) f) \<and>
    reply_time 32 b = micros_epoch_to_ntp_timestamp x2 \<and> reply_time 40 b = micros_epoch_to_ntp_timestamp x3 \<and>
    \<bar>x2 - ((gp_last_gps_epoch g + k) * 1000000 + tau2 - lat)\<bar> \<le> 3 \<and>
    \<bar>x3 - ((gp_last_gps_epoch g + k) * 1000000 + tau3 - lat + t3_offset_us s)\<bar> \<le> 3 \<and> x2 \<le> x3"
proof -
  obtain a where a: "anchor_after g r pps = Some a" "pa_epoch a = gp_last_gps_epoch g + k"
    "pa_micros a = to_u32 pps" "\<bar>pa_drift_ppb a\<bar> < 100000" using anchor_after_pulse [OF pulse] by blast
  have rho: "\<bar>rho - pa_drift_ppb a\<bar> \<le> 500" using crystal(3) a(1) by simp
  let ?x2 = "pa_epoch a * 1000000 + undrift (arrival_instant f edge - pps) (pa_drift_ppb a)"
  let ?x3 = "pa_epoch a * 1000000 + undrift (rp_clock_us (rv_reply v) - pps) (pa_drift_ppb a)"
  have "\<bar>?x2 - (pa_epoch a * 1000000 + (tau2 - lat))\<bar> \<le> 3" "\<bar>?x3 - (pa_epoch a * 1000000 + (tau3 - lat))\<bar> \<le> 3"
    using order by (intro served_is_true [OF a(3,4) _ _ crystal(1) rho] served_is_true [OF a(3,4) _ _ crystal(2) rho]; linarith)+
  moreover have anchors: "ck_anchor (rv_at_hook v) = Some a" "rp_anchor (rv_reply v) = Some a"
    using anchor a(1) by simp_all
  moreover note captured_request_served [OF request anchors refl a(3) order]
  ultimately show ?thesis
    unfolding a(2) [symmetric] Let_def
    by (elim exE conjE) (intro exI [of _ ?x2] exI [of _ "?x3 + t3_offset_us s"] exI conjI; (assumption | linarith))
qed

text \<open>A concrete pulse, late in the counter's range: the fourth of a reachable run, whose interrupt
  comes 4 us late: the first bit of the request is on the wire 65980 us after the pulse.\<close>

definition late_third :: gps_pps where
  "late_third = edge_at 4293900000 1800000002 (edge_at 4292900000 1800000001 (edge_at 4291900000 1800000000
     (fst (on_update first_fix \<lparr>tv_sec = 0, tv_usec = 0\<rparr> \<lparr>tv_sec = 0, tv_usec = 0\<rparr> gps_init))))"

definition late_reads :: pps_reads where
  "late_reads = \<lparr>pr_tv = \<lparr>tv_sec = 1800000003, tv_usec = 32\<rparr>, pr_micros = 4294900020, pr_millis = 4294900, pr_millis2 = 0\<rparr>"

lemma late_third_state:
  "gp_pps_synced late_third" "gp_last_gps_epoch late_third = 1800000002" "gp_prev_pps_micros late_third = 4293900000"
  "gp_isr_anchor_micros late_third = 4293900000" "gp_pps_count late_third = 3" "gp_satellite_count late_third = 9"
  "anchor_after late_third late_reads 4294900000 =
    Some \<lparr>pa_epoch = 1800000003, pa_micros = to_u32 4294900000, pa_drift_ppb = 0\<rparr>"
  by code_simp+

lemma late_pulse: "disciplined_pulse late_third late_reads 4294900000 20 1"
proof -
  have "gps_reachable late_third"
    unfolding late_third_def
    by (intro edge_at_reachable gps_reachable.Step [OF gps_reachable.Init gps_step.Nmea])
  moreover have "to_u32 4294900000 - (4293900000 :: u32) = 1000000" by code_simp
  moreover have "isr_latency 1000000 = 0" by code_simp
  moreover have "pr_micros late_reads = to_u32 (4294900000 + 20)" by code_simp
  ultimately show ?thesis by (simp add: disciplined_pulse_def Let_def late_third_state late_reads_def)
qed

theorem gps_time_on_the_wire_witness:
  "\<exists>s w v s1 b s' x2 x3. server_reachable 123 (s, w) \<and>
    eth_input_hook 4294966400 w wire_request s = Some (s1, wire_request) \<and> recv_iteration v s1 = Some (Served b, s') \<and>
    reply_time 32 b = micros_epoch_to_ntp_timestamp x2 \<and> reply_time 40 b = micros_epoch_to_ntp_timestamp x3 \<and>
    \<bar>x2 - 1800000003065976\<bar> \<le> 3 \<and> \<bar>x3 - (1800000003067800 + t3_offset_us s)\<bar> \<le> 3 \<and> x2 \<le> x3"
proof -
  obtain s w where req: "server_reachable 123 (s, w)" and cap: "\<And>c r. request_captured s w wire_request 34 42 4294966000
     4294966020 4294966400 (wire_reads\<lparr>rv_at_hook := c, rv_reply := r\<rparr>)" using wire_captured by blast
  let ?a = "anchor_after late_third late_reads 4294900000"
  let ?v = "wire_reads\<lparr>rv_at_hook := (rv_at_hook wire_reads)\<lparr>ck_anchor := ?a\<rparr>,
    rv_reply := (rv_reply wire_reads)\<lparr>rp_anchor := ?a, rp_clock_us := 4294967800\<rparr>\<rparr>"
  have i: "arrival_instant wire_request 4294966000 = 4294965976" by code_simp
  have "\<exists>s1 b s' x2 x3. eth_input_hook 4294966400 w wire_request s = Some (s1, wire_request) \<and>
    recv_iteration ?v s1 = Some (Served b, s') \<and>
    field_at 24 8 b = take 8 (drop (42 + 40) wire_request) \<and>
    reply_time 32 b = micros_epoch_to_ntp_timestamp x2 \<and> reply_time 40 b = micros_epoch_to_ntp_timestamp x3 \<and>
    \<bar>x2 - ((gp_last_gps_epoch late_third + 1) * 1000000 + 65980 - 4)\<bar> \<le> 3 \<and>
    \<bar>x3 - ((gp_last_gps_epoch late_third + 1) * 1000000 + 67804 - 4 + t3_offset_us s)\<bar> \<le> 3 \<and> x2 \<le> x3"
    by (rule gps_time_on_the_wire [OF late_pulse req cap, where rho = 100])
      (simp_all add: i counted_def late_third_state)
  with req show ?thesis unfolding late_third_state by (simp add: add.assoc) blast
qed

end
