(* ===== verification/Spec2Isabelle.thy ===== *)
theory Spec2Isabelle
  imports ServerTypes DiagRead DiagRace WindowRace StampRaces PortableServer GpsTelemetry EthRuns Rp2Config Jl1101 
    PortableClock SpiLifecycle TimeTransfer
begin

text \<open>
  Verification of the GPS/PPS disciplined NTP server (ESPHome components \<open>gps_pps_time\<close>,
  \<open>ntp_server\<close> and \<open>ethernet\<close>, all under \<open>src/components/\<close>).

  \<^bold>\<open>The program.\<close> A GPS receiver delivers NMEA sentences and one pulse per second. \<open>gps_pps_time\<close>
  stamps each pulse in an interrupt, disciplines the system clock at every pulse and publishes an
  anchor (epoch, microsecond reading, crystal rate) through a seqlock. \<open>ntp_server\<close> has three tasks:
  the Ethernet driver's task, whose input hook dates every request at the interrupt edge of the
  W5500 chip and records it in a ring; the serving task, which receives a request, looks its arrival
  up, refuses what it cannot vouch for, waits for the client's ARP entry, builds the reply and sends
  it; and the main loop, which keeps ARP entries warm, looks after the chip's interrupt wait,
  publishes telemetry and answers on a diagnostics port. \<open>ethernet\<close> installs custom SPI callbacks
  for the W5500 that stamp receive reads and SEND commands, and rewrite the transmit time of a
  reply that lies in the chip's buffer right before it is sent; the component itself is a
  connection state machine over the events of ESP-IDF (or over polling, on RP2040).

  \<^bold>\<open>Theories, bottom up.\<close>

  \<^item> \<open>Prelude\<close>: machine integer types, casts, collections of simplification rules.
  \<^item> \<open>Ewma\<close>: the contract of the integer smoothing filters, a locale; interpreted on the filters of
    \<open>SendEstimator\<close>, \<open>TxPatch\<close>, \<open>PpsClock\<close> and \<open>PortableClock\<close>.
  \<^item> \<open>Seqlock\<close>: the contract of a single-writer sequence lock under every interleaving of stores and
    loads, a locale; interpreted on the slot of the hook ring, the PPS anchor and the
    slot of the diagnostics ring (\<open>DiagRace\<close>). \<open>WindowRace\<close>: the telemetry windows under concurrency.
  \<^item> \<open>Ring\<close>: the contract of an overwriting ring, a locale; interpreted on the hook ring, the list of
    recent ARP clients and the diagnostics ring.
  \<^item> \<open>Bytes\<close>: bounds-checked big-endian reads of a frame; \<open>None\<close> is a read out of bounds.
  \<^item> \<open>SendEstimator\<close> (\<open>send_estimator.h\<close>), \<open>RxAdmission\<close> (\<open>rx_admission.h\<close>), \<open>Deadman\<close>
    (\<open>deadman.h\<close>), \<open>TalkerTable\<close> (\<open>w5500_talker_table.h\<close>), \<open>ArpWait\<close> (\<open>arp_wait.h\<close> and the client
    list of \<open>ntp_server.cpp\<close>), \<open>HookRing\<close> (\<open>hook_ring.h\<close>): the self-contained headers.
  \<^item> \<open>TxPatch\<close> (\<open>ntp_tx_patch.h\<close>): which bytes of a queued reply are its T3 and checksum, the
    incremental checksum, the writes into the ring memory, the patch-delay estimator.
  \<^item> \<open>PpsAnchor\<close>, \<open>PpsClock\<close> (\<open>gps_pps_time.{h,cpp}\<close>): the anchor; interrupt, capture, correction,
    NMEA updates, health. \<open>GpsTelemetry\<close>: the crash context and what \<open>update\<close> publishes.
    \<open>PortableClock\<close>: the branches for platforms without \<open>adjtime\<close>.
  \<^item> \<open>NtpTime\<close> (\<open>ntp_server.{h,cpp}\<close>): conversions between clocks and NTP time.
  \<^item> \<open>NetRecorder\<close>, \<open>W5500Spi\<close> (\<open>w5500_custom_spi.{h,cpp}\<close>): frame classes and bins; the SPI
    callbacks with the chip's memory as part of the state. \<open>SpiLifecycle\<close>: what the SPI driver
    allocates and frees. \<open>HwCapture\<close>: how the capture channels of the two interrupt pins are armed.
    \<open>StampRaces\<close>: the driver's stamps, which have no lock, store by store and load by load.
  \<^item> \<open>ServerState\<close>, \<open>RxHook\<close>, \<open>NtpResponse\<close>, \<open>RecvTask\<close>, \<open>IntLevel\<close> (\<open>ntp_server.{h,cpp}\<close>): the
    state record, \<open>eth_input_hook_\<close>, \<open>build_ntp_response_\<close> and \<open>build_patch_t3_\<close>, one iteration of
    \<open>recv_task_\<close>, \<open>set_short_int_wait\<close> and the parts of \<open>loop\<close> that look after it.
  \<^item> \<open>Printf\<close>, \<open>DiagPort\<close>: \<open>diag_serve_\<close> with the text it prints. \<open>DiagRead\<close>: a reader of the dump.
  \<^item> \<open>MainLoop\<close>: \<open>setup\<close> and \<open>loop\<close>. \<open>Server\<close>: the composition of hook, serving task, main loop and
    switches as a step relation, and its invariants. \<open>TimeTransfer\<close>: GPS component and server together, from
    the pulse to the reply. \<open>NetTypes\<close>, \<open>ServerTypes\<close>: the types of the
    state and the sizes of its tables, preserved by every step, and the answer to a command.
  \<^item> \<open>PortableServer\<close>: set-up, loop and reply on platforms without the serving task.
  \<^item> \<open>EthLink\<close>, \<open>EthEsp32\<close>, \<open>EthRuns\<close>, \<open>EthRp2\<close> (\<open>ethernet_component*\<close>): the state machine both
    platforms share and the contract of its triggers, a locale interpreted on both components;
    the ESP-IDF component, its runs, and the RP2040 component. \<open>EthConfig\<close>, \<open>Rp2Config\<close>: pins, what
    the drivers are told, \<open>dump_config\<close> and the queries, for each platform. \<open>Jl1101\<close>
    (\<open>esp_eth_phy_jl1101.c\<close>): the PHY driver.

  \<^bold>\<open>State and operations.\<close> A class is a record with the class's members as fields, named after them
  behind a prefix of the component (\<open>gp_\<close>, \<open>sv_\<close>, \<open>w_\<close>, \<open>ec_\<close> and so on); a method is a function
  on the record with the method's name, where necessary with a prefix. Clock readings, results of
  SPI transfers, socket calls, lwIP's ARP cache and the SDK's answers are arguments; what the
  program does to the outside (clock actions, datagrams, SDK calls, triggers) is returned or
  appended to a trace. \<open>uint32_t\<close> and narrower unsigned values are words and wrap; signed values are
  integers whose range is a lemma where it matters.

  \<^bold>\<open>What is shown.\<close> Per component: exact behaviour on every branch, bounds and invariants; that a
  published anchor is never torn and implies synchronisation (\<open>PpsClock\<close>, \<open>PpsAnchor\<close>); that a record of the
  diagnostics ring is never torn (\<open>DiagRace\<close>) and what the estimators learn is one whole stamp of a SEND of class
  NTP, not a mixture of several, while other frames are sent (\<open>StampRaces\<close>); that a
  recorded arrival the lookup returns is never torn and belongs to its request (\<open>HookRing\<close>, \<open>RxHook\<close>); that a SEND
  stamped as patched put exactly the new T3 and a valid checksum on the wire (\<open>TxPatch\<close>, \<open>W5500Spi\<close>);
  that a reply is sent only for requests the server can vouch for, has every field as specified and
  the root dispersion of its age, which is sound unless the age wraps (\<open>RecvTask\<close>, \<open>NtpResponse\<close>); that all of this holds together from the
  frame on the wire to the transmit time in the chip, in every reachable state (\<open>Server\<close>); that
  the times in the reply are behind true time by the latency of the last pulse's interrupt, to within 3 us, while
  the crystal keeps within 500 ppb of the rate measured at that pulse (\<open>TimeTransfer\<close>); that
  the state is well typed, every table and ring keeps its size and its cursor inside, and the answers on the diagnostics port are complete and never read past a
  buffer in every reachable state (\<open>ServerTypes\<close>), and a client reads every record back from the dump
  (\<open>DiagRead\<close>); what a boot after a panic reports of the one before (\<open>GpsTelemetry\<close>); and that connection triggers alternate, a sleeping loop has nothing to do and a
  lost link comes back unless a call of the SDK fails
  (\<open>EthRuns\<close>, \<open>EthRp2\<close>). Some theorems establish defects or surprising behaviour instead: a torn T3
  when a wrapped write fails half way, a wrapping age in the root dispersion, an old second
  served after the epoch was corrected, a connection reported without an address.

  \<^bold>\<open>Loops and fuel.\<close> Loops over fixed tables are maps and folds. The seqlock readers try four times
  (anchor) or three times (dump), as in the code. The ARP wait has a fuel of 20000 iterations: each
  one sleeps at least a microsecond and the code gives up after 20000 us, so the fuel is never
  exhausted, as \<open>ArpWait\<close> proves. The polling loops of the PHY driver run on the
  number of attempts the time-out allows. Every other function terminates structurally or by a
  measure.

  \<^bold>\<open>Not modelled.\<close> Log output other than \<open>dump_config\<close> of the Ethernet component; ESP-IDF, lwIP,
  FreeRTOS and the arduino libraries, which are parameters, with the defaults of their configuration
  structures; the code generation in Python and YAML. The tasks interleave at the granularity of single stores only where memory is
  shared without a lock (hook ring, anchor, diagnostics ring, telemetry windows, SEND and edge stamps); elsewhere an operation of one task is atomic.
\<close>

end
